(* ===== verification/Clamor_Prelude.thy ===== *)
theory Clamor_Prelude
  imports Main "HOL-Library.Word" "HOL-Library.AList" "HOL-Library.List_Lexorder"
begin

unbundle bit_operations_syntax

text \<open>
  Shared vocabulary of the development: machine integers and byte strings under the names
  the Rust code gives them, the outcome of a call, the storage primitives of a pallet
  (append to a stored vector, retain, remove at a position), saturating arithmetic, and the
  interfaces (locales) that several pallets implement.
\<close>

named_theorems storage_simps \<open>reading back what a storage operation wrote\<close>

section \<open>Machine integers and byte strings\<close>

type_synonym u8 = "8 word"
type_synonym u32 = "32 word"
type_synonym u64 = "64 word"
type_synonym u128 = "128 word"
type_synonym u256 = "256 word"
type_synonym bytes = "u8 list"

text \<open>
  Integer arithmetic is the one of the release profile (\<open>Cargo.toml\<close> sets no
  \<open>overflow-checks\<close>): \<open>+\<close> and \<open>-\<close> wrap around, as they do on words. Where the code
  asks for saturation or a check, the operation is written out.
\<close>

definition sat_add :: "'w::len word \<Rightarrow> 'w word \<Rightarrow> 'w word" where
  "sat_add a b = (if unat a + unat b < 2 ^ LENGTH('w) then a + b else - 1)"

definition sat_sub :: "'w::len word \<Rightarrow> 'w word \<Rightarrow> 'w word" where
  "sat_sub a b = (if b \<le> a then a - b else 0)"

definition sat_mul :: "'w::len word \<Rightarrow> 'w word \<Rightarrow> 'w word" where
  "sat_mul a b = (if unat a * unat b < 2 ^ LENGTH('w) then a * b else - 1)"

definition checked_add :: "'w::len word \<Rightarrow> 'w word \<Rightarrow> 'w word option" where
  "checked_add a b = (if unat a + unat b < 2 ^ LENGTH('w) then Some (a + b) else None)"

text \<open>Big-endian bytes of a word of \<open>n\<close> bytes (\<open>to_be_bytes\<close>, \<open>to_big_endian\<close>).\<close>

definition be_bytes :: "nat \<Rightarrow> 'w::len word \<Rightarrow> bytes" where
  "be_bytes n w = map (\<lambda>i. ucast (drop_bit (8 * (n - Suc i)) w)) [0..<n]"

text \<open>ASCII literals \<open>b"..."\<close> of the source.\<close>

definition ascii :: "string \<Rightarrow> bytes" where
  "ascii cs = map (\<lambda>c. of_nat (of_char c)) cs"

section \<open>Word arithmetic\<close>

lemma unat_of_nat_small: "n < 2 ^ LENGTH('w) \<Longrightarrow> unat (of_nat n :: 'w::len word) = n"
  by (simp add: unat_of_nat)

lemma of_nat_eq_wordI: "unat w = n \<Longrightarrow> of_nat n = (w :: 'w::len word)"
  by (metis of_nat_unat ucast_id)

lemma of_nat_plus_1_eq: "Suc n = unat w \<Longrightarrow> of_nat n + 1 = (w :: 'w::len word)"
  by (metis add.commute of_nat_Suc of_nat_eq_wordI)

lemma of_nat_plus_1_less:
  assumes "Suc n < unat w" shows "of_nat n + 1 < (w :: 'w::len word)"
proof -
  have "unat w < 2 ^ LENGTH('w)" by (rule unsigned_less)
  with assms have "unat (of_nat (Suc n) :: 'w word) = Suc n"
    by (intro unat_of_nat_small) (rule less_trans)
  with assms show ?thesis by (simp add: word_less_nat_alt add.commute)
qed

lemma unat_plus_small:
  "unat a + unat b < 2 ^ LENGTH('w) \<Longrightarrow> unat (a + b :: 'w::len word) = unat a + unat b"
  by (simp add: unat_add_lem)

lemma unat_plus_1_le: "unat (c + 1 :: u64) \<le> Suc (unat c)"
  by (simp add: unat_word_ariths)

lemma unat_less_max:
  assumes "c \<noteq> (- 1 :: 'w::len word)" shows "Suc (unat c) < 2 ^ LENGTH('w)"
proof -
  have "unat c < 2 ^ LENGTH('w)" by (rule unsigned_less)
  moreover have "unat (- 1 :: 'w word) = 2 ^ LENGTH('w) - 1"
    by (simp add: unsigned_minus_1_eq_mask mask_eq_exp_minus_1)
  then have "unat c \<noteq> 2 ^ LENGTH('w) - 1" using assms by (metis word_unat_eq_iff)
  ultimately show ?thesis by (metis Suc_lessI diff_Suc_1)
qed

lemma unat_plus_1: "c \<noteq> (- 1 :: 'w::len word) \<Longrightarrow> unat (c + 1) = Suc (unat c)"
  using unat_less_max [of c] by (cases "LENGTH('w) = 0") (auto simp: unat_plus_small)

lemma less_plus_1: "c \<noteq> (- 1 :: 'w::len word) \<Longrightarrow> c < c + 1"
  by (simp add: word_less_nat_alt unat_plus_1)

lemma unat_minus_small: "b \<le> a \<Longrightarrow> unat (a - b :: 'w::len word) = unat a - unat b"
  by (simp add: unat_sub word_le_nat_alt)

lemma unat_sat_sub: "unat (sat_sub a b) = unat a - unat (b :: 'w::len word)"
  by (auto simp: sat_sub_def unat_minus_small word_le_nat_alt)

lemma length_be_bytes [simp]: "length (be_bytes n w) = n"
  by (simp add: be_bytes_def)

lemma be_bytes_inj:
  fixes v w :: "'w::len word"
  assumes "be_bytes n v = be_bytes n w" and "LENGTH('w) \<le> 8 * n"
  shows "v = w"
proof (rule bit_word_eqI)
  fix i assume i: "i < LENGTH('w)"
  define j where "j = n - Suc (i div 8)"
  have j: "j < n" "n - Suc j = i div 8" using i assms(2) by (auto simp: j_def)
  have "(ucast (drop_bit (8 * (n - Suc j)) v) :: u8) = ucast (drop_bit (8 * (n - Suc j)) w)"
    using arg_cong [OF assms(1), of "\<lambda>bs. bs ! j"] j(1) by (simp add: be_bytes_def)
  then have "bit (ucast (drop_bit (8 * (i div 8)) v) :: u8) (i mod 8) =
      bit (ucast (drop_bit (8 * (i div 8)) w) :: u8) (i mod 8)"
    using j(2) by simp
  then show "bit v i = bit w i"
    by (simp add: bit_simps)
qed

lemma be_bytes_eq_iff: "LENGTH('w) \<le> 8 * n \<Longrightarrow> be_bytes n (v :: 'w::len word) = be_bytes n w \<longleftrightarrow> v = w"
  by (auto dest: be_bytes_inj)

lemma length_ascii [simp]: "length (ascii cs) = length cs"
  by (simp add: ascii_def)

section \<open>Outcome of a call\<close>

text \<open>
  A dispatchable returns \<open>Ok(())\<close> or an error; an \<open>unwrap\<close> on \<open>None\<close> or a failed
  \<open>assert!\<close> panics. The storage at the time of return is the second component, also when
  the call fails: whether the caller rolls it back is a matter of the dispatcher.
\<close>

datatype 'e outcome = Ok | Err 'e | Panic

datatype 'e dispatch_error = BadOrigin | CannotLookup | CurrencyError | Module 'e

text \<open>The origin of an extrinsic (\<open>frame_system::RawOrigin\<close>) and the checks on it.\<close>

datatype 'a origin = Root | Signed 'a | NoOrigin

fun ensure_signed :: "'a origin \<Rightarrow> 'a option" where
  "ensure_signed (Signed a) = Some a"
| "ensure_signed _ = None"

fun ensure_root :: "'a origin \<Rightarrow> bool" where
  "ensure_root Root = True"
| "ensure_root _ = False"

fun ensure_none :: "'a origin \<Rightarrow> bool" where
  "ensure_none NoOrigin = True"
| "ensure_none _ = False"

lemma ensure_signed_iff [simp]: "ensure_signed og = Some a \<longleftrightarrow> og = Signed a"
  by (cases og) auto

lemma ensure_signed_None: "ensure_signed og = None \<longleftrightarrow> (\<forall>a. og \<noteq> Signed a)"
  by (cases og) auto

section \<open>Storage primitives\<close>

text \<open>\<open>StorageMap::append\<close>: push on the stored vector, creating it when absent.\<close>

definition storage_append :: "('k \<rightharpoonup> 'v list) \<Rightarrow> 'k \<Rightarrow> 'v \<Rightarrow> ('k \<rightharpoonup> 'v list)" where
  "storage_append m k v = m(k \<mapsto> (case m k of None \<Rightarrow> [v] | Some vs \<Rightarrow> vs @ [v]))"

text \<open>\<open>StorageMap::mutate\<close> on a present value only (\<open>if let Some(x) = x\<close>).\<close>

definition storage_mutate :: "('k \<rightharpoonup> 'v) \<Rightarrow> 'k \<Rightarrow> ('v \<Rightarrow> 'v) \<Rightarrow> ('k \<rightharpoonup> 'v)" where
  "storage_mutate m k f = (case m k of None \<Rightarrow> m | Some v \<Rightarrow> m(k \<mapsto> f v))"

text \<open>The stored vector, empty when absent: what a reader of the index sees.\<close>

definition listed :: "('k \<rightharpoonup> 'v list) \<Rightarrow> 'k \<Rightarrow> 'v list" where
  "listed m k = (case m k of None \<Rightarrow> [] | Some vs \<Rightarrow> vs)"

text \<open>\<open>Vec::retain(|x| x != v)\<close>.\<close>

definition retain_not :: "'v \<Rightarrow> 'v list \<Rightarrow> 'v list" where
  "retain_not v vs = filter (\<lambda>x. x \<noteq> v) vs"

text \<open>\<open>iter().position(|x| x == v)\<close> followed by \<open>remove(index)\<close>.\<close>

fun position :: "'v \<Rightarrow> 'v list \<Rightarrow> nat option" where
  "position v [] = None"
| "position v (x # xs) = (if x = v then Some 0 else map_option Suc (position v xs))"

definition remove_at :: "nat \<Rightarrow> 'v list \<Rightarrow> 'v list" where
  "remove_at i vs = take i vs @ drop (Suc i) vs"

lemma listed_append [storage_simps]:
  "listed (storage_append m k v) k' = (if k' = k then listed m k @ [v] else listed m k')"
  by (auto simp: listed_def storage_append_def split: option.splits)

lemma storage_append_other [storage_simps]:
  "k' \<noteq> k \<Longrightarrow> storage_append m k v k' = m k'"
  by (simp add: storage_append_def)

lemma storage_append_same [storage_simps]: "storage_append m k v k = Some (listed m k @ [v])"
  by (auto simp: listed_def storage_append_def split: option.splits)

lemma dom_storage_append [storage_simps]: "dom (storage_append m k v) = insert k (dom m)"
  by (auto simp: storage_append_def)

lemma storage_mutate_other [storage_simps]: "k' \<noteq> k \<Longrightarrow> storage_mutate m k f k' = m k'"
  by (simp add: storage_mutate_def split: option.splits)

lemma storage_mutate_same [storage_simps]: "storage_mutate m k f k = map_option f (m k)"
  by (simp add: storage_mutate_def split: option.splits)

lemma dom_storage_mutate [storage_simps]: "dom (storage_mutate m k f) = dom m"
  by (auto simp: storage_mutate_def split: option.splits)

lemma listed_mutate [storage_simps]:
  "f [] = [] \<Longrightarrow>
   listed (storage_mutate m k f) k' = (if k' = k then f (listed m k) else listed m k')"
  by (auto simp: listed_def storage_mutate_def split: option.splits)

lemma listed_upd [storage_simps]: "listed (m(k \<mapsto> vs)) k' = (if k' = k then vs else listed m k')"
  by (simp add: listed_def)

lemma listed_None [storage_simps]: "listed (m(k := None)) k' = (if k' = k then [] else listed m k')"
  by (simp add: listed_def)

lemma listed_Map_empty [storage_simps]: "listed Map.empty k = []"
  by (simp add: listed_def)

lemma retain_not_Nil [simp]: "retain_not v [] = []"
  by (simp add: retain_not_def)

lemma set_retain_not [simp]: "set (retain_not v vs) = set vs - {v}"
  by (auto simp: retain_not_def)

lemma distinct_retain_not [simp]: "distinct vs \<Longrightarrow> distinct (retain_not v vs)"
  by (simp add: retain_not_def)

lemma position_None_iff [simp]: "position v vs = None \<longleftrightarrow> v \<notin> set vs"
  by (induction vs) auto

lemma remove_at_position:
  "position v vs = Some i \<Longrightarrow> remove_at i vs = remove1 v vs"
proof (induction vs arbitrary: i)
  case (Cons x xs)
  then show ?case
    by (auto simp: remove_at_def split: if_splits)
qed simp

text \<open>Removing by position is the removal of the first occurrence, present or not.\<close>

definition remove_first :: "'v \<Rightarrow> 'v list \<Rightarrow> 'v list" where
  "remove_first v vs = (case position v vs of None \<Rightarrow> vs | Some i \<Rightarrow> remove_at i vs)"

lemma remove_first_remove1 [simp]: "remove_first v vs = remove1 v vs"
  by (auto simp: remove_first_def remove_at_position remove1_idem split: option.splits)

lemma storage_mutate_Some: "m k = Some v \<Longrightarrow> storage_mutate m k f = m(k \<mapsto> f v)"
  by (simp add: storage_mutate_def)

lemma storage_mutate_id [simp]: "storage_mutate m k (\<lambda>v. v) = m"
  by (auto simp: storage_mutate_def fun_upd_idem split: option.split)

section \<open>Numbered keys\<close>

text \<open>Every key has a number of its own between 1 and the counter.\<close>

definition numbered :: "('k \<rightharpoonup> u64) \<Rightarrow> u64 \<Rightarrow> bool" where
  "numbered m c \<longleftrightarrow> inj_on m (dom m) \<and> (\<forall>i \<in> ran m. 1 \<le> i \<and> i \<le> c)"

lemma numbered_inj: "numbered m c \<Longrightarrow> m k = Some i \<Longrightarrow> m l = Some i \<Longrightarrow> k = l"
  by (auto simp: numbered_def inj_on_def dom_def)

lemma numbered_range: "numbered m c \<Longrightarrow> m k = Some i \<Longrightarrow> 1 \<le> i \<and> i \<le> c"
  by (auto simp: numbered_def ran_def)

lemma numbered_empty: "numbered Map.empty 0"
  by (simp add: numbered_def)

lemma numbered_insert:
  assumes "numbered m c" and "m k = None" and "c \<noteq> - 1"
  shows "numbered (m(k \<mapsto> c + 1)) (c + 1)"
proof -
  have c: "c < c + 1" using assms(3) by (rule less_plus_1)
  then have old: "1 \<le> i \<and> i \<le> c + 1 \<and> i \<noteq> c + 1" if "m l = Some i" for l i
    using numbered_range [OF assms(1) that] by auto
  have "1 \<le> c + 1" using c by (metis word_coorder.extremum_strict word_less_1 not_le)
  then show ?thesis
    using assms(1,2) old
    by (fastforce simp: numbered_def inj_on_def dom_def ran_def split: if_splits)
qed

locale interner =
  fixes table :: "'s \<Rightarrow> 'k \<Rightarrow> u64 option"
    and counter :: "'s \<Rightarrow> u64"
    and intern :: "'k \<Rightarrow> 's \<Rightarrow> u64 \<times> 's"
  assumes known: "table s k = Some i \<Longrightarrow> intern k s = (i, s)"
    and fresh: "table s k = None \<Longrightarrow> intern k s = (i, t) \<Longrightarrow>
      i = counter s + 1 \<and> counter t = i \<and> table t = (table s)(k \<mapsto> i)"
begin

lemma intern_lookup: "intern k s = (i, t) \<Longrightarrow> table t k = Some i"
  using fresh [of s k i t] by (cases "table s k") (auto simp: known)

lemma intern_keeps:
  assumes "intern k s = (i, t)" and "table s l = Some j" shows "table t l = Some j"
proof (cases "table s k")
  case None
  then have "l \<noteq> k" using assms(2) by auto
  then show ?thesis using fresh [OF None assms(1)] assms(2) by simp
next
  case (Some i')
  then show ?thesis using assms by (simp add: known)
qed

lemma intern_numbered:
  assumes "numbered (table s) (counter s)" and "counter s \<noteq> - 1" and "intern k s = (i, t)"
  shows "numbered (table t) (counter t)"
proof (cases "table s k")
  case None
  then show ?thesis using fresh [OF None assms(3)] numbered_insert [OF assms(1) None assms(2)] by simp
next
  case (Some j)
  then show ?thesis using assms(1,3) by (simp add: known)
qed

lemma intern_counter: "intern k s = (i, t) \<Longrightarrow> unat (counter t) \<le> Suc (unat (counter s))"
proof (cases "table s k")
  case None
  assume "intern k s = (i, t)"
  from fresh [OF None this] show ?thesis by (simp add: unat_plus_1_le)
qed (simp add: known)

text \<open>A key that has been interned gets its number again, in any later state that keeps it.\<close>

lemma intern_stable: "intern k s = (i, t) \<Longrightarrow> intern k t = (i, t)"
  using known [of t k i] intern_lookup [of k s i t] by simp

end

section \<open>Indices\<close>

text \<open>
  A stored index lists each item once, under the key the item has now.
\<close>

definition indexes :: "('o \<rightharpoonup> 'h list) \<Rightarrow> ('h \<rightharpoonup> 'o) \<Rightarrow> bool" where
  "indexes idx key_of \<longleftrightarrow>
     (\<forall>k. distinct (listed idx k) \<and> (\<forall>h. h \<in> set (listed idx k) \<longleftrightarrow> key_of h = Some k))"

lemma indexes_empty: "indexes Map.empty Map.empty"
  by (simp add: indexes_def storage_simps)

lemma indexes_add:
  "indexes L f \<Longrightarrow> f h = None \<Longrightarrow> indexes (storage_append L k h) (f(h \<mapsto> k))"
  by (auto simp: indexes_def storage_simps)

lemma indexes_move:
  "indexes L f \<Longrightarrow> f h = Some k \<Longrightarrow>
   indexes (storage_append (storage_mutate L k (retain_not h)) l h) (f(h \<mapsto> l))"
  by (auto simp: indexes_def storage_simps)

lemma indexes_same: "indexes L f \<Longrightarrow> f h = Some k \<Longrightarrow> indexes L (f(h \<mapsto> k))"
  by (simp add: fun_upd_idem)

locale catalogue =
  fixes idx :: "'s \<Rightarrow> 'o \<Rightarrow> 'h list option"
    and key_of :: "'s \<Rightarrow> 'h \<Rightarrow> 'o option"
    and inv :: "'s \<Rightarrow> bool"
  assumes indexed: "inv s \<Longrightarrow> indexes (idx s) (key_of s)"
begin

lemma listed_iff: "inv s \<Longrightarrow> h \<in> set (listed (idx s) k) \<longleftrightarrow> key_of s h = Some k"
  using indexed by (simp add: indexes_def)

lemma listed_once: "inv s \<Longrightarrow> distinct (listed (idx s) k)"
  using indexed by (simp add: indexes_def)

lemma listed_disjoint:
  "inv s \<Longrightarrow> k \<noteq> l \<Longrightarrow> set (listed (idx s) k) \<inter> set (listed (idx s) l) = {}"
  by (auto simp: listed_iff)

lemma listed_count: "inv s \<Longrightarrow> length (listed (idx s) k) = card {h. key_of s h = Some k}"
  using distinct_card [OF listed_once, of s k] by (simp add: listed_iff [symmetric] set_def)

end

end
