(* ===== verification/Clamor_System.thy ===== *)
theory Clamor_System
  imports Clamor_Prelude
begin

text \<open>
  What every pallet shares: the types of \<open>primitives/clamor/src/lib.rs\<close> and of the
  runtime's configuration (\<open>runtime/src/lib.rs\<close>), the environment of functions that are
  not part of the repository (hashes, signature recovery, codecs, the currency of
  \<open>pallet_balances\<close> and \<open>pallet_assets\<close>), and the part of the chain state that FRAME's
  own pallets keep.
\<close>

section \<open>Types of the runtime\<close>

text \<open>
  The runtime instantiates \<open>T::AccountId\<close> with a 32 byte account id, \<open>T::Balance\<close> with
  \<open>u128\<close>, \<open>T::BlockNumber\<close>, \<open>T::Moment\<close> and \<open>T::AssetId\<close> with \<open>u64\<close>.
\<close>

type_synonym hash256 = bytes
type_synonym hash128 = bytes
type_synonym h160 = bytes
type_synonym account_id = bytes
type_synonym balance = u128
type_synonym block_num = u64
type_synonym moment = u64
type_synonym asset_id = u64

definition CID_PREFIX :: bytes where
  "CID_PREFIX = [0x01, 0x55, 0xa0, 0xe4, 0x02, 0x20]"

section \<open>Functions outside the repository\<close>

text \<open>
  Cryptography, codecs and the currency are parameters: one record, passed to every
  operation that uses them. The currency keeps its own state of type \<open>'b\<close>, which the
  pallets never look into. \<open>None\<close> is an error of the callee, which leaves its state alone.
\<close>

record 'b ext =
  blake2_256 :: "bytes \<Rightarrow> hash256"
  blake2_128 :: "bytes \<Rightarrow> hash128"
  keccak_256 :: "bytes \<Rightarrow> bytes"
  ecdsa_recover :: "bytes \<Rightarrow> bytes \<Rightarrow> bytes option"
  encode_account :: "account_id \<Rightarrow> bytes"
  decode_account :: "bytes \<Rightarrow> account_id option"
  to_base58 :: "bytes \<Rightarrow> bytes"
  minimum_balance :: balance
  free_balance :: "'b \<Rightarrow> account_id \<Rightarrow> balance"
  reserve :: "'b \<Rightarrow> account_id \<Rightarrow> balance \<Rightarrow> 'b option"
  transfer_keep_alive :: "'b \<Rightarrow> account_id \<Rightarrow> account_id \<Rightarrow> balance \<Rightarrow> 'b option"
  asset_minimum_balance :: "'b \<Rightarrow> asset_id \<Rightarrow> balance"
  asset_balance :: "'b \<Rightarrow> asset_id \<Rightarrow> account_id \<Rightarrow> balance"
  asset_transfer :: "'b \<Rightarrow> asset_id \<Rightarrow> account_id \<Rightarrow> account_id \<Rightarrow> balance \<Rightarrow> 'b option"

section \<open>State of the FRAME pallets\<close>

text \<open>
  The block being built (\<open>frame_system\<close>, \<open>pallet_timestamp\<close>), the state of the currency,
  and the data the block asks the node to index (\<open>transaction_index::index\<close>).
\<close>

record 'b system_state =
  block_number :: block_num
  extrinsic_index :: "u32 option"
  now :: moment
  balances :: 'b
  indexed :: "(u32 \<times> u32 \<times> hash256) list"

text \<open>\<open>transaction_index::index(extrinsic_index, data.len() as u32, hash)\<close>.\<close>

definition index_data :: "u32 \<Rightarrow> nat \<Rightarrow> hash256 \<Rightarrow> ('b, 'x) system_state_scheme \<Rightarrow> ('b, 'x) system_state_scheme" where
  "index_data ei len h s = s\<lparr>indexed := indexed s @ [(ei, of_nat len, h)]\<rparr>"

text \<open>
  The account that may stake for \<open>who\<close>: the hash of \<open>who\<close> with a constant suffix, an
  account nobody holds the key of.
\<close>

definition get_locked_frag_account :: "('b, 'y) ext_scheme \<Rightarrow> account_id \<Rightarrow> account_id option" where
  "get_locked_frag_account E who =
     decode_account E (blake2_256 E (encode_account E who @ ascii ''frag-locked-account''))"

text \<open>
  The version 1 content id of a hash: \<open>"z"\<close> and the base 58 text of the prefixed hash.
\<close>

definition cid_of :: "('b, 'y) ext_scheme \<Rightarrow> hash256 \<Rightarrow> bytes" where
  "cid_of E h = ascii ''z'' @ to_base58 E (CID_PREFIX @ h)"

section \<open>Dispatch\<close>

text \<open>
  FRAME runs a call and, in versions whose calls are transactional, restores the storage
  when the call fails. Which of the two the linked version does is a parameter.
\<close>

definition dispatch :: "bool \<Rightarrow> ('s \<Rightarrow> 'e outcome \<times> 's) \<Rightarrow> 's \<Rightarrow> 'e outcome \<times> 's" where
  "dispatch transactional call s =
     (case call s of (r, s') \<Rightarrow> (r, if transactional \<and> r \<noteq> Ok then s else s'))"

text \<open>
  The discipline the comments of the pallets ask for (\<open>Write STATE from now, ensure no
  errors from now\<close>): a call that fails or panics has not written yet. Then the two
  dispatchers cannot be told apart.
\<close>

locale checked_call =
  fixes call :: "'s \<Rightarrow> 'e outcome \<times> 's"
  assumes failure_keeps_state: "call s = (r, t) \<Longrightarrow> r \<noteq> Ok \<Longrightarrow> t = s"
begin

lemma failed_call: "fst (call s) \<noteq> Ok \<Longrightarrow> snd (call s) = s"
  using failure_keeps_state [of s "fst (call s)" "snd (call s)"] by simp

lemma dispatch_eq_call: "dispatch tr call s = call s"
  using failed_call [of s] by (auto simp: dispatch_def split: prod.splits)

lemma dispatch_failure: "fst (dispatch tr call s) \<noteq> Ok \<Longrightarrow> snd (dispatch tr call s) = s"
  by (simp add: dispatch_eq_call failed_call)

lemma writes_only_if_ok: "snd (call s) \<noteq> s \<Longrightarrow> fst (call s) = Ok"
  using failed_call by blast

end

end
