(* ===== verification/Detach.thy ===== *)
theory Detach
  imports Clamor_System
begin

text \<open>
  The pallet \<open>pallets/detach/src/lib.rs\<close>, on-chain part: the queue of detach requests, the
  authorities and keys, the nonces and the set of detached Proto-Fragments; the calls that
  change them, the hook at the end of a block and the check of unsigned transactions. The
  off-chain worker that signs the queued requests is in \<open>Detach_Worker\<close>.
\<close>

section \<open>Data\<close>

datatype supported_chains = EthereumMainnet | EthereumRinkeby | EthereumGoerli

record detach_request =
  req_hash :: hash256
  req_target_chain :: supported_chains
  req_target_account :: bytes

text \<open>\<open>sp_runtime::MultiSigner\<close>, the runtime's \<open>T::Public\<close>.\<close>

datatype multi_signer = Ed25519 bytes | Sr25519 bytes | Ecdsa bytes

record detach_internal_data =
  det_public :: multi_signer
  det_hash :: hash256
  det_target_chain :: supported_chains
  det_target_account :: bytes
  det_remote_signature :: bytes
  det_nonce :: u64

record export_data =
  exp_chain :: supported_chains
  exp_owner :: bytes
  exp_nonce :: u64

datatype detach_event =
    Detach_Uploaded hash256
  | Detach_Patched hash256
  | Detach_MetadataChanged hash256 bytes
  | Detach_Detached hash256 bytes
  | Detach_Transferred hash256 account_id

datatype detach_error = Already_Detached | NoValidator | SigningFailed

text \<open>
  The storage of the pallet, and the node's off-chain database entry
  \<open>fragments-detach-requests\<close> that the block hook writes.
\<close>

record 'b detach_state = "'b system_state" +
  DetachRequests :: "detach_request list"
  DetachNonces :: "bytes \<times> supported_chains \<rightharpoonup> u64"
  DetachedHashes :: "hash256 \<rightharpoonup> export_data"
  EthereumAuthorities :: "bytes set"
  detach_FragKeys :: "bytes set"
  detach_events :: "detach_event list"
  offchain_requests :: "detach_request list option"

text \<open>
  The codec of public keys and the verification of a signed payload are outside the
  repository.
\<close>

record 'b detach_ext = "'b ext" +
  encode_public :: "multi_signer \<Rightarrow> bytes"
  decode_multi_signer :: "bytes \<Rightarrow> multi_signer option"
  verify_detach :: "detach_internal_data \<Rightarrow> bytes \<Rightarrow> bool"

section \<open>Calls\<close>

definition add_eth_auth :: "account_id origin \<Rightarrow> bytes \<Rightarrow> ('b, 'x) detach_state_scheme
    \<Rightarrow> detach_error dispatch_error outcome \<times> ('b, 'x) detach_state_scheme" where
  "add_eth_auth og public s =
     (if \<not> ensure_root og then (Err BadOrigin, s)
      else (Ok, s\<lparr>EthereumAuthorities := insert public (EthereumAuthorities s)\<rparr>))"

definition del_eth_auth :: "account_id origin \<Rightarrow> bytes \<Rightarrow> ('b, 'x) detach_state_scheme
    \<Rightarrow> detach_error dispatch_error outcome \<times> ('b, 'x) detach_state_scheme" where
  "del_eth_auth og public s =
     (if \<not> ensure_root og then (Err BadOrigin, s)
      else (Ok, s\<lparr>EthereumAuthorities := EthereumAuthorities s - {public}\<rparr>))"

definition detach_add_key :: "account_id origin \<Rightarrow> bytes \<Rightarrow> ('b, 'x) detach_state_scheme
    \<Rightarrow> detach_error dispatch_error outcome \<times> ('b, 'x) detach_state_scheme" where
  "detach_add_key og public s =
     (if \<not> ensure_root og then (Err BadOrigin, s)
      else (Ok, s\<lparr>detach_FragKeys := insert public (detach_FragKeys s)\<rparr>))"

definition detach_del_key :: "account_id origin \<Rightarrow> bytes \<Rightarrow> ('b, 'x) detach_state_scheme
    \<Rightarrow> detach_error dispatch_error outcome \<times> ('b, 'x) detach_state_scheme" where
  "detach_del_key og public s =
     (if \<not> ensure_root og then (Err BadOrigin, s)
      else (Ok, s\<lparr>detach_FragKeys := detach_FragKeys s - {public}\<rparr>))"

definition internal_finalize_detach :: "account_id origin \<Rightarrow> detach_internal_data \<Rightarrow> bytes
    \<Rightarrow> ('b, 'x) detach_state_scheme
    \<Rightarrow> detach_error dispatch_error outcome \<times> ('b, 'x) detach_state_scheme" where
  "internal_finalize_detach og d sig s =
     (if \<not> ensure_none og then (Err BadOrigin, s)
      else
        (let s1 = s\<lparr>DetachNonces := (DetachNonces s)
                      ((det_target_account d, det_target_chain d) \<mapsto> det_nonce d)\<rparr>;
             export = \<lparr>exp_chain = det_target_chain d, exp_owner = det_target_account d,
                       exp_nonce = det_nonce d\<rparr>;
             s2 = s1\<lparr>DetachedHashes := (DetachedHashes s1)(det_hash d \<mapsto> export)\<rparr>
         in (Ok, s2\<lparr>detach_events := detach_events s2
                      @ [Detach_Detached (det_hash d) (det_remote_signature d)]\<rparr>)))"

section \<open>Hook and genesis\<close>

text \<open>\<open>on_finalize\<close>: take the queue; when it holds requests, hand them to the off-chain worker.\<close>

definition detach_on_finalize :: "('b, 'x) detach_state_scheme \<Rightarrow> ('b, 'x) detach_state_scheme" where
  "detach_on_finalize s =
     (let requests = DetachRequests s; s' = s\<lparr>DetachRequests := []\<rparr>
      in if requests \<noteq> [] then s'\<lparr>offchain_requests := Some requests\<rparr> else s')"

definition initialize_eth_authorities :: "bytes list \<Rightarrow> ('b, 'x) detach_state_scheme
    \<Rightarrow> detach_error dispatch_error outcome \<times> ('b, 'x) detach_state_scheme" where
  "initialize_eth_authorities authorities s =
     (if authorities = [] then (Ok, s)
      else if EthereumAuthorities s \<noteq> {} then (Panic, s)
      else (Ok, s\<lparr>EthereumAuthorities := fold insert authorities (EthereumAuthorities s)\<rparr>))"

definition detach_initialize_keys :: "bytes list \<Rightarrow> ('b, 'x) detach_state_scheme
    \<Rightarrow> detach_error dispatch_error outcome \<times> ('b, 'x) detach_state_scheme" where
  "detach_initialize_keys keys s =
     (if keys = [] then (Ok, s)
      else if detach_FragKeys s \<noteq> {} then (Panic, s)
      else (Ok, s\<lparr>detach_FragKeys := fold insert keys (detach_FragKeys s)\<rparr>))"

definition detach_genesis_build :: "bytes list \<Rightarrow> bytes list \<Rightarrow> ('b, 'x) detach_state_scheme
    \<Rightarrow> detach_error dispatch_error outcome \<times> ('b, 'x) detach_state_scheme" where
  "detach_genesis_build eth_authorities keys s =
     (case initialize_eth_authorities eth_authorities s of
        (Ok, s') \<Rightarrow> detach_initialize_keys keys s'
      | (r, s') \<Rightarrow> (r, s'))"

section \<open>Unsigned transactions\<close>

datatype transaction_source = InBlock | Local | External

datatype invalid_transaction = Invalid_Call | Invalid_BadSigner | Invalid_BadProof

datatype 'p validity = Invalid invalid_transaction
  | Valid (tag_prefix: string) (provides: 'p) (propagate: bool)

datatype detach_call =
    Add_eth_auth bytes | Del_eth_auth bytes | Detach_Add_key bytes | Detach_Del_key bytes
  | Internal_finalize_detach detach_internal_data bytes

definition detach_validate_unsigned :: "('b, 'y) detach_ext_scheme \<Rightarrow> transaction_source
    \<Rightarrow> detach_call \<Rightarrow> ('b, 'x) detach_state_scheme
    \<Rightarrow> (hash256 \<times> supported_chains \<times> bytes \<times> u64) validity" where
  "detach_validate_unsigned E source c s =
     (case c of
        Internal_finalize_detach d sig \<Rightarrow>
          (if source = External then Invalid Invalid_Call
           else
             (case decode_multi_signer E (encode_public E (det_public d)) of
                Some (Ed25519 pub_key) \<Rightarrow>
                  (if pub_key \<notin> detach_FragKeys s then Invalid Invalid_BadSigner
                   else if \<not> verify_detach E d sig then Invalid Invalid_BadProof
                   else Valid ''Detach''
                     (det_hash d, det_target_chain d, det_target_account d, det_nonce d) False)
              | _ \<Rightarrow> Invalid Invalid_BadSigner))
      | _ \<Rightarrow> Invalid Invalid_Call)"

text \<open>
  The calls of the pallet, as \<open>#[pallet::call]\<close> dispatches them.
\<close>

fun detach_dispatch :: "account_id origin \<Rightarrow> detach_call \<Rightarrow> ('b, 'x) detach_state_scheme
    \<Rightarrow> detach_error dispatch_error outcome \<times> ('b, 'x) detach_state_scheme" where
  "detach_dispatch og (Add_eth_auth p) s = add_eth_auth og p s"
| "detach_dispatch og (Del_eth_auth p) s = del_eth_auth og p s"
| "detach_dispatch og (Detach_Add_key p) s = detach_add_key og p s"
| "detach_dispatch og (Detach_Del_key p) s = detach_del_key og p s"
| "detach_dispatch og (Internal_finalize_detach d sig) s = internal_finalize_detach og d sig s"

fun detach_run :: "(account_id origin \<times> detach_call) list \<Rightarrow> ('b, 'x) detach_state_scheme
    \<Rightarrow> ('b, 'x) detach_state_scheme" where
  "detach_run [] s = s"
| "detach_run ((og, c) # cs) s = detach_run cs (snd (detach_dispatch og c s))"

section \<open>Lemmas\<close>

lemmas detach_call_defs = add_eth_auth_def del_eth_auth_def detach_add_key_def
  detach_del_key_def internal_finalize_detach_def

interpretation add_eth_auth: checked_call "add_eth_auth og public" for og public
  by unfold_locales (auto simp: detach_call_defs split: if_splits)

interpretation del_eth_auth: checked_call "del_eth_auth og public" for og public
  by unfold_locales (auto simp: detach_call_defs split: if_splits)

interpretation detach_add_key: checked_call "detach_add_key og public" for og public
  by unfold_locales (auto simp: detach_call_defs split: if_splits)

interpretation detach_del_key: checked_call "detach_del_key og public" for og public
  by unfold_locales (auto simp: detach_call_defs split: if_splits)

interpretation internal_finalize_detach: checked_call "internal_finalize_detach og d sig" for og d sig
  by unfold_locales (auto simp: detach_call_defs Let_def split: if_splits)

end
