(* ===== verification/Accounts.thy ===== *)
theory Accounts
  imports Detach
begin

text \<open>
  The pallet \<open>pallets/accounts/src/lib.rs\<close>: links between Clamor and Ethereum accounts, the
  FRAG tokens an Ethereum account has locked, the votes of the off-chain workers on lock
  and unlock events, and accounts sponsored for external identities. The off-chain part
  that reads the events from an Ethereum node is not in this theory.
\<close>

section \<open>Data\<close>

datatype external_id = Discord u64

record eth_lock_update =
  elu_public :: multi_signer
  elu_amount :: u256
  elu_sender :: h160
  elu_signature :: bytes
  elu_lock :: bool
  elu_block_number :: u64

record eth_lock =
  lock_amount :: balance
  lock_block_number :: block_num

record account_info =
  info_account_id :: account_id
  info_created_at :: moment

datatype accounts_event =
    Linked account_id h160
  | Unlinked account_id h160
  | Locked h160 balance
  | Unlocked h160 balance
  | SponsoredAccount account_id account_id external_id

datatype accounts_error =
    Accounts_SystematicFailure | VerificationFailed | LinkAlreadyProcessed | LinkNotFound
  | AccountAlreadyLinked | AccountNotLinked | DifferentAccountLinked | AccountAlreadyExists
  | TooManyProxies

text \<open>
  \<open>pallet_proxy\<close>'s map \<open>Proxies\<close>, which \<open>sponsor_account\<close> writes directly: an account has a
  list of proxy definitions (delegate, proxy type, delay) and the deposit taken for it. The
  runtime's proxy type is \<open>()\<close>.
\<close>

type_synonym proxy_definition = "account_id \<times> unit \<times> block_num"

record 'b accounts_state = "'b detach_state" +
  EthLockedFrag :: "h160 \<rightharpoonup> eth_lock"
  EVMLinks :: "account_id \<rightharpoonup> h160"
  EVMLinksReverse :: "h160 \<rightharpoonup> account_id"
  FragUsage :: "account_id \<rightharpoonup> balance"
  EVMLinkVoting :: "hash256 \<rightharpoonup> u64"
  EVMLinkVotingClosed :: "hash256 \<rightharpoonup> block_num"
  PendingUnlinks :: "account_id list"
  accounts_FragKeys :: "bytes set"
  ExternalID2Account :: "external_id \<rightharpoonup> account_info"
  Proxies :: "account_id \<rightharpoonup> proxy_definition list \<times> balance"
  accounts_events :: "accounts_event list"

text \<open>The constants of the pallet's configuration.\<close>

record config =
  EthChainId :: u64
  EthConfirmations :: u64
  Threshold :: u64
  ProxyDepositBase :: balance
  ProxyDepositFactor :: balance
  MaxProxies :: u32

record 'b accounts_ext = "'b detach_ext" +
  encode_lock_tuple :: "u256 \<times> h160 \<times> bytes \<times> bool \<times> u64 \<Rightarrow> bytes"
  encode_external_id :: "external_id \<Rightarrow> bytes"
  verify_lock :: "eth_lock_update \<Rightarrow> bytes \<Rightarrow> bool"

section \<open>Linking\<close>

text \<open>
  The Ethereum address that signed a message: the last 20 bytes of the hash of the
  recovered public key.
\<close>

definition recover_address :: "('b, 'y) ext_scheme \<Rightarrow> bytes \<Rightarrow> bytes \<Rightarrow> h160 option" where
  "recover_address E sig msg_hash =
     map_option (\<lambda>recovered. drop 12 (keccak_256 E recovered)) (ecdsa_recover E sig msg_hash)"

definition link_message_hash :: "'z config_scheme \<Rightarrow> ('b, 'y) ext_scheme \<Rightarrow> account_id \<Rightarrow> bytes" where
  "link_message_hash C E sender =
     keccak_256 E (ascii ''EVM2Fragnova'' @ be_bytes 8 (EthChainId C) @ encode_account E sender)"

definition link :: "'z config_scheme \<Rightarrow> ('b, 'y) ext_scheme \<Rightarrow> account_id origin \<Rightarrow> bytes
    \<Rightarrow> ('b, 'x) accounts_state_scheme
    \<Rightarrow> accounts_error dispatch_error outcome \<times> ('b, 'x) accounts_state_scheme" where
  "link C E og sig s =
     (case ensure_signed og of None \<Rightarrow> (Err BadOrigin, s)
      | Some sender \<Rightarrow>
     (case recover_address E sig (link_message_hash C E sender) of
        None \<Rightarrow> (Err (Module VerificationFailed), s)
      | Some eth_key \<Rightarrow>
     (if EVMLinks s sender \<noteq> None then (Err (Module AccountAlreadyLinked), s)
      else if EVMLinksReverse s eth_key \<noteq> None then (Err (Module AccountAlreadyLinked), s)
      else (Ok, s\<lparr>EVMLinks := (EVMLinks s)(sender \<mapsto> eth_key),
                  EVMLinksReverse := (EVMLinksReverse s)(eth_key \<mapsto> sender),
                  FragUsage := (FragUsage s)(sender \<mapsto> 0),
                  accounts_events := accounts_events s @ [Linked sender eth_key]\<rparr>))))"

definition unlink_account :: "account_id \<Rightarrow> h160 \<Rightarrow> ('b, 'x) accounts_state_scheme
    \<Rightarrow> accounts_error dispatch_error outcome \<times> ('b, 'x) accounts_state_scheme" where
  "unlink_account sender account s =
     (case EVMLinks s sender of None \<Rightarrow> (Err (Module AccountNotLinked), s)
      | Some linked \<Rightarrow>
     (if linked \<noteq> account then (Err (Module DifferentAccountLinked), s)
      else (case EVMLinksReverse s account of None \<Rightarrow> (Err (Module AccountNotLinked), s)
      | Some owner \<Rightarrow>
     (if owner \<noteq> sender then (Err (Module DifferentAccountLinked), s)
      else (Ok, s\<lparr>EVMLinks := (EVMLinks s)(sender := None),
                  EVMLinksReverse := (EVMLinksReverse s)(account := None),
                  FragUsage := (FragUsage s)(sender := None),
                  PendingUnlinks := PendingUnlinks s @ [sender],
                  accounts_events := accounts_events s @ [Unlinked sender account]\<rparr>)))))"

definition unlink :: "account_id origin \<Rightarrow> h160 \<Rightarrow> ('b, 'x) accounts_state_scheme
    \<Rightarrow> accounts_error dispatch_error outcome \<times> ('b, 'x) accounts_state_scheme" where
  "unlink og account s =
     (case ensure_signed og of None \<Rightarrow> (Err BadOrigin, s)
      | Some sender \<Rightarrow> unlink_account sender account s)"

section \<open>Lock and unlock events\<close>

text \<open>The key under which the votes on an event are counted: it leaves out the voter.\<close>

definition lock_data_hash :: "('b, 'y) accounts_ext_scheme \<Rightarrow> eth_lock_update \<Rightarrow> hash256" where
  "lock_data_hash E d =
     blake2_256 E (encode_lock_tuple E
       (elu_amount d, elu_sender d, elu_signature d, elu_lock d, elu_block_number d))"

text \<open>The message the Ethereum account signed when it called \<open>lock\<close> or \<open>unlock\<close>.\<close>

definition lock_message_hash :: "'z config_scheme \<Rightarrow> ('b, 'y) ext_scheme \<Rightarrow> eth_lock_update \<Rightarrow> bytes" where
  "lock_message_hash C E d =
     (let message = (if elu_lock d then ascii ''FragLock'' else ascii ''FragUnlock'')
            @ elu_sender d @ be_bytes 8 (EthChainId C) @ be_bytes 32 (elu_amount d)
      in keccak_256 E (0x19 # ascii ''Ethereum Signed Message:'' @ [0x0a] @ ascii ''32''
                       @ keccak_256 E message))"

text \<open>
  The count of votes: whether the event goes ahead now, and the state with the vote
  recorded. A threshold of 1 or less does not count.
\<close>

definition count_vote :: "u64 \<Rightarrow> hash256 \<Rightarrow> ('b, 'x) accounts_state_scheme
    \<Rightarrow> bool \<times> ('b, 'x) accounts_state_scheme" where
  "count_vote threshold data_hash s =
     (if threshold > 1 then
        (case EVMLinkVoting s data_hash of
           Some current_votes \<Rightarrow>
             (if current_votes + 1 < threshold
              then (False, s\<lparr>EVMLinkVoting := (EVMLinkVoting s)(data_hash \<mapsto> current_votes + 1)\<rparr>)
              else (True, s\<lparr>EVMLinkVoting := (EVMLinkVoting s)(data_hash := None)\<rparr>))
         | None \<Rightarrow> (False, s\<lparr>EVMLinkVoting := (EVMLinkVoting s)(data_hash \<mapsto> 1)\<rparr>))
      else (True, s))"

text \<open>
  A lock: when the linked account uses more than is locked now, its stakes are dropped.
\<close>

definition apply_lock :: "h160 \<Rightarrow> balance \<Rightarrow> ('b, 'x) accounts_state_scheme
    \<Rightarrow> ('b, 'x) accounts_state_scheme" where
  "apply_lock sender amount s =
     (let s1 =
        (case EVMLinksReverse s sender of None \<Rightarrow> s
         | Some linked \<Rightarrow>
             (case FragUsage s linked of None \<Rightarrow> s
              | Some used \<Rightarrow>
                  (if used > amount
                   then s\<lparr>FragUsage := (FragUsage s)(linked := None),
                          PendingUnlinks := PendingUnlinks s @ [linked]\<rparr>
                   else s)))
      in s1\<lparr>accounts_events := accounts_events s1 @ [Locked sender amount]\<rparr>)"

text \<open>An unlock: the linked account, if any, is unlinked; this is the step that can fail.\<close>

definition apply_unlock :: "h160 \<Rightarrow> balance \<Rightarrow> ('b, 'x) accounts_state_scheme
    \<Rightarrow> accounts_error dispatch_error outcome \<times> ('b, 'x) accounts_state_scheme" where
  "apply_unlock sender amount s =
     (case (case EVMLinksReverse s sender of None \<Rightarrow> (Ok, s)
            | Some linked \<Rightarrow> unlink_account linked sender s) of
        (Ok, s1) \<Rightarrow> (Ok, s1\<lparr>accounts_events := accounts_events s1 @ [Unlocked sender amount]\<rparr>)
      | (r, s1) \<Rightarrow> (r, s1))"

text \<open>
  The writes after the vote: the effect on the linked account first, because unlinking can
  fail, then the locked amount and the end of the voting.
\<close>

definition settle_lock :: "eth_lock_update \<Rightarrow> hash256 \<Rightarrow> balance \<Rightarrow> ('b, 'x) accounts_state_scheme
    \<Rightarrow> accounts_error dispatch_error outcome \<times> ('b, 'x) accounts_state_scheme" where
  "settle_lock d data_hash amount s =
     (case (if elu_lock d then (Ok, apply_lock (elu_sender d) amount s)
            else apply_unlock (elu_sender d) amount s) of
        (Ok, s2) \<Rightarrow>
          (Ok, s2\<lparr>EthLockedFrag := (EthLockedFrag s2)
                    (elu_sender d \<mapsto> \<lparr>lock_amount = amount, lock_block_number = block_number s2\<rparr>),
                  EVMLinkVotingClosed := (EVMLinkVotingClosed s2)(data_hash \<mapsto> block_number s2)\<rparr>)
      | (r, s2) \<Rightarrow> (r, s2))"

definition internal_lock_update :: "'z config_scheme \<Rightarrow> ('b, 'y) accounts_ext_scheme
    \<Rightarrow> account_id origin \<Rightarrow> eth_lock_update \<Rightarrow> bytes \<Rightarrow> ('b, 'x) accounts_state_scheme
    \<Rightarrow> accounts_error dispatch_error outcome \<times> ('b, 'x) accounts_state_scheme" where
  "internal_lock_update C E og d sig s =
     (if \<not> ensure_none og then (Err BadOrigin, s)
      else let data_hash = lock_data_hash E d; sender = elu_sender d in
      if EVMLinkVotingClosed s data_hash \<noteq> None then (Err (Module LinkAlreadyProcessed), s)
      else (case recover_address E (elu_signature d) (lock_message_hash C E d) of
        None \<Rightarrow> (Err (Module VerificationFailed), s)
      | Some pub_key \<Rightarrow>
      if pub_key \<noteq> sender then (Err (Module VerificationFailed), s)
      else if \<not> unat (elu_amount d) < 2 ^ 128 then (Err (Module Accounts_SystematicFailure), s)
      else let amount = (ucast (elu_amount d) :: balance) in
      if \<not> elu_lock d \<and> amount \<noteq> 0 then (Err (Module Accounts_SystematicFailure), s)
      else if elu_lock d \<and> \<not> amount > 0 then (Err (Module Accounts_SystematicFailure), s)
      else (case count_vote (Threshold C) data_hash s of
        (False, s1) \<Rightarrow> (Ok, s1)
      | (True, s1) \<Rightarrow>
      settle_lock d data_hash amount s1)))"

section \<open>Sponsored accounts, keys, genesis\<close>

definition sponsored_account_of :: "('b, 'y) accounts_ext_scheme \<Rightarrow> account_id \<Rightarrow> external_id \<Rightarrow> account_id option" where
  "sponsored_account_of E who ext_id =
     decode_account E (blake2_256 E
       (ascii ''fragnova-sponsor-account'' @ encode_account E who @ encode_external_id E ext_id))"

definition sponsor_account :: "'z config_scheme \<Rightarrow> ('b, 'y) accounts_ext_scheme
    \<Rightarrow> account_id origin \<Rightarrow> external_id \<Rightarrow> ('b, 'x) accounts_state_scheme
    \<Rightarrow> accounts_error dispatch_error outcome \<times> ('b, 'x) accounts_state_scheme" where
  "sponsor_account C E og ext_id s =
     (case ensure_signed og of None \<Rightarrow> (Err BadOrigin, s)
      | Some who \<Rightarrow>
     (case sponsored_account_of E who ext_id of
        None \<Rightarrow> (Err (Module Accounts_SystematicFailure), s)
      | Some account \<Rightarrow>
     (if Proxies s account \<noteq> None then (Err (Module AccountAlreadyExists), s)
      else let proxy_def = (who, (), 0) in
      if unat (MaxProxies C) < 1 then (Err (Module TooManyProxies), s)
      else let deposit = ProxyDepositBase C + ProxyDepositFactor C in
      (case reserve E (balances s) who deposit of
        None \<Rightarrow> (Err CurrencyError, s)
      | Some b \<Rightarrow>
        (Ok, s\<lparr>balances := b,
               Proxies := (Proxies s)(account \<mapsto> ([proxy_def], deposit)),
               ExternalID2Account := (ExternalID2Account s)
                 (ext_id \<mapsto> \<lparr>info_account_id = account, info_created_at = now s\<rparr>),
               accounts_events := accounts_events s @ [SponsoredAccount who account ext_id]\<rparr>)))))"

definition accounts_add_key :: "account_id origin \<Rightarrow> bytes \<Rightarrow> ('b, 'x) accounts_state_scheme
    \<Rightarrow> accounts_error dispatch_error outcome \<times> ('b, 'x) accounts_state_scheme" where
  "accounts_add_key og public s =
     (if \<not> ensure_root og then (Err BadOrigin, s)
      else (Ok, s\<lparr>accounts_FragKeys := insert public (accounts_FragKeys s)\<rparr>))"

definition accounts_del_key :: "account_id origin \<Rightarrow> bytes \<Rightarrow> ('b, 'x) accounts_state_scheme
    \<Rightarrow> accounts_error dispatch_error outcome \<times> ('b, 'x) accounts_state_scheme" where
  "accounts_del_key og public s =
     (if \<not> ensure_root og then (Err BadOrigin, s)
      else (Ok, s\<lparr>accounts_FragKeys := accounts_FragKeys s - {public}\<rparr>))"

definition accounts_initialize_keys :: "bytes list \<Rightarrow> ('b, 'x) accounts_state_scheme
    \<Rightarrow> accounts_error dispatch_error outcome \<times> ('b, 'x) accounts_state_scheme" where
  "accounts_initialize_keys keys s =
     (if keys = [] then (Ok, s)
      else if accounts_FragKeys s \<noteq> {} then (Panic, s)
      else (Ok, s\<lparr>accounts_FragKeys := fold insert keys (accounts_FragKeys s)\<rparr>))"

datatype accounts_call =
    Accounts_Add_key bytes | Accounts_Del_key bytes | Link bytes | Unlink h160
  | Internal_lock_update eth_lock_update bytes | Sponsor_account external_id

definition accounts_validate_unsigned :: "('b, 'y) accounts_ext_scheme \<Rightarrow> transaction_source
    \<Rightarrow> accounts_call \<Rightarrow> ('b, 'x) accounts_state_scheme
    \<Rightarrow> (multi_signer \<times> u256 \<times> h160 \<times> bytes \<times> bool \<times> u64 \<times> bytes) validity" where
  "accounts_validate_unsigned E source c s =
     (case c of
        Internal_lock_update d sig \<Rightarrow>
          (if source = External then Invalid Invalid_Call
           else
             (case decode_multi_signer E (encode_public E (elu_public d)) of
                Some (Ed25519 pub_key) \<Rightarrow>
                  (if pub_key \<notin> accounts_FragKeys s then Invalid Invalid_BadSigner
                   else if \<not> verify_lock E d sig then Invalid Invalid_BadProof
                   else Valid ''FragLockUpdate''
                     (elu_public d, elu_amount d, elu_sender d, elu_signature d, elu_lock d,
                      elu_block_number d, pub_key) False)
              | _ \<Rightarrow> Invalid Invalid_BadSigner))
      | _ \<Rightarrow> Invalid Invalid_Call)"

section \<open>The link table\<close>

text \<open>
  The interface of the link table: two maps that are inverse to each other, so that every
  account on either side has at most one partner.
\<close>

locale paired_maps =
  fixes fwd :: "'s \<Rightarrow> 'a \<Rightarrow> 'k option"
    and bwd :: "'s \<Rightarrow> 'k \<Rightarrow> 'a option"
    and inv :: "'s \<Rightarrow> bool"
  assumes paired: "inv s \<Longrightarrow> fwd s a = Some k \<longleftrightarrow> bwd s k = Some a"
begin

lemma fwd_bwd: "inv s \<Longrightarrow> fwd s a = Some k \<Longrightarrow> bwd s k = Some a"
  by (simp add: paired)

lemma fwd_inj: "inv s \<Longrightarrow> fwd s a = Some k \<Longrightarrow> fwd s b = Some k \<Longrightarrow> a = b"
  by (simp add: paired)

lemma bwd_inj: "inv s \<Longrightarrow> bwd s k = Some a \<Longrightarrow> bwd s l = Some a \<Longrightarrow> k = l"
  by (simp flip: paired)

lemma dom_bwd: "inv s \<Longrightarrow> dom (bwd s) = ran (fwd s)"
  by (auto simp: dom_def ran_def paired)

end

definition links_inv :: "('b, 'x) accounts_state_scheme \<Rightarrow> bool" where
  "links_inv s \<longleftrightarrow> (\<forall>a k. EVMLinks s a = Some k \<longleftrightarrow> EVMLinksReverse s k = Some a)"

text \<open>A usage counter exists for linked accounts only.\<close>

definition usage_inv :: "('b, 'x) accounts_state_scheme \<Rightarrow> bool" where
  "usage_inv s \<longleftrightarrow> dom (FragUsage s) \<subseteq> dom (EVMLinks s)"

definition accounts_inv :: "('b, 'x) accounts_state_scheme \<Rightarrow> bool" where
  "accounts_inv s \<longleftrightarrow> links_inv s \<and> usage_inv s"

lemma accounts_invI:
  assumes "\<And>a k. EVMLinks s a = Some k \<longleftrightarrow> EVMLinksReverse s k = Some a"
    and "\<And>a u. FragUsage s a = Some u \<Longrightarrow> EVMLinks s a \<noteq> None"
  shows "accounts_inv s"
  using assms by (auto simp: accounts_inv_def links_inv_def usage_inv_def)

lemma accounts_inv_links: "accounts_inv s \<Longrightarrow> EVMLinks s a = Some k \<longleftrightarrow> EVMLinksReverse s k = Some a"
  by (simp add: accounts_inv_def links_inv_def)

lemma accounts_inv_usage: "accounts_inv s \<Longrightarrow> FragUsage s a = Some u \<Longrightarrow> \<exists>k. EVMLinks s a = Some k"
  by (auto simp: accounts_inv_def usage_inv_def dom_def)

interpretation evm_links: paired_maps EVMLinks EVMLinksReverse accounts_inv
  by unfold_locales (rule accounts_inv_links)

text \<open>The invariant only reads the links and the usage: no other field matters.\<close>

lemma accounts_inv_frame [simp]:
  "accounts_inv (block_number_update f1 s) = accounts_inv s"
  "accounts_inv (extrinsic_index_update f2 s) = accounts_inv s"
  "accounts_inv (now_update f3 s) = accounts_inv s"
  "accounts_inv (balances_update f4 s) = accounts_inv s"
  "accounts_inv (indexed_update f5 s) = accounts_inv s"
  "accounts_inv (DetachRequests_update f6 s) = accounts_inv s"
  "accounts_inv (DetachNonces_update f7 s) = accounts_inv s"
  "accounts_inv (DetachedHashes_update f8 s) = accounts_inv s"
  "accounts_inv (EthereumAuthorities_update f9 s) = accounts_inv s"
  "accounts_inv (detach_FragKeys_update f9 s) = accounts_inv s"
  "accounts_inv (detach_events_update f10 s) = accounts_inv s"
  "accounts_inv (offchain_requests_update f11 s) = accounts_inv s"
  "accounts_inv (EthLockedFrag_update f12 s) = accounts_inv s"
  "accounts_inv (EVMLinkVoting_update f13 s) = accounts_inv s"
  "accounts_inv (EVMLinkVotingClosed_update f14 s) = accounts_inv s"
  "accounts_inv (PendingUnlinks_update f15 s) = accounts_inv s"
  "accounts_inv (accounts_FragKeys_update f16 s) = accounts_inv s"
  "accounts_inv (ExternalID2Account_update f17 s) = accounts_inv s"
  "accounts_inv (Proxies_update f18 s) = accounts_inv s"
  "accounts_inv (accounts_events_update f19 s) = accounts_inv s"
  by (simp_all add: accounts_inv_def links_inv_def usage_inv_def)

lemma accounts_inv_new_link:
  assumes "accounts_inv s" and "EVMLinks s a = None" and "EVMLinksReverse s k = None"
  shows "accounts_inv (s\<lparr>EVMLinks := (EVMLinks s)(a \<mapsto> k),
           EVMLinksReverse := (EVMLinksReverse s)(k \<mapsto> a), FragUsage := (FragUsage s)(a \<mapsto> u)\<rparr>)"
proof (rule accounts_invI)
  fix b l
  show "EVMLinks (s\<lparr>EVMLinks := (EVMLinks s)(a \<mapsto> k), EVMLinksReverse := (EVMLinksReverse s)(k \<mapsto> a),
          FragUsage := (FragUsage s)(a \<mapsto> u)\<rparr>) b = Some l \<longleftrightarrow>
        EVMLinksReverse (s\<lparr>EVMLinks := (EVMLinks s)(a \<mapsto> k), EVMLinksReverse := (EVMLinksReverse s)(k \<mapsto> a),
          FragUsage := (FragUsage s)(a \<mapsto> u)\<rparr>) l = Some b"
    using assms(2,3) accounts_inv_links [OF assms(1), of b l] accounts_inv_links [OF assms(1), of a l]
    by auto
qed (use assms(1) in \<open>auto dest: accounts_inv_usage split: if_splits\<close>)

lemma accounts_inv_drop_link:
  assumes "accounts_inv s" and "EVMLinks s a = Some k"
  shows "accounts_inv (s\<lparr>EVMLinks := (EVMLinks s)(a := None),
           EVMLinksReverse := (EVMLinksReverse s)(k := None), FragUsage := (FragUsage s)(a := None)\<rparr>)"
proof (rule accounts_invI)
  fix b l
  show "EVMLinks (s\<lparr>EVMLinks := (EVMLinks s)(a := None), EVMLinksReverse := (EVMLinksReverse s)(k := None),
          FragUsage := (FragUsage s)(a := None)\<rparr>) b = Some l \<longleftrightarrow>
        EVMLinksReverse (s\<lparr>EVMLinks := (EVMLinks s)(a := None), EVMLinksReverse := (EVMLinksReverse s)(k := None),
          FragUsage := (FragUsage s)(a := None)\<rparr>) l = Some b"
    using assms(2) accounts_inv_links [OF assms(1), of b l] accounts_inv_links [OF assms(1), of a l]
      accounts_inv_links [OF assms(1), of b k]
    by auto
qed (use assms(1) in \<open>auto dest: accounts_inv_usage split: if_splits\<close>)

lemma accounts_inv_drop_usage:
  assumes "accounts_inv s" shows "accounts_inv (s\<lparr>FragUsage := (FragUsage s)(a := None)\<rparr>)"
  using assms by (auto simp: accounts_inv_def links_inv_def usage_inv_def)

lemma accounts_inv_link: "accounts_inv s \<Longrightarrow> accounts_inv (snd (link C E og sig s))"
  using accounts_inv_new_link by (fastforce simp: link_def split: option.splits)

lemma accounts_inv_unlink_account: "accounts_inv s \<Longrightarrow> accounts_inv (snd (unlink_account a k s))"
  using accounts_inv_drop_link by (fastforce simp: unlink_account_def split: option.splits)

lemma accounts_inv_unlink: "accounts_inv s \<Longrightarrow> accounts_inv (snd (unlink og k s))"
  by (auto simp: unlink_def accounts_inv_unlink_account split: option.splits)

lemma accounts_inv_count_vote [simp]: "accounts_inv (snd (count_vote t h s)) = accounts_inv s"
  by (auto simp: count_vote_def split: option.splits)

lemma accounts_inv_apply_lock: "accounts_inv s \<Longrightarrow> accounts_inv (apply_lock k amount s)"
  by (auto simp: apply_lock_def Let_def accounts_inv_drop_usage split: option.splits)

text \<open>Under the invariant the unlinking that an unlock asks for cannot fail.\<close>

lemma unlink_account_linked:
  assumes "accounts_inv s" and "EVMLinksReverse s k = Some a"
  shows "fst (unlink_account a k s) = Ok"
  using assms accounts_inv_links [OF assms(1), of a k] by (simp add: unlink_account_def)

lemma apply_unlock_ok: "accounts_inv s \<Longrightarrow> fst (apply_unlock k amount s) = Ok"
  using unlink_account_linked [of s k]
  by (auto simp: apply_unlock_def split: option.splits prod.splits outcome.splits)

lemma accounts_inv_apply_unlock:
  assumes "accounts_inv s" shows "accounts_inv (snd (apply_unlock k amount s))"
proof -
  have "accounts_inv t" if "unlink_account a k s = (r, t)" for a r t
    using accounts_inv_unlink_account [OF assms, of a k] that by simp
  then show ?thesis
    using assms by (auto simp: apply_unlock_def split: option.splits prod.splits outcome.splits)
qed

lemma accounts_inv_settle_lock:
  assumes "accounts_inv s" shows "accounts_inv (snd (settle_lock d h amount s))"
  using accounts_inv_apply_lock [OF assms, of "elu_sender d" amount]
    accounts_inv_apply_unlock [OF assms, of "elu_sender d" amount]
  by (auto simp: settle_lock_def split: prod.splits outcome.splits)

lemma accounts_inv_internal_lock_update:
  assumes "accounts_inv s" shows "accounts_inv (snd (internal_lock_update C E og d sig s))"
proof -
  have "accounts_inv s1" if "count_vote t h s = (b, s1)" for t h b s1
    using that assms accounts_inv_count_vote [of t h s] by simp
  then show ?thesis
    using assms
    by (auto simp: internal_lock_update_def Let_def accounts_inv_settle_lock
        split: option.splits prod.splits bool.splits)
qed

lemma accounts_inv_sponsor_account: "accounts_inv s \<Longrightarrow> accounts_inv (snd (sponsor_account C E og x s))"
  by (auto simp: sponsor_account_def Let_def split: option.splits)

lemma accounts_inv_keys:
  "accounts_inv s \<Longrightarrow> accounts_inv (snd (accounts_add_key og public s))"
  "accounts_inv s \<Longrightarrow> accounts_inv (snd (accounts_del_key og public s))"
  "accounts_inv s \<Longrightarrow> accounts_inv (snd (accounts_initialize_keys keys s))"
  by (auto simp: accounts_add_key_def accounts_del_key_def accounts_initialize_keys_def)

section \<open>Failing calls\<close>

interpretation link: checked_call "link C E og sig" for C E og sig
  by unfold_locales (auto simp: link_def split: option.splits if_splits)

interpretation unlink_account: checked_call "unlink_account a k" for a k
  by unfold_locales (auto simp: unlink_account_def split: option.splits if_splits)

interpretation unlink: checked_call "unlink og k" for og k
  by unfold_locales
    (auto simp: unlink_def dest: unlink_account.failure_keeps_state split: option.splits)

interpretation sponsor_account: checked_call "sponsor_account C E og x" for C E og x
  by unfold_locales (auto simp: sponsor_account_def Let_def split: option.splits if_splits)

interpretation accounts_add_key: checked_call "accounts_add_key og public" for og public
  by unfold_locales (auto simp: accounts_add_key_def split: if_splits)

interpretation accounts_del_key: checked_call "accounts_del_key og public" for og public
  by unfold_locales (auto simp: accounts_del_key_def split: if_splits)

text \<open>
  The calls of the pallet as one function, as \<open>#[pallet::call]\<close> dispatches them.
\<close>

fun accounts_dispatch :: "'z config_scheme \<Rightarrow> ('b, 'y) accounts_ext_scheme \<Rightarrow> account_id origin
    \<Rightarrow> accounts_call \<Rightarrow> ('b, 'x) accounts_state_scheme
    \<Rightarrow> accounts_error dispatch_error outcome \<times> ('b, 'x) accounts_state_scheme" where
  "accounts_dispatch C E og (Accounts_Add_key p) s = accounts_add_key og p s"
| "accounts_dispatch C E og (Accounts_Del_key p) s = accounts_del_key og p s"
| "accounts_dispatch C E og (Link sig) s = link C E og sig s"
| "accounts_dispatch C E og (Unlink k) s = unlink og k s"
| "accounts_dispatch C E og (Internal_lock_update d sig) s = internal_lock_update C E og d sig s"
| "accounts_dispatch C E og (Sponsor_account x) s = sponsor_account C E og x s"

fun accounts_run :: "'z config_scheme \<Rightarrow> ('b, 'y) accounts_ext_scheme
    \<Rightarrow> (account_id origin \<times> accounts_call) list \<Rightarrow> ('b, 'x) accounts_state_scheme
    \<Rightarrow> ('b, 'x) accounts_state_scheme" where
  "accounts_run C E [] s = s"
| "accounts_run C E ((og, c) # cs) s = accounts_run C E cs (snd (accounts_dispatch C E og c s))"

lemma accounts_inv_dispatch: "accounts_inv s \<Longrightarrow> accounts_inv (snd (accounts_dispatch C E og c s))"
  by (cases c) (simp_all add: accounts_inv_keys accounts_inv_link accounts_inv_unlink
      accounts_inv_internal_lock_update accounts_inv_sponsor_account)

lemma accounts_inv_run: "accounts_inv s \<Longrightarrow> accounts_inv (accounts_run C E cs s)"
  by (induction cs arbitrary: s) (auto simp: accounts_inv_dispatch)

text \<open>
  \<open>internal_lock_update\<close> removes the vote counter before it unlinks, but the unlinking
  cannot fail in a state with consistent links.
\<close>

lemma settle_lock_ok: "accounts_inv s \<Longrightarrow> fst (settle_lock d h amount s) = Ok"
  using apply_unlock_ok [of s "elu_sender d" amount]
  by (auto simp: settle_lock_def split: prod.splits outcome.splits)

lemma internal_lock_update_failure:
  assumes "accounts_inv s" and "internal_lock_update C E og d sig s = (r, t)" and "r \<noteq> Ok"
  shows "t = s"
proof -
  have "r' = Ok" if "count_vote tr h s = (b, s1)" and "settle_lock d h amount s1 = (r', t')"
    for tr h b s1 amount r' t'
    using that assms(1) accounts_inv_count_vote [of tr h s] settle_lock_ok [of s1 d h amount] by simp
  then show ?thesis
    using assms(2,3)
    by (auto simp: internal_lock_update_def Let_def split: option.splits prod.splits bool.splits if_splits)
qed

lemma accounts_dispatch_failure:
  assumes "accounts_inv s" and "fst (accounts_dispatch C E og c s) \<noteq> Ok"
  shows "snd (accounts_dispatch C E og c s) = s"
  using assms internal_lock_update_failure [OF assms(1) prod.collapse [symmetric]]
  by (cases c) (auto simp: accounts_add_key.failed_call
      accounts_del_key.failed_call link.failed_call unlink.failed_call
      sponsor_account.failed_call)

section \<open>Votes\<close>

text \<open>The checks an event passes before its vote is counted.\<close>

definition lock_event_valid :: "'z config_scheme \<Rightarrow> ('b, 'y) accounts_ext_scheme \<Rightarrow> eth_lock_update \<Rightarrow> bool" where
  "lock_event_valid C E d \<longleftrightarrow>
     recover_address E (elu_signature d) (lock_message_hash C E d) = Some (elu_sender d)
     \<and> unat (elu_amount d) < 2 ^ 128
     \<and> (elu_lock d \<longleftrightarrow> (ucast (elu_amount d) :: balance) \<noteq> 0)"

lemma internal_lock_update_valid:
  assumes "lock_event_valid C E d" and "EVMLinkVotingClosed s (lock_data_hash E d) = None"
  shows "internal_lock_update C E NoOrigin d sig s =
     (case count_vote (Threshold C) (lock_data_hash E d) s of
        (False, s1) \<Rightarrow> (Ok, s1)
      | (True, s1) \<Rightarrow> settle_lock d (lock_data_hash E d) (ucast (elu_amount d)) s1)"
  using assms
  by (auto simp: internal_lock_update_def Let_def lock_event_valid_def word_gt_0)

text \<open>The voter is not part of the event: any key may cast the vote, also one that has voted.\<close>

definition voted_by :: "multi_signer \<Rightarrow> eth_lock_update \<Rightarrow> eth_lock_update" where
  "voted_by p d = d\<lparr>elu_public := p\<rparr>"

lemma voted_by_simps [simp]:
  "lock_data_hash E (voted_by p d) = lock_data_hash E d"
  "lock_event_valid C E (voted_by p d) = lock_event_valid C E d"
  "settle_lock (voted_by p d) h amount s = settle_lock d h amount s"
  "elu_amount (voted_by p d) = elu_amount d"
  by (simp_all add: voted_by_def lock_data_hash_def lock_event_valid_def lock_message_hash_def
      settle_lock_def Let_def split: prod.split outcome.split)

fun submit_votes :: "'z config_scheme \<Rightarrow> ('b, 'y) accounts_ext_scheme \<Rightarrow> eth_lock_update
    \<Rightarrow> (multi_signer \<times> bytes) list \<Rightarrow> ('b, 'x) accounts_state_scheme
    \<Rightarrow> ('b, 'x) accounts_state_scheme" where
  "submit_votes C E d [] s = s"
| "submit_votes C E d ((p, sig) # vs) s =
     submit_votes C E d vs (snd (internal_lock_update C E NoOrigin (voted_by p d) sig s))"

lemma submit_votes_append:
  "submit_votes C E d (us @ vs) s = submit_votes C E d vs (submit_votes C E d us s)"
  by (induction us arbitrary: s) auto

text \<open>\<open>n\<close> votes that do not reach the threshold leave the counter at \<open>n\<close> and nothing else.\<close>

definition with_votes :: "hash256 \<Rightarrow> nat \<Rightarrow> ('b, 'x) accounts_state_scheme \<Rightarrow> ('b, 'x) accounts_state_scheme" where
  "with_votes h n s =
     (if n = 0 then s else s\<lparr>EVMLinkVoting := (EVMLinkVoting s)(h \<mapsto> of_nat n)\<rparr>)"

lemma count_vote_with_votes:
  assumes "EVMLinkVoting s h = None" and "1 < t" and "Suc n < unat t"
  shows "count_vote t h (with_votes h n s) = (False, with_votes h (Suc n) s)"
  using assms of_nat_plus_1_less [OF assms(3)]
  by (auto simp: count_vote_def with_votes_def add.commute)

lemma count_vote_last:
  assumes "EVMLinkVoting s h = None" and "1 < t" and "Suc n = unat t"
  shows "count_vote t h (with_votes h n s) = (True, s)"
proof -
  have n: "n \<noteq> 0" using assms(2,3) by (auto simp: word_less_nat_alt)
  have s: "s\<lparr>EVMLinkVoting := (EVMLinkVoting s)(h := None)\<rparr> = s"
    using assms(1) by (simp add: fun_upd_idem)
  show ?thesis
    using assms(2) n s of_nat_plus_1_eq [OF assms(3)] by (simp add: count_vote_def with_votes_def)
qed

lemma submit_votes_below:
  assumes "lock_event_valid C E d" and "EVMLinkVotingClosed s (lock_data_hash E d) = None"
    and "EVMLinkVoting s (lock_data_hash E d) = None" and "1 < Threshold C"
    and "length vs < unat (Threshold C)"
  shows "submit_votes C E d vs s = with_votes (lock_data_hash E d) (length vs) s"
  using assms(5)
proof (induction vs rule: rev_induct)
  case Nil
  show ?case by (simp add: with_votes_def)
next
  case (snoc v vs)
  obtain p sig where v: "v = (p, sig)" by (cases v)
  let ?h = "lock_data_hash E d" and ?s = "with_votes (lock_data_hash E d) (length vs) s"
  have closed: "EVMLinkVotingClosed ?s ?h = None" using assms(2) by (simp add: with_votes_def)
  have "internal_lock_update C E NoOrigin (voted_by p d) sig ?s = (Ok, with_votes ?h (Suc (length vs)) s)"
    using internal_lock_update_valid [of C E "voted_by p d" ?s sig] assms(1,3,4) closed snoc.prems
      count_vote_with_votes [of s ?h "Threshold C" "length vs"]
    by simp
  then show ?case using snoc by (simp add: submit_votes_append v)
qed

lemma submit_votes_reach:
  assumes "lock_event_valid C E d" and "EVMLinkVotingClosed s (lock_data_hash E d) = None"
    and "EVMLinkVoting s (lock_data_hash E d) = None" and "1 < Threshold C"
    and "length vs = unat (Threshold C)"
  shows "submit_votes C E d vs s =
    snd (settle_lock d (lock_data_hash E d) (ucast (elu_amount d)) s)"
proof -
  have "vs \<noteq> []" using assms(4,5) by (auto simp: word_less_nat_alt)
  then obtain us p sig where vs: "vs = us @ [(p, sig)]" by (metis append_butlast_last_id surj_pair)
  let ?h = "lock_data_hash E d" and ?s = "with_votes (lock_data_hash E d) (length us) s"
  have closed: "EVMLinkVotingClosed ?s ?h = None" using assms(2) by (simp add: with_votes_def)
  have "submit_votes C E d us s = ?s"
    using assms vs by (intro submit_votes_below) auto
  moreover have "count_vote (Threshold C) ?h ?s = (True, s)"
    using assms(3,4,5) vs by (intro count_vote_last) auto
  then have "internal_lock_update C E NoOrigin (voted_by p d) sig ?s =
      settle_lock d ?h (ucast (elu_amount d)) s"
    using internal_lock_update_valid [of C E "voted_by p d" ?s sig] assms(1) closed by simp
  ultimately show ?thesis by (simp add: vs submit_votes_append)
qed

lemma settle_lock_records:
  assumes "settle_lock d h amount s = (Ok, t)"
  shows "EthLockedFrag t =
      (EthLockedFrag s)(elu_sender d \<mapsto> \<lparr>lock_amount = amount, lock_block_number = block_number s\<rparr>)"
    and "EVMLinkVotingClosed t = (EVMLinkVotingClosed s)(h \<mapsto> block_number s)"
  using assms
  by (auto simp: settle_lock_def apply_lock_def apply_unlock_def unlink_account_def Let_def
      split: option.splits prod.splits outcome.splits if_splits)

section \<open>A settled event stays settled\<close>

text \<open>The three ways a lock update ends: refused, counted, or settled.\<close>

lemma internal_lock_update_cases:
  assumes "internal_lock_update C E og d sig s = (r, t)"
  obtains (refused) "r \<noteq> Ok" and "t = s"
  | (counted) "r = Ok" and "count_vote (Threshold C) (lock_data_hash E d) s = (False, t)"
      and "lock_event_valid C E d" and "EVMLinkVotingClosed s (lock_data_hash E d) = None"
  | (settled) s1 where "count_vote (Threshold C) (lock_data_hash E d) s = (True, s1)"
      and "settle_lock d (lock_data_hash E d) (ucast (elu_amount d)) s1 = (r, t)"
      and "lock_event_valid C E d" and "EVMLinkVotingClosed s (lock_data_hash E d) = None"
  using assms
  by (auto simp: internal_lock_update_def Let_def lock_event_valid_def word_gt_0
      split: option.splits prod.splits bool.splits if_splits)

lemma count_vote_closed:
  "count_vote tr h s = (b, t) \<Longrightarrow> EVMLinkVotingClosed t = EVMLinkVotingClosed s"
  by (auto simp: count_vote_def split: option.splits if_splits)

lemma apply_lock_closed [simp]: "EVMLinkVotingClosed (apply_lock k amount s) = EVMLinkVotingClosed s"
  by (simp add: apply_lock_def Let_def split: option.split)

lemma apply_unlock_closed:
  "apply_unlock k amount s = (r, t) \<Longrightarrow> EVMLinkVotingClosed t = EVMLinkVotingClosed s"
  by (auto simp: apply_unlock_def unlink_account_def
      split: option.splits prod.splits outcome.splits if_splits)

lemma settle_lock_closed:
  "settle_lock d h amount s = (r, t) \<Longrightarrow> k \<noteq> h \<Longrightarrow> EVMLinkVotingClosed t k = EVMLinkVotingClosed s k"
  by (auto simp: settle_lock_def dest: apply_unlock_closed split: if_splits prod.splits outcome.splits)

lemma internal_lock_update_closed:
  assumes "internal_lock_update C E og d sig s = (r, t)" and "EVMLinkVotingClosed s k \<noteq> None"
  shows "EVMLinkVotingClosed t k = EVMLinkVotingClosed s k"
  using assms(1)
proof (cases rule: internal_lock_update_cases)
  case (settled s1)
  with assms(2) have "k \<noteq> lock_data_hash E d" by auto
  with settled show ?thesis by (metis count_vote_closed settle_lock_closed)
qed (auto simp: count_vote_closed)

lemma accounts_dispatch_closed:
  assumes "EVMLinkVotingClosed s k \<noteq> None"
  shows "EVMLinkVotingClosed (snd (accounts_dispatch C E og c s)) k = EVMLinkVotingClosed s k"
  using assms internal_lock_update_closed [OF prod.collapse [symmetric] assms]
  by (cases c) (auto simp: accounts_add_key_def accounts_del_key_def link_def unlink_def
      unlink_account_def sponsor_account_def Let_def split: option.split)

lemma accounts_run_closed:
  "EVMLinkVotingClosed s k \<noteq> None \<Longrightarrow> EVMLinkVotingClosed (accounts_run C E cs s) k = EVMLinkVotingClosed s k"
  by (induction cs arbitrary: s) (auto simp: accounts_dispatch_closed)

text \<open>A sponsored account keeps its entry in \<open>Proxies\<close>.\<close>

lemma proxies_grow:
  "Proxies s a \<noteq> None \<Longrightarrow> Proxies (snd (accounts_dispatch C E og c s)) a = Proxies s a"
proof (cases c)
  case (Internal_lock_update d sig)
  have "Proxies t = Proxies s1" if "settle_lock d h amount s1 = (r, t)" for h amount r t and s1 :: "('a, 'b) accounts_state_scheme"
    using that
    by (auto simp: settle_lock_def apply_lock_def apply_unlock_def unlink_account_def Let_def
        split: option.splits prod.splits outcome.splits if_splits)
  moreover have "Proxies t = Proxies s" if "count_vote tr h s = (b, t)" for tr h b t
    using that by (auto simp: count_vote_def split: option.splits if_splits)
  moreover obtain r t where "internal_lock_update C E og d sig s = (r, t)" by fastforce
  ultimately show ?thesis
    by (auto simp: Internal_lock_update elim!: internal_lock_update_cases)
qed (auto simp: accounts_add_key_def accounts_del_key_def link_def unlink_def
      unlink_account_def sponsor_account_def Let_def split: option.split)

lemma proxies_grow_run:
  "Proxies s a \<noteq> None \<Longrightarrow> Proxies (accounts_run C E cs s) a = Proxies s a"
  by (induction cs arbitrary: s) (auto simp: proxies_grow)

end
