(* ===== verification/Protos.thy ===== *)
theory Protos
  imports Accounts
begin

text \<open>
  The pallet \<open>pallets/protos/src/lib.rs\<close>: the Proto-Fragments, their tags and metadata, the
  indices by owner and by category, the FRAG staked on them, and the calls on them. The
  query \<open>get_protos\<close> is in \<open>Protos_Query\<close>.
\<close>

section \<open>Data\<close>

text \<open>
  The category of a Proto-Fragment is a type of the crate \<open>protos\<close>, which is not part of the
  repository: a type parameter \<open>'c\<close>.
\<close>

datatype link_source = Evm bytes u64 u256

datatype linked_asset = Erc721 h160 u256 link_source

datatype proto_owner = User account_id | ExternalAsset linked_asset

record 'c get_protos_params =
  gp_desc :: bool
  gp_from :: u64
  gp_limit :: u64
  gp_metadata_keys :: "bytes list"
  gp_owner :: "account_id option"
  gp_return_owners :: bool
  gp_categories :: "'c list"
  gp_tags :: "bytes list"
  gp_available :: "bool option"

record proto_patch =
  patch_block :: block_num
  patch_data_hash :: hash256
  patch_references :: "hash256 list"

record accounts_info =
  active_accounts :: u128
  lifetime_accounts :: u128

record 'c proto =
  proto_block :: block_num
  proto_patches :: "proto_patch list"
  proto_include_cost :: "u64 option"
  proto_creator :: account_id
  proto_owned_by :: proto_owner
  proto_references :: "hash256 list"
  proto_category :: 'c
  proto_tags :: "u64 list"
  proto_metadata :: "u64 \<rightharpoonup> hash256"
  proto_accounts_info :: accounts_info

datatype protos_event =
    Protos_Uploaded hash256 bytes
  | Protos_Patched hash256 bytes
  | Protos_MetadataChanged hash256 bytes
  | Protos_Detached hash256 bytes
  | Protos_Transferred hash256 account_id
  | Staked hash256 account_id balance
  | Unstaked hash256 account_id balance

datatype protos_error =
    Protos_SystematicFailure | ProtoNotFound | ProtoExists | Protos_Detached_Error
  | Protos_Unauthorized | NotEnoughStaked | StakeNotFound | ReferenceNotFound
  | Protos_InsufficientBalance | StakeLocked | NoFragLink

record ('b, 'c) protos_state = "'b accounts_state" +
  Tags :: "bytes \<rightharpoonup> u64"
  TagsIndex :: u64
  MetaKeys :: "bytes \<rightharpoonup> u64"
  MetaKeysIndex :: u64
  Protos :: "hash256 \<rightharpoonup> 'c proto"
  ProtosByCategory :: "'c \<rightharpoonup> hash256 list"
  ProtosByOwner :: "proto_owner \<rightharpoonup> hash256 list"
  ProtoStakes :: "hash256 \<times> account_id \<rightharpoonup> balance \<times> block_num"
  AccountStakes :: "account_id \<rightharpoonup> hash256 list"
  protos_events :: "protos_event list"

record protos_config = config +
  StorageBytesMultiplier :: u64
  StakeLockupPeriod :: u64

section \<open>Tags and metadata keys\<close>

text \<open>
  A key is stored once, with the next number; \<open>+ 1\<close> wraps. The table and its counter are
  \<open>Tags\<close> and \<open>TagsIndex\<close>, or \<open>MetaKeys\<close> and \<open>MetaKeysIndex\<close>: the code is the same.
\<close>

definition key_index :: "bytes \<Rightarrow> (bytes \<rightharpoonup> u64) \<times> u64 \<Rightarrow> u64 \<times> (bytes \<rightharpoonup> u64) \<times> u64" where
  "key_index key r =
     (case fst r key of
        Some i \<Rightarrow> (i, r)
      | None \<Rightarrow> (let next_index = snd r + 1
                 in (next_index, (fst r)(key \<mapsto> next_index), next_index)))"

fun tag_indices :: "bytes list \<Rightarrow> (bytes \<rightharpoonup> u64) \<times> u64 \<Rightarrow> u64 list \<times> (bytes \<rightharpoonup> u64) \<times> u64" where
  "tag_indices [] r = ([], r)"
| "tag_indices (tag # tags) r =
     (case key_index tag r of (i, r1) \<Rightarrow> (case tag_indices tags r1 of (is, r2) \<Rightarrow> (i # is, r2)))"

section \<open>The staking requirement\<close>

text \<open>The references a Proto-Fragment may include; the first offending one decides the error.\<close>

fun check_staking_req :: "('b, 'c, 'x) protos_state_scheme \<Rightarrow> hash256 list \<Rightarrow> account_id
    \<Rightarrow> protos_error dispatch_error outcome" where
  "check_staking_req s [] who = Ok"
| "check_staking_req s (reference # references) who =
     (case Protos s reference of
        None \<Rightarrow> Err (Module ReferenceNotFound)
      | Some proto \<Rightarrow>
          (if (case proto_owned_by proto of User owner \<Rightarrow> owner = who | _ \<Rightarrow> False)
           then check_staking_req s references who
           else (case proto_include_cost proto of
                   None \<Rightarrow> Err (Module Protos_Unauthorized)
                 | Some cost \<Rightarrow>
                     (if cost = 0 then check_staking_req s references who
                      else (case ProtoStakes s (reference, who) of
                              None \<Rightarrow> Err (Module StakeNotFound)
                            | Some stake \<Rightarrow>
                                (if fst stake \<ge> ucast cost then check_staking_req s references who
                                 else Err (Module NotEnoughStaked)))))))"

section \<open>Calls\<close>

text \<open>
  The check the calls on an existing Proto-Fragment start with: it exists, the caller is its
  owner, an external asset has none, and it is not detached.
\<close>

definition ensure_owner :: "('b, 'c, 'x) protos_state_scheme \<Rightarrow> hash256 \<Rightarrow> account_id
    \<Rightarrow> protos_error dispatch_error outcome" where
  "ensure_owner s proto_hash who =
     (case Protos s proto_hash of
        None \<Rightarrow> Err (Module ProtoNotFound)
      | Some proto \<Rightarrow>
          (case proto_owned_by proto of
             User owner \<Rightarrow>
               (if owner \<noteq> who then Err (Module Protos_Unauthorized)
                else if DetachedHashes s proto_hash \<noteq> None then Err (Module Protos_Detached_Error)
                else Ok)
           | ExternalAsset _ \<Rightarrow> Err (Module Protos_Unauthorized)))"

definition upload :: "('b, 'y) ext_scheme \<Rightarrow> account_id origin \<Rightarrow> hash256 list \<Rightarrow> 'c
    \<Rightarrow> bytes list \<Rightarrow> linked_asset option \<Rightarrow> u64 option \<Rightarrow> bytes
    \<Rightarrow> ('b, 'c, 'x) protos_state_scheme
    \<Rightarrow> protos_error dispatch_error outcome \<times> ('b, 'c, 'x) protos_state_scheme" where
  "upload E og references category tags linked_asset include_cost data s =
     (case ensure_signed og of None \<Rightarrow> (Err BadOrigin, s)
      | Some who \<Rightarrow>
     (let proto_hash = blake2_256 E data in
      if Protos s proto_hash \<noteq> None then (Err (Module ProtoExists), s)
      else (case extrinsic_index s of None \<Rightarrow> (Err (Module Protos_SystematicFailure), s)
      | Some ei \<Rightarrow>
     (case check_staking_req s references who of
        Ok \<Rightarrow>
          (let owner = (case linked_asset of Some asset \<Rightarrow> ExternalAsset asset | None \<Rightarrow> User who);
               (tags, m, n) = tag_indices tags (Tags s, TagsIndex s);
               s1 = s\<lparr>Tags := m, TagsIndex := n\<rparr>;
               proto = \<lparr>proto_block = block_number s, proto_patches = [],
                        proto_include_cost = include_cost, proto_creator = who,
                        proto_owned_by = owner, proto_references = references,
                        proto_category = category, proto_tags = tags, proto_metadata = Map.empty,
                        proto_accounts_info = \<lparr>active_accounts = 0, lifetime_accounts = 0\<rparr>\<rparr>;
               s2 = s1\<lparr>Protos := (Protos s1)(proto_hash \<mapsto> proto),
                       ProtosByCategory := storage_append (ProtosByCategory s1) category proto_hash,
                       ProtosByOwner := storage_append (ProtosByOwner s1) owner proto_hash\<rparr>;
               s3 = index_data ei (length data) proto_hash s2
           in (Ok, s3\<lparr>protos_events := protos_events s3
                         @ [Protos_Uploaded proto_hash (cid_of E proto_hash)]\<rparr>))
      | r \<Rightarrow> (r, s)))))"

definition patch :: "('b, 'y) ext_scheme \<Rightarrow> account_id origin \<Rightarrow> hash256 \<Rightarrow> u64 option
    \<Rightarrow> hash256 list \<Rightarrow> bytes list option \<Rightarrow> bytes \<Rightarrow> ('b, 'c, 'x) protos_state_scheme
    \<Rightarrow> protos_error dispatch_error outcome \<times> ('b, 'c, 'x) protos_state_scheme" where
  "patch E og proto_hash include_cost new_references new_tags data s =
     (case ensure_signed og of None \<Rightarrow> (Err BadOrigin, s)
      | Some who \<Rightarrow>
     (case ensure_owner s proto_hash who of
        Ok \<Rightarrow>
     (let data_hash = blake2_256 E data in
      (case extrinsic_index s of None \<Rightarrow> (Err (Module Protos_SystematicFailure), s)
      | Some ei \<Rightarrow>
     (case check_staking_req s new_references who of
        Ok \<Rightarrow>
          (let s1 = (if data = [] then s
                     else index_data ei (length data) data_hash
                       (s\<lparr>Protos := storage_mutate (Protos s) proto_hash (\<lambda>proto.
                            proto\<lparr>proto_patches := proto_patches proto
                              @ [\<lparr>patch_block = block_number s, patch_data_hash = data_hash,
                                  patch_references = new_references\<rparr>]\<rparr>)\<rparr>));
               s2 = s1\<lparr>Protos := storage_mutate (Protos s1) proto_hash
                        (\<lambda>proto. proto\<lparr>proto_include_cost := include_cost\<rparr>)\<rparr>;
               s3 = (case new_tags of None \<Rightarrow> s2
                     | Some new_tags \<Rightarrow>
                         (case tag_indices new_tags (Tags s2, TagsIndex s2) of (tags, m, n) \<Rightarrow>
                            s2\<lparr>Tags := m, TagsIndex := n,
                               Protos := storage_mutate (Protos s2) proto_hash
                                 (\<lambda>proto. proto\<lparr>proto_tags := tags\<rparr>)\<rparr>))
           in (Ok, s3\<lparr>protos_events := protos_events s3
                         @ [Protos_Patched proto_hash (cid_of E data_hash)]\<rparr>))
      | r \<Rightarrow> (r, s))))
      | r \<Rightarrow> (r, s)))"

definition transfer :: "account_id origin \<Rightarrow> hash256 \<Rightarrow> account_id
    \<Rightarrow> ('b, 'c, 'x) protos_state_scheme
    \<Rightarrow> protos_error dispatch_error outcome \<times> ('b, 'c, 'x) protos_state_scheme" where
  "transfer og proto_hash new_owner s =
     (case ensure_signed og of None \<Rightarrow> (Err BadOrigin, s)
      | Some who \<Rightarrow>
     (case ensure_owner s proto_hash who of
        Ok \<Rightarrow>
          (let s1 = s\<lparr>ProtosByOwner := storage_mutate (ProtosByOwner s) (User who) (retain_not proto_hash)\<rparr>;
               s2 = s1\<lparr>ProtosByOwner := storage_append (ProtosByOwner s1) (User new_owner) proto_hash\<rparr>;
               s3 = s2\<lparr>Protos := storage_mutate (Protos s2) proto_hash
                        (\<lambda>proto. proto\<lparr>proto_owned_by := User new_owner\<rparr>)\<rparr>
           in (Ok, s3\<lparr>protos_events := protos_events s3
                         @ [Protos_Transferred proto_hash new_owner]\<rparr>))
      | r \<Rightarrow> (r, s)))"

definition set_metadata :: "('b, 'y) ext_scheme \<Rightarrow> account_id origin \<Rightarrow> hash256 \<Rightarrow> bytes \<Rightarrow> bytes
    \<Rightarrow> ('b, 'c, 'x) protos_state_scheme
    \<Rightarrow> protos_error dispatch_error outcome \<times> ('b, 'c, 'x) protos_state_scheme" where
  "set_metadata E og proto_hash metadata_key data s =
     (case ensure_signed og of None \<Rightarrow> (Err BadOrigin, s)
      | Some who \<Rightarrow>
     (case ensure_owner s proto_hash who of
        Ok \<Rightarrow>
     (let data_hash = blake2_256 E data in
      (case extrinsic_index s of None \<Rightarrow> (Err (Module Protos_SystematicFailure), s)
      | Some ei \<Rightarrow>
          (case key_index metadata_key (MetaKeys s, MetaKeysIndex s) of (index, m, n) \<Rightarrow>
           let s1 = s\<lparr>MetaKeys := m, MetaKeysIndex := n\<rparr>;
               s2 = s1\<lparr>Protos := storage_mutate (Protos s1) proto_hash
                        (\<lambda>proto. proto\<lparr>proto_metadata := (proto_metadata proto)(index \<mapsto> data_hash)\<rparr>)\<rparr>;
               s3 = index_data ei (length data) data_hash s2
           in (Ok, s3\<lparr>protos_events := protos_events s3
                         @ [Protos_MetadataChanged proto_hash metadata_key]\<rparr>))))
      | r \<Rightarrow> (r, s)))"

definition detach :: "account_id origin \<Rightarrow> hash256 \<Rightarrow> supported_chains \<Rightarrow> bytes
    \<Rightarrow> ('b, 'c, 'x) protos_state_scheme
    \<Rightarrow> protos_error dispatch_error outcome \<times> ('b, 'c, 'x) protos_state_scheme" where
  "detach og proto_hash target_chain target_account s =
     (case ensure_signed og of None \<Rightarrow> (Err BadOrigin, s)
      | Some who \<Rightarrow>
     (case ensure_owner s proto_hash who of
        Ok \<Rightarrow>
          (Ok, s\<lparr>DetachRequests := DetachRequests s
                   @ [\<lparr>req_hash = proto_hash, req_target_chain = target_chain,
                       req_target_account = target_account\<rparr>]\<rparr>)
      | r \<Rightarrow> (r, s)))"

section \<open>Staking\<close>

text \<open>
  The stake is taken for the account derived from the caller. The mutations of \<open>FragUsage\<close>
  compute a sum and a difference and drop them, so the stored value stays as it is; the
  subtraction of the balance wraps.
\<close>

definition stake :: "('b, 'y) ext_scheme \<Rightarrow> account_id origin \<Rightarrow> hash256 \<Rightarrow> balance
    \<Rightarrow> ('b, 'c, 'x) protos_state_scheme
    \<Rightarrow> protos_error dispatch_error outcome \<times> ('b, 'c, 'x) protos_state_scheme" where
  "stake E og proto_hash amount s =
     (case ensure_signed og of None \<Rightarrow> (Err BadOrigin, s)
      | Some caller \<Rightarrow>
     (case get_locked_frag_account E caller of
        None \<Rightarrow> (Err (Module Protos_SystematicFailure), s)
      | Some who \<Rightarrow>
     (if Protos s proto_hash = None then (Err (Module ProtoNotFound), s)
      else (case EVMLinks s who of None \<Rightarrow> (Err (Module NoFragLink), s)
      | Some account \<Rightarrow>
     (case EthLockedFrag s account of None \<Rightarrow> (Err (Module NoFragLink), s)
      | Some lock \<Rightarrow>
     (case FragUsage s who of None \<Rightarrow> (Err (Module NoFragLink), s)
      | Some used \<Rightarrow>
     (if \<not> lock_amount lock - used \<ge> amount then (Err (Module Protos_InsufficientBalance), s)
      else
        (let s1 = s\<lparr>FragUsage := storage_mutate (FragUsage s) who
                      (\<lambda>usage. let _ = sat_add usage amount in usage)\<rparr>;
             s2 = s1\<lparr>ProtoStakes := (ProtoStakes s1)((proto_hash, who) \<mapsto> (amount, block_number s)),
                     AccountStakes := storage_append (AccountStakes s1) who proto_hash\<rparr>
         in (Ok, s2\<lparr>protos_events := protos_events s2 @ [Staked proto_hash who amount]\<rparr>)))))))))"

definition unstake :: "'z protos_config_scheme \<Rightarrow> account_id origin \<Rightarrow> hash256
    \<Rightarrow> ('b, 'c, 'x) protos_state_scheme
    \<Rightarrow> protos_error dispatch_error outcome \<times> ('b, 'c, 'x) protos_state_scheme" where
  "unstake C og proto_hash s =
     (case ensure_signed og of None \<Rightarrow> (Err BadOrigin, s)
      | Some who \<Rightarrow>
     (if Protos s proto_hash = None then (Err (Module ProtoNotFound), s)
      else (case ProtoStakes s (proto_hash, who) of None \<Rightarrow> (Err (Module StakeNotFound), s)
      | Some (staked, since) \<Rightarrow>
     (if \<not> block_number s > since + StakeLockupPeriod C then (Err (Module StakeLocked), s)
      else if FragUsage s who = None then (Panic, s)
      else
        (let s1 = s\<lparr>FragUsage := storage_mutate (FragUsage s) who
                      (\<lambda>usage. let _ = sat_sub usage staked in usage)\<rparr>;
             s2 = s1\<lparr>ProtoStakes := (ProtoStakes s1)((proto_hash, who) := None),
                     AccountStakes := storage_mutate (AccountStakes s1) who (retain_not proto_hash)\<rparr>
         in (Ok, s2\<lparr>protos_events := protos_events s2 @ [Unstaked proto_hash who staked]\<rparr>))))))"

section \<open>Hook\<close>

text \<open>
  At the end of a block the stakes of the accounts queued in \<open>PendingUnlinks\<close> are dropped.
\<close>

definition drop_stakes :: "account_id \<Rightarrow> ('b, 'c, 'x) protos_state_scheme \<Rightarrow> ('b, 'c, 'x) protos_state_scheme" where
  "drop_stakes who s =
     (let stakes = AccountStakes s who; s1 = s\<lparr>AccountStakes := (AccountStakes s)(who := None)\<rparr>
      in case stakes of None \<Rightarrow> s1
         | Some stakes \<Rightarrow>
             s1\<lparr>ProtoStakes := fold (\<lambda>hash m. m((hash, who) := None)) stakes (ProtoStakes s1)\<rparr>)"

definition protos_on_finalize :: "('b, 'c, 'x) protos_state_scheme \<Rightarrow> ('b, 'c, 'x) protos_state_scheme" where
  "protos_on_finalize s = fold drop_stakes (PendingUnlinks s) (s\<lparr>PendingUnlinks := []\<rparr>)"

datatype 'c protos_call =
    Upload "hash256 list" 'c "bytes list" "linked_asset option" "u64 option" bytes
  | Patch hash256 "u64 option" "hash256 list" "bytes list option" bytes
  | Transfer hash256 account_id
  | Set_metadata hash256 bytes bytes
  | Detach hash256 supported_chains bytes
  | Stake hash256 balance
  | Unstake hash256

fun protos_dispatch :: "'z protos_config_scheme \<Rightarrow> ('b, 'y) ext_scheme \<Rightarrow> account_id origin
    \<Rightarrow> 'c protos_call \<Rightarrow> ('b, 'c, 'x) protos_state_scheme
    \<Rightarrow> protos_error dispatch_error outcome \<times> ('b, 'c, 'x) protos_state_scheme" where
  "protos_dispatch C E og (Upload refs c tags asset cost data) s = upload E og refs c tags asset cost data s"
| "protos_dispatch C E og (Patch h cost refs tags data) s = patch E og h cost refs tags data s"
| "protos_dispatch C E og (Transfer h a) s = transfer og h a s"
| "protos_dispatch C E og (Set_metadata h key data) s = set_metadata E og h key data s"
| "protos_dispatch C E og (Detach h chain a) s = detach og h chain a s"
| "protos_dispatch C E og (Stake h amount) s = stake E og h amount s"
| "protos_dispatch C E og (Unstake h) s = unstake C og h s"

section \<open>Filtering\<close>

definition filter_proto :: "('b, 'c, 'x) protos_state_scheme \<Rightarrow> hash256 \<Rightarrow> bytes list \<Rightarrow> 'c list
    \<Rightarrow> bool option \<Rightarrow> bool" where
  "filter_proto s proto_id tags categories avail =
     (case Protos s proto_id of None \<Rightarrow> False
      | Some proto \<Rightarrow>
          (if avail = Some True \<and> proto_include_cost proto = None then False
           else if avail = Some False \<and> proto_include_cost proto \<noteq> None then False
           else if categories = [] \<or> list_ex (\<lambda>cat. cat = proto_category proto) categories
           then (if tags = [] then True
                 else list_all (\<lambda>tag. case Tags s tag of None \<Rightarrow> False
                        | Some tag_idx \<Rightarrow> tag_idx \<in> set (proto_tags proto)) tags)
           else False))"

section \<open>What the calls do\<close>

interpretation key_index: interner fst snd key_index
  by unfold_locales (auto simp: key_index_def Let_def)

lemma upload_Ok:
  assumes "upload E og refs c tags asset cost data s = (Ok, t)"
  obtains who ei "is" m n where "og = Signed who" and "Protos s (blake2_256 E data) = None"
    and "extrinsic_index s = Some ei" and "check_staking_req s refs who = Ok"
    and "tag_indices tags (Tags s, TagsIndex s) = (is, m, n)"
    and "t = s\<lparr>Tags := m, TagsIndex := n,
      Protos := (Protos s)(blake2_256 E data \<mapsto>
        \<lparr>proto_block = block_number s, proto_patches = [], proto_include_cost = cost,
         proto_creator = who, proto_owned_by = (case asset of None \<Rightarrow> User who | Some a \<Rightarrow> ExternalAsset a),
         proto_references = refs, proto_category = c, proto_tags = is, proto_metadata = Map.empty,
         proto_accounts_info = \<lparr>active_accounts = 0, lifetime_accounts = 0\<rparr>\<rparr>),
      ProtosByCategory := storage_append (ProtosByCategory s) c (blake2_256 E data),
      ProtosByOwner := storage_append (ProtosByOwner s)
        (case asset of None \<Rightarrow> User who | Some a \<Rightarrow> ExternalAsset a) (blake2_256 E data),
      indexed := indexed s @ [(ei, of_nat (length data), blake2_256 E data)],
      protos_events := protos_events s @ [Protos_Uploaded (blake2_256 E data) (cid_of E (blake2_256 E data))]\<rparr>"
proof -
  from assms obtain who ei where og: "og = Signed who" and new: "Protos s (blake2_256 E data) = None"
    and ei: "extrinsic_index s = Some ei" and req: "check_staking_req s refs who = Ok"
    unfolding upload_def Let_def by (auto split: option.splits if_splits outcome.splits)
  obtain "is" m n where tags: "tag_indices tags (Tags s, TagsIndex s) = (is, m, n)" by (metis prod_cases3)
  show ?thesis
    by (rule that [OF og new ei req, of "is" m n])
      (use assms og new ei req tags in \<open>simp_all add: upload_def Let_def index_data_def split: option.split\<close>)
qed

lemma ensure_owner_Ok:
  "ensure_owner s h who = Ok \<longleftrightarrow>
   (\<exists>p. Protos s h = Some p \<and> proto_owned_by p = User who) \<and> DetachedHashes s h = None"
  by (auto simp: ensure_owner_def split: option.splits proto_owner.splits)

lemma ensure_owner_OkE:
  assumes "ensure_owner s h who = Ok"
  obtains p where "Protos s h = Some p" and "proto_owned_by p = User who" and "DetachedHashes s h = None"
  using assms by (auto simp: ensure_owner_Ok)

lemma transfer_Ok:
  assumes "transfer og h a s = (Ok, t)"
  obtains who p where "og = Signed who" and "Protos s h = Some p" and "proto_owned_by p = User who"
    and "DetachedHashes s h = None"
    and "t = s\<lparr>ProtosByOwner := storage_append (storage_mutate (ProtosByOwner s) (User who) (retain_not h)) (User a) h,
      Protos := (Protos s)(h \<mapsto> p\<lparr>proto_owned_by := User a\<rparr>),
      protos_events := protos_events s @ [Protos_Transferred h a]\<rparr>"
  using assms
  by (auto simp: transfer_def Let_def storage_mutate_def [of "Protos s"] elim!: ensure_owner_OkE
      split: option.splits outcome.splits)

text \<open>A patch changes the one Proto-Fragment: a new patch when there is data, the cost, the tags.\<close>

definition patched :: "block_num \<Rightarrow> u64 option \<Rightarrow> hash256 list \<Rightarrow> u64 list option \<Rightarrow> bytes \<Rightarrow> hash256
    \<Rightarrow> ('c, 'x) proto_scheme \<Rightarrow> ('c, 'x) proto_scheme" where
  "patched n cost refs tags data h p =
     p\<lparr>proto_patches := proto_patches p @ (if data = [] then []
         else [\<lparr>patch_block = n, patch_data_hash = h, patch_references = refs\<rparr>]),
       proto_include_cost := cost,
       proto_tags := (case tags of None \<Rightarrow> proto_tags p | Some is \<Rightarrow> is)\<rparr>"

lemma patched_simps [simp]:
  "proto_owned_by (patched n cost refs tags data h p) = proto_owned_by p"
  "proto_category (patched n cost refs tags data h p) = proto_category p"
  "proto_creator (patched n cost refs tags data h p) = proto_creator p"
  "proto_block (patched n cost refs tags data h p) = proto_block p"
  "proto_metadata (patched n cost refs tags data h p) = proto_metadata p"
  "proto_references (patched n cost refs tags data h p) = proto_references p"
  by (simp_all add: patched_def)

text \<open>The indices of the new tags, and the tables with them.\<close>

definition new_tag_indices :: "bytes list option \<Rightarrow> (bytes \<rightharpoonup> u64) \<times> u64
    \<Rightarrow> u64 list option \<times> (bytes \<rightharpoonup> u64) \<times> u64" where
  "new_tag_indices tags r =
     (case tags of None \<Rightarrow> (None, r)
      | Some tags \<Rightarrow> (case tag_indices tags r of (is, r') \<Rightarrow> (Some is, r')))"

lemma patch_Ok:
  assumes "patch E og h cost refs tags data s = (Ok, t)"
  obtains who p ei "is" m n where "og = Signed who" and "Protos s h = Some p" and "proto_owned_by p = User who"
    and "DetachedHashes s h = None" and "extrinsic_index s = Some ei"
    and "check_staking_req s refs who = Ok"
    and "new_tag_indices tags (Tags s, TagsIndex s) = (is, m, n)"
    and "t = s\<lparr>Tags := m, TagsIndex := n,
      Protos := (Protos s)(h \<mapsto> patched (block_number s) cost refs is data (blake2_256 E data) p),
      indexed := indexed s @ (if data = [] then [] else [(ei, of_nat (length data), blake2_256 E data)]),
      protos_events := protos_events s @ [Protos_Patched h (cid_of E (blake2_256 E data))]\<rparr>"
proof -
  from assms obtain who ei where og: "og = Signed who" and own: "ensure_owner s h who = Ok"
    and ei: "extrinsic_index s = Some ei" and req: "check_staking_req s refs who = Ok"
    unfolding patch_def Let_def by (auto split: option.splits if_splits outcome.splits)
  obtain p where p: "Protos s h = Some p" "proto_owned_by p = User who" "DetachedHashes s h = None"
    using ensure_owner_OkE [OF own] .
  obtain "is" m n where tags: "new_tag_indices tags (Tags s, TagsIndex s) = (is, m, n)" by (metis prod_cases3)
  show ?thesis
    by (rule that [OF og p ei req tags])
      (use assms og own p ei req tags in \<open>auto simp: patch_def Let_def index_data_def new_tag_indices_def
         patched_def storage_mutate_Some split: option.splits prod.splits\<close>)
qed

lemma set_metadata_Ok:
  assumes "set_metadata E og h key data s = (Ok, t)"
  obtains who p ei i m n where "og = Signed who" and "Protos s h = Some p" and "proto_owned_by p = User who"
    and "DetachedHashes s h = None" and "extrinsic_index s = Some ei"
    and "key_index key (MetaKeys s, MetaKeysIndex s) = (i, m, n)"
    and "t = s\<lparr>MetaKeys := m, MetaKeysIndex := n,
      Protos := (Protos s)(h \<mapsto> p\<lparr>proto_metadata := (proto_metadata p)(i \<mapsto> blake2_256 E data)\<rparr>),
      indexed := indexed s @ [(ei, of_nat (length data), blake2_256 E data)],
      protos_events := protos_events s @ [Protos_MetadataChanged h key]\<rparr>"
proof -
  from assms obtain who ei where og: "og = Signed who" and own: "ensure_owner s h who = Ok"
    and ei: "extrinsic_index s = Some ei"
    unfolding set_metadata_def Let_def by (auto split: option.splits if_splits outcome.splits)
  obtain p where p: "Protos s h = Some p" "proto_owned_by p = User who" "DetachedHashes s h = None"
    using ensure_owner_OkE [OF own] .
  obtain i m n where key: "key_index key (MetaKeys s, MetaKeysIndex s) = (i, m, n)" by (metis prod_cases3)
  show ?thesis
    by (rule that [OF og p ei key])
      (use assms og own p ei key in \<open>simp_all add: set_metadata_def Let_def index_data_def storage_mutate_Some\<close>)
qed

lemma detach_Ok:
  assumes "detach og h chain a s = (Ok, t)"
  obtains who p where "og = Signed who" and "Protos s h = Some p" and "proto_owned_by p = User who"
    and "DetachedHashes s h = None"
    and "t = s\<lparr>DetachRequests := DetachRequests s
      @ [\<lparr>req_hash = h, req_target_chain = chain, req_target_account = a\<rparr>]\<rparr>"
  using assms by (auto simp: detach_def elim!: ensure_owner_OkE split: option.splits outcome.splits)

lemma stake_Ok:
  assumes "stake E og h amount s = (Ok, t)"
  obtains caller who account lock used where "og = Signed caller" and "get_locked_frag_account E caller = Some who"
    and "Protos s h \<noteq> None" and "EVMLinks s who = Some account" and "EthLockedFrag s account = Some lock"
    and "FragUsage s who = Some used" and "amount \<le> lock_amount lock - used"
    and "t = s\<lparr>ProtoStakes := (ProtoStakes s)((h, who) \<mapsto> (amount, block_number s)),
      AccountStakes := storage_append (AccountStakes s) who h,
      protos_events := protos_events s @ [Staked h who amount]\<rparr>"
  using assms by (auto simp: stake_def Let_def split: option.splits if_splits)

lemma unstake_Ok:
  assumes "unstake C og h s = (Ok, t)"
  obtains who staked since where "og = Signed who" and "Protos s h \<noteq> None"
    and "ProtoStakes s (h, who) = Some (staked, since)" and "since + StakeLockupPeriod C < block_number s"
    and "FragUsage s who \<noteq> None"
    and "t = s\<lparr>ProtoStakes := (ProtoStakes s)((h, who) := None),
      AccountStakes := storage_mutate (AccountStakes s) who (retain_not h),
      protos_events := protos_events s @ [Unstaked h who staked]\<rparr>"
  using assms by (auto simp: unstake_def Let_def split: option.splits if_splits)

section \<open>Failing calls\<close>

interpretation upload: checked_call "upload E og refs c tags asset cost data" for E og refs c tags asset cost data
  by unfold_locales (auto simp: upload_def Let_def split: option.splits if_splits outcome.splits prod.splits)

interpretation patch: checked_call "patch E og h cost refs tags data" for E og h cost refs tags data
  by unfold_locales (auto simp: patch_def Let_def split: option.splits if_splits outcome.splits prod.splits)

interpretation transfer: checked_call "transfer og h a" for og h a
  by unfold_locales (auto simp: transfer_def Let_def split: option.splits if_splits outcome.splits)

interpretation set_metadata: checked_call "set_metadata E og h key data" for E og h key data
  by unfold_locales (auto simp: set_metadata_def Let_def split: option.splits if_splits outcome.splits prod.splits)

interpretation detach: checked_call "detach og h chain a" for og h chain a
  by unfold_locales (auto simp: detach_def split: option.splits outcome.splits)

interpretation stake: checked_call "stake E og h amount" for E og h amount
  by unfold_locales (auto simp: stake_def Let_def split: option.splits if_splits)

interpretation unstake: checked_call "unstake C og h" for C og h
  by unfold_locales (auto simp: unstake_def Let_def split: option.splits if_splits)

interpretation protos_dispatch: checked_call "protos_dispatch C E og c" for C E og c
proof
  fix s r t assume "protos_dispatch C E og c s = (r, t)" and "r \<noteq> Ok"
  then show "t = s"
    by (cases c) (auto dest: upload.failure_keeps_state patch.failure_keeps_state transfer.failure_keeps_state
        set_metadata.failure_keeps_state detach.failure_keeps_state stake.failure_keeps_state
        unstake.failure_keeps_state)
qed

fun protos_run :: "'z protos_config_scheme \<Rightarrow> ('b, 'y) ext_scheme
    \<Rightarrow> (account_id origin \<times> 'c protos_call) list \<Rightarrow> ('b, 'c, 'x) protos_state_scheme
    \<Rightarrow> ('b, 'c, 'x) protos_state_scheme" where
  "protos_run C E [] s = s"
| "protos_run C E ((og, c) # cs) s = protos_run C E cs (snd (protos_dispatch C E og c s))"

section \<open>The indices by owner and by category\<close>

definition owner_of :: "('b, 'c, 'x) protos_state_scheme \<Rightarrow> hash256 \<Rightarrow> proto_owner option" where
  "owner_of s h = map_option proto_owned_by (Protos s h)"

definition category_of :: "('b, 'c, 'x) protos_state_scheme \<Rightarrow> hash256 \<Rightarrow> 'c option" where
  "category_of s h = map_option proto_category (Protos s h)"

definition index_inv :: "('b, 'c, 'x) protos_state_scheme \<Rightarrow> bool" where
  "index_inv s \<longleftrightarrow> indexes (ProtosByOwner s) (owner_of s) \<and> indexes (ProtosByCategory s) (category_of s)"

interpretation by_owner: catalogue ProtosByOwner owner_of index_inv
  by unfold_locales (simp add: index_inv_def)

interpretation by_category: catalogue ProtosByCategory category_of index_inv
  by unfold_locales (simp add: index_inv_def)

lemma owner_of_upd: "Protos t = (Protos s)(h \<mapsto> p) \<Longrightarrow> owner_of t = (owner_of s)(h \<mapsto> proto_owned_by p)"
  by (auto simp: owner_of_def)

lemma category_of_upd: "Protos t = (Protos s)(h \<mapsto> p) \<Longrightarrow> category_of t = (category_of s)(h \<mapsto> proto_category p)"
  by (auto simp: category_of_def)

lemma index_inv_frame [simp]:
  "index_inv (block_number_update f0 s) = index_inv s"
  "index_inv (extrinsic_index_update f1 s) = index_inv s"
  "index_inv (now_update f2 s) = index_inv s"
  "index_inv (balances_update f3 s) = index_inv s"
  "index_inv (indexed_update f4 s) = index_inv s"
  "index_inv (DetachRequests_update f5 s) = index_inv s"
  "index_inv (DetachNonces_update f6 s) = index_inv s"
  "index_inv (DetachedHashes_update f7 s) = index_inv s"
  "index_inv (EthereumAuthorities_update f8 s) = index_inv s"
  "index_inv (detach_FragKeys_update f9 s) = index_inv s"
  "index_inv (detach_events_update f10 s) = index_inv s"
  "index_inv (offchain_requests_update f11 s) = index_inv s"
  "index_inv (EthLockedFrag_update f12 s) = index_inv s"
  "index_inv (EVMLinks_update f13 s) = index_inv s"
  "index_inv (EVMLinksReverse_update f14 s) = index_inv s"
  "index_inv (FragUsage_update f15 s) = index_inv s"
  "index_inv (EVMLinkVoting_update f16 s) = index_inv s"
  "index_inv (EVMLinkVotingClosed_update f17 s) = index_inv s"
  "index_inv (PendingUnlinks_update f18 s) = index_inv s"
  "index_inv (accounts_FragKeys_update f19 s) = index_inv s"
  "index_inv (ExternalID2Account_update f20 s) = index_inv s"
  "index_inv (Proxies_update f21 s) = index_inv s"
  "index_inv (accounts_events_update f22 s) = index_inv s"
  "index_inv (Tags_update f23 s) = index_inv s"
  "index_inv (TagsIndex_update f24 s) = index_inv s"
  "index_inv (MetaKeys_update f25 s) = index_inv s"
  "index_inv (MetaKeysIndex_update f26 s) = index_inv s"
  "index_inv (ProtoStakes_update f27 s) = index_inv s"
  "index_inv (AccountStakes_update f28 s) = index_inv s"
  "index_inv (protos_events_update f29 s) = index_inv s"
  by (simp_all add: index_inv_def owner_of_def [abs_def] category_of_def [abs_def])

text \<open>A change that keeps owner and category keeps the indices.\<close>

lemma index_inv_same:
  assumes "index_inv s" and "Protos s h = Some p" and "Protos t = (Protos s)(h \<mapsto> q)"
    and "proto_owned_by q = proto_owned_by p" and "proto_category q = proto_category p"
    and "ProtosByOwner t = ProtosByOwner s" and "ProtosByCategory t = ProtosByCategory s"
  shows "index_inv t"
  using assms(1,2,4-7) indexes_same
  by (auto simp: index_inv_def owner_of_upd [OF assms(3)] category_of_upd [OF assms(3)] owner_of_def
      category_of_def fun_upd_idem)

lemma index_inv_upload:
  assumes "index_inv s" and "upload E og refs c tags asset cost data s = (Ok, t)"
  shows "index_inv t"
  using assms(2)
proof (cases rule: upload_Ok)
  case (1 who ei "is" m n)
  have p: "Protos t = (Protos s)(blake2_256 E data \<mapsto> the (Protos t (blake2_256 E data)))" using 1 by simp
  have "owner_of s (blake2_256 E data) = None" "category_of s (blake2_256 E data) = None"
    using 1 by (simp_all add: owner_of_def category_of_def)
  with assms(1) have
    "indexes (storage_append (ProtosByOwner s) (case asset of None \<Rightarrow> User who | Some a \<Rightarrow> ExternalAsset a) (blake2_256 E data))
       ((owner_of s)(blake2_256 E data \<mapsto> (case asset of None \<Rightarrow> User who | Some a \<Rightarrow> ExternalAsset a)))"
    "indexes (storage_append (ProtosByCategory s) c (blake2_256 E data)) ((category_of s)(blake2_256 E data \<mapsto> c))"
    by (auto simp: index_inv_def intro: indexes_add)
  then show ?thesis
    unfolding index_inv_def owner_of_upd [OF p] category_of_upd [OF p] by (simp add: 1)
qed

lemma index_inv_transfer:
  assumes "index_inv s" and "transfer og h a s = (Ok, t)" shows "index_inv t"
  using assms(2)
proof (cases rule: transfer_Ok)
  case (1 who p)
  have q: "Protos t = (Protos s)(h \<mapsto> p\<lparr>proto_owned_by := User a\<rparr>)" using 1 by simp
  have "owner_of s h = Some (User who)" "category_of s h = Some (proto_category p)"
    using 1 by (simp_all add: owner_of_def category_of_def)
  with assms(1) show ?thesis
    unfolding index_inv_def owner_of_upd [OF q] category_of_upd [OF q]
    by (auto simp: 1 intro: indexes_move indexes_same)
qed

lemma index_inv_patch:
  assumes "index_inv s" and "patch E og h cost refs tags data s = (Ok, t)" shows "index_inv t"
  using assms(2)
proof (cases rule: patch_Ok)
  case (1 who p ei "is" m n)
  show ?thesis
    by (rule index_inv_same [OF assms(1) 1(2), where q = "patched (block_number s) cost refs is data (blake2_256 E data) p"])
      (simp_all add: 1(8))
qed

lemma index_inv_set_metadata:
  assumes "index_inv s" and "set_metadata E og h key data s = (Ok, t)" shows "index_inv t"
  using assms(2)
proof (cases rule: set_metadata_Ok)
  case (1 who p ei i m n)
  show ?thesis
    by (rule index_inv_same [OF assms(1) 1(2), where q = "p\<lparr>proto_metadata := (proto_metadata p)(i \<mapsto> blake2_256 E data)\<rparr>"])
      (simp_all add: 1(7))
qed

lemma index_inv_detach: "index_inv s \<Longrightarrow> detach og h chain a s = (Ok, t) \<Longrightarrow> index_inv t"
  by (erule detach_Ok) simp

lemma index_inv_stake: "index_inv s \<Longrightarrow> stake E og h amount s = (Ok, t) \<Longrightarrow> index_inv t"
  by (erule stake_Ok) simp

lemma index_inv_unstake: "index_inv s \<Longrightarrow> unstake C og h s = (Ok, t) \<Longrightarrow> index_inv t"
  by (erule unstake_Ok) simp

lemma protos_dispatch_Ok_or_same:
  "protos_dispatch C E og c s = (r, t) \<Longrightarrow> r = Ok \<or> t = s"
  using protos_dispatch.failure_keeps_state by blast

lemma index_inv_dispatch:
  assumes "index_inv s" shows "index_inv (snd (protos_dispatch C E og c s))"
proof -
  obtain r t where d: "protos_dispatch C E og c s = (r, t)" by fastforce
  then consider "r = Ok" | "t = s" using protos_dispatch_Ok_or_same by blast
  then show ?thesis
    using d assms
    by cases (cases c, auto intro: index_inv_upload index_inv_patch index_inv_transfer
        index_inv_set_metadata index_inv_detach index_inv_stake index_inv_unstake)
qed

lemma index_inv_run: "index_inv s \<Longrightarrow> index_inv (protos_run C E cs s)"
  by (induction cs arbitrary: s) (auto simp: index_inv_dispatch)

section \<open>What may change in a Proto-Fragment\<close>

text \<open>What stays of a Proto-Fragment over its life: patches and metadata keys are only added.\<close>

definition evolves :: "('c, 'x) proto_scheme \<Rightarrow> ('c, 'x) proto_scheme \<Rightarrow> bool" where
  "evolves p q \<longleftrightarrow> proto_block q = proto_block p \<and> proto_creator q = proto_creator p \<and>
     proto_references q = proto_references p \<and> proto_category q = proto_category p \<and>
     (\<exists>ps. proto_patches q = proto_patches p @ ps) \<and> dom (proto_metadata p) \<subseteq> dom (proto_metadata q)"

lemma evolves_refl: "evolves p p"
  by (simp add: evolves_def)

lemma evolves_trans: "evolves p q \<Longrightarrow> evolves q r \<Longrightarrow> evolves p r"
  by (auto simp: evolves_def)

lemma evolves_steps:
  "evolves p (patched n cost refs tags data h p)"
  "evolves p (p\<lparr>proto_owned_by := ow\<rparr>)"
  "evolves p (p\<lparr>proto_metadata := (proto_metadata p)(i \<mapsto> hh)\<rparr>)"
  by (auto simp: evolves_def patched_def)

text \<open>A call changes a Proto-Fragment only for its owner, while it is not detached.\<close>

lemma protos_dispatch_change:
  assumes "protos_dispatch C E og c s = (r, t)" and "Protos s h = Some p"
  shows "Protos t h = Some p \<or>
    (\<exists>who q. og = Signed who \<and> proto_owned_by p = User who \<and> DetachedHashes s h = None \<and>
      Protos t h = Some q \<and> evolves p q)"
proof (cases "r = Ok")
  case True
  show ?thesis
  proof (cases c)
    case (Upload refs cat tags asset cost data)
    with assms True show ?thesis by (auto elim!: upload_Ok)
  next
    case (Patch h' cost refs tags data)
    with assms(1) True have "patch E og h' cost refs tags data s = (Ok, t)" by simp
    then show ?thesis using assms(2) by (cases rule: patch_Ok) (auto simp: evolves_steps)
  next
    case (Transfer h' a)
    with assms(1) True have "transfer og h' a s = (Ok, t)" by simp
    then show ?thesis using assms(2) by (cases rule: transfer_Ok) (auto simp: evolves_steps)
  next
    case (Set_metadata h' key data)
    with assms(1) True have "set_metadata E og h' key data s = (Ok, t)" by simp
    then show ?thesis using assms(2) by (cases rule: set_metadata_Ok) (auto simp: evolves_steps)
  next
    case (Detach h' chain a)
    with assms True show ?thesis by (auto elim!: detach_Ok)
  next
    case (Stake h' amount)
    with assms True show ?thesis by (auto elim!: stake_Ok)
  next
    case (Unstake h')
    with assms True show ?thesis by (auto elim!: unstake_Ok)
  qed
next
  case False
  then show ?thesis using assms protos_dispatch_Ok_or_same by blast
qed

lemma protos_run_evolves:
  assumes "Protos s h = Some p"
  shows "\<exists>q. Protos (protos_run C E cs s) h = Some q \<and> evolves p q"
  using assms
proof (induction cs arbitrary: s p)
  case (Cons oc cs)
  obtain og c where oc: "oc = (og, c)" by (cases oc)
  obtain r t where d: "protos_dispatch C E og c s = (r, t)" by fastforce
  obtain q where q: "Protos t h = Some q" "evolves p q"
    using protos_dispatch_change [OF d Cons.prems] Cons.prems evolves_refl by auto
  show ?case using Cons.IH [OF q(1)] q(2) by (auto simp: oc d intro: evolves_trans)
qed (auto intro: evolves_refl)

lemma protos_dispatch_detached [simp]:
  "DetachedHashes (snd (protos_dispatch C E og c s)) = DetachedHashes s"
proof -
  obtain r t where d: "protos_dispatch C E og c s = (r, t)" by fastforce
  then consider "r = Ok" | "t = s" using protos_dispatch_Ok_or_same by blast
  then have "DetachedHashes t = DetachedHashes s"
    using d by cases (cases c; auto elim!: upload_Ok patch_Ok transfer_Ok set_metadata_Ok detach_Ok stake_Ok unstake_Ok)+
  then show ?thesis by (simp add: d)
qed

lemma protos_run_detached_frozen:
  assumes "Protos s h = Some p" and "DetachedHashes s h \<noteq> None"
  shows "Protos (protos_run C E cs s) h = Some p"
  using assms
proof (induction cs arbitrary: s)
  case (Cons oc cs)
  obtain og c where oc: "oc = (og, c)" by (cases oc)
  obtain r t where d: "protos_dispatch C E og c s = (r, t)" by fastforce
  have "Protos t h = Some p" using protos_dispatch_change [OF d Cons.prems(1)] Cons.prems(2) by auto
  moreover have "DetachedHashes t h \<noteq> None" using Cons.prems(2) protos_dispatch_detached [of C E og c s] by (simp add: d)
  ultimately show ?case using Cons.IH by (simp add: oc d)
qed simp

section \<open>The staking requirement\<close>

text \<open>What it takes to include another Proto-Fragment.\<close>

definition includable :: "('b, 'c, 'x) protos_state_scheme \<Rightarrow> account_id \<Rightarrow> hash256 \<Rightarrow> bool" where
  "includable s who r \<longleftrightarrow> (\<exists>p. Protos s r = Some p \<and>
     (proto_owned_by p = User who \<or> proto_include_cost p = Some 0 \<or>
      (\<exists>cost staked since. proto_include_cost p = Some cost \<and>
         ProtoStakes s (r, who) = Some (staked, since) \<and> ucast cost \<le> staked)))"

lemma check_staking_req_iff: "check_staking_req s refs who = Ok \<longleftrightarrow> (\<forall>r \<in> set refs. includable s who r)"
proof (induction refs)
  case (Cons r refs)
  show ?case
  proof (cases "includable s who r")
    case True
    then have "check_staking_req s (r # refs) who = check_staking_req s refs who"
      by (auto simp: includable_def split: proto_owner.split)
    then show ?thesis using Cons True by simp
  next
    case False
    then have "check_staking_req s (r # refs) who \<noteq> Ok"
      by (auto simp: includable_def split: option.splits proto_owner.splits if_splits)
    then show ?thesis using False by simp
  qed
qed simp

lemma upload_succeeds_iff:
  "fst (upload E og refs c tags asset cost data s) = Ok \<longleftrightarrow>
   (\<exists>who. og = Signed who \<and> Protos s (blake2_256 E data) = None \<and> extrinsic_index s \<noteq> None \<and>
      (\<forall>r \<in> set refs. includable s who r))"
proof -
  have "fst (upload E og refs c tags asset cost data s) = Ok \<longleftrightarrow>
     (\<exists>who. og = Signed who \<and> Protos s (blake2_256 E data) = None \<and> extrinsic_index s \<noteq> None \<and>
        check_staking_req s refs who = Ok)"
    by (auto simp: upload_def Let_def split: option.splits outcome.splits prod.splits)
  then show ?thesis by (simp add: check_staking_req_iff)
qed

section \<open>Tags\<close>

lemma tag_indices_resolve:
  assumes "tag_indices tags r = (is, r')"
  shows "map (fst r') tags = map Some is" and "fst r \<subseteq>\<^sub>m fst r'"
  using assms
proof (induction tags arbitrary: r "is")
  case (Cons tag tags)
  { case 1
    then obtain i r1 js where i: "key_index tag r = (i, r1)" and js: "tag_indices tags r1 = (js, r')" "is = i # js"
      by (auto split: prod.splits)
    have "fst r1 tag = Some i" using key_index.intern_lookup [OF i] .
    then show ?case using Cons.IH [OF js(1)] js(2) by (auto simp: map_le_def dom_def)
  next
    case 2
    then obtain i r1 js where i: "key_index tag r = (i, r1)" and js: "tag_indices tags r1 = (js, r')"
      by (auto split: prod.splits)
    have "fst r \<subseteq>\<^sub>m fst r1" using key_index.intern_keeps [OF i] by (auto simp: map_le_def dom_def)
    then show ?case using Cons.IH(2) [OF js] by (rule map_le_trans) }
qed simp_all

lemma tag_indices_numbered:
  assumes "tag_indices tags r = (is, r')" and "numbered (fst r) (snd r)"
    and "unat (snd r) + length tags < 2 ^ 64"
  shows "numbered (fst r') (snd r') \<and> unat (snd r') \<le> unat (snd r) + length tags"
  using assms
proof (induction tags arbitrary: r "is")
  case (Cons tag tags)
  then obtain i r1 js where i: "key_index tag r = (i, r1)" and js: "tag_indices tags r1 = (js, r')"
    by (auto split: prod.splits)
  have "snd r \<noteq> - 1" using Cons.prems(3) by (auto simp: unsigned_minus_1_eq_mask mask_eq_exp_minus_1)
  then have n: "numbered (fst r1) (snd r1)" using key_index.intern_numbered [OF Cons.prems(2) _ i] by simp
  have c: "unat (snd r1) \<le> Suc (unat (snd r))" using key_index.intern_counter [OF i] .
  show ?case using Cons.IH [OF js n] c Cons.prems(3) by simp
qed simp

text \<open>
  A tag of the query matches an uploaded Proto-Fragment exactly when it is one of its tags.
\<close>

lemma tag_matches:
  assumes "tag_indices tags r = (is, r')" and "numbered (fst r') n"
  shows "(case fst r' tag of None \<Rightarrow> False | Some i \<Rightarrow> i \<in> set is) \<longleftrightarrow> tag \<in> set tags"
proof -
  have m: "map (fst r') tags = map Some is" by (rule tag_indices_resolve [OF assms(1)])
  then have "i \<in> set is \<longleftrightarrow> (\<exists>k \<in> set tags. fst r' k = Some i)" for i
    by (metis (mono_tags, lifting) image_iff list.set_map option.inject)
  then show ?thesis
    using numbered_inj [OF assms(2)] m
    by (auto split: option.split) (metis image_iff list.set_map option.distinct(1))+
qed

section \<open>Stakes\<close>

text \<open>Every stake is in the list of its account, so that dropping the list drops the stake.\<close>

definition stakes_inv :: "('b, 'c, 'x) protos_state_scheme \<Rightarrow> bool" where
  "stakes_inv s \<longleftrightarrow>
     (\<forall>h a. ProtoStakes s (h, a) \<noteq> None \<longrightarrow> h \<in> set (listed (AccountStakes s) a))"

lemma stakes_invD: "stakes_inv s \<Longrightarrow> ProtoStakes s (h, a) = Some v \<Longrightarrow> h \<in> set (listed (AccountStakes s) a)"
  by (auto simp: stakes_inv_def)

lemma stakes_inv_same:
  "stakes_inv s \<Longrightarrow> ProtoStakes t = ProtoStakes s \<Longrightarrow> AccountStakes t = AccountStakes s \<Longrightarrow> stakes_inv t"
  by (simp add: stakes_inv_def)

lemma stakes_inv_stake: "stakes_inv s \<Longrightarrow> stake E og h amount s = (Ok, t) \<Longrightarrow> stakes_inv t"
  by (erule stake_Ok) (auto simp: stakes_inv_def storage_simps)

lemma stakes_inv_unstake: "stakes_inv s \<Longrightarrow> unstake C og h s = (Ok, t) \<Longrightarrow> stakes_inv t"
  by (erule unstake_Ok) (auto simp: stakes_inv_def storage_simps)

lemma protos_dispatch_stakes:
  assumes "protos_dispatch C E og c s = (r, t)"
  shows "(ProtoStakes t = ProtoStakes s \<and> AccountStakes t = AccountStakes s) \<or>
    (\<exists>h amount. c = Stake h amount \<and> stake E og h amount s = (Ok, t)) \<or>
    (\<exists>h. c = Unstake h \<and> unstake C og h s = (Ok, t))"
proof (cases "r = Ok")
  case True
  then show ?thesis
    using assms by (cases c) (auto elim!: upload_Ok patch_Ok transfer_Ok set_metadata_Ok detach_Ok)
qed (use assms protos_dispatch_Ok_or_same in blast)

lemma stakes_inv_dispatch:
  assumes "stakes_inv s" shows "stakes_inv (snd (protos_dispatch C E og c s))"
proof -
  obtain r t where d: "protos_dispatch C E og c s = (r, t)" by fastforce
  show ?thesis
    using protos_dispatch_stakes [OF d] assms stakes_inv_same stakes_inv_stake stakes_inv_unstake
    by (metis d snd_conv)
qed

lemma stakes_inv_run: "stakes_inv s \<Longrightarrow> stakes_inv (protos_run C E cs s)"
  by (induction cs arbitrary: s) (auto simp: stakes_inv_dispatch)

text \<open>Dropping the stakes of accounts one after the other.\<close>

lemma fold_drop_apply:
  "fold (\<lambda>hash m. m((hash, who) := None)) hs m (h, a) =
   (if a = who \<and> h \<in> set hs then None else m (h, a))"
  by (induction hs arbitrary: m) auto

lemma drop_stakes_account: "AccountStakes (drop_stakes who s) = (AccountStakes s)(who := None)"
  by (simp add: drop_stakes_def Let_def split: option.split)

lemma drop_stakes_stakes:
  "ProtoStakes (drop_stakes who s) (h, a) =
   (if a = who \<and> h \<in> set (listed (AccountStakes s) who) then None else ProtoStakes s (h, a))"
  by (simp add: drop_stakes_def Let_def fold_drop_apply listed_def split: option.split)

lemma stakes_inv_drop: "stakes_inv s \<Longrightarrow> stakes_inv (drop_stakes who s)"
  by (auto simp: stakes_inv_def drop_stakes_account drop_stakes_stakes storage_simps split: if_splits)

lemma drop_stakes_gone: "stakes_inv s \<Longrightarrow> ProtoStakes (drop_stakes who s) (h, who) = None"
  by (cases "ProtoStakes s (h, who)") (auto simp: drop_stakes_stakes dest: stakes_invD)

lemma drop_stakes_frame:
  "\<exists>ps as. drop_stakes who s = s\<lparr>ProtoStakes := ps, AccountStakes := as\<rparr>"
proof -
  have "drop_stakes who s = s\<lparr>ProtoStakes := ProtoStakes (drop_stakes who s), AccountStakes := AccountStakes (drop_stakes who s)\<rparr>"
    by (simp add: drop_stakes_def Let_def split: option.split)
  then show ?thesis by blast
qed

lemma fold_drop_stakes:
  assumes "stakes_inv s"
  shows "stakes_inv (fold drop_stakes whos s) \<and>
    (\<forall>a. (a \<in> set whos \<longrightarrow> AccountStakes (fold drop_stakes whos s) a = None \<and>
             (\<forall>h. ProtoStakes (fold drop_stakes whos s) (h, a) = None)) \<and>
         (a \<notin> set whos \<longrightarrow> AccountStakes (fold drop_stakes whos s) a = AccountStakes s a \<and>
             (\<forall>h. ProtoStakes (fold drop_stakes whos s) (h, a) = ProtoStakes s (h, a))))"
  using assms
proof (induction whos rule: rev_induct)
  case (snoc who whos)
  let ?s = "fold drop_stakes whos s"
  have inv: "stakes_inv ?s" using snoc by blast
  have gone: "ProtoStakes (drop_stakes who ?s) (h, who) = None" for h using drop_stakes_gone [OF inv] .
  show ?case
    using snoc stakes_inv_drop [OF inv, of who] gone
    by (auto simp: drop_stakes_account drop_stakes_stakes)
qed simp

lemma fold_drop_stakes_frame: "\<exists>ps as. fold drop_stakes whos s = s\<lparr>ProtoStakes := ps, AccountStakes := as\<rparr>"
proof (induction whos arbitrary: s)
  case Nil
  show ?case by (intro exI [of _ "ProtoStakes s"] exI [of _ "AccountStakes s"]) simp
next
  case (Cons who whos)
  obtain ps as where d: "drop_stakes who s = s\<lparr>ProtoStakes := ps, AccountStakes := as\<rparr>"
    using drop_stakes_frame by blast
  obtain ps' as' where "fold drop_stakes whos (drop_stakes who s) = (drop_stakes who s)\<lparr>ProtoStakes := ps', AccountStakes := as'\<rparr>"
    using Cons.IH by blast
  then show ?case by (auto simp: d)
qed

lemma protos_on_finalize_stakes:
  assumes "stakes_inv s"
  shows "stakes_inv (protos_on_finalize s)"
    and "a \<in> set (PendingUnlinks s) \<Longrightarrow> ProtoStakes (protos_on_finalize s) (h, a) = None"
    and "a \<in> set (PendingUnlinks s) \<Longrightarrow> AccountStakes (protos_on_finalize s) a = None"
    and "a \<notin> set (PendingUnlinks s) \<Longrightarrow> ProtoStakes (protos_on_finalize s) (h, a) = ProtoStakes s (h, a)"
    and "a \<notin> set (PendingUnlinks s) \<Longrightarrow> AccountStakes (protos_on_finalize s) a = AccountStakes s a"
proof -
  have "stakes_inv (s\<lparr>PendingUnlinks := []\<rparr>)" using assms by (simp add: stakes_inv_def)
  note f = fold_drop_stakes [OF this, of "PendingUnlinks s", folded protos_on_finalize_def]
  show "stakes_inv (protos_on_finalize s)"
    and "a \<in> set (PendingUnlinks s) \<Longrightarrow> ProtoStakes (protos_on_finalize s) (h, a) = None"
    and "a \<in> set (PendingUnlinks s) \<Longrightarrow> AccountStakes (protos_on_finalize s) a = None"
    and "a \<notin> set (PendingUnlinks s) \<Longrightarrow> ProtoStakes (protos_on_finalize s) (h, a) = ProtoStakes s (h, a)"
    and "a \<notin> set (PendingUnlinks s) \<Longrightarrow> AccountStakes (protos_on_finalize s) a = AccountStakes s a"
    using f by simp_all
qed

lemma protos_on_finalize_frame:
  "\<exists>ps as. protos_on_finalize s = s\<lparr>PendingUnlinks := [], ProtoStakes := ps, AccountStakes := as\<rparr>"
  using fold_drop_stakes_frame [of "PendingUnlinks s" "s\<lparr>PendingUnlinks := []\<rparr>"]
  by (simp add: protos_on_finalize_def)

section \<open>The usage counter\<close>

text \<open>No call of this pallet changes a usage counter, a link or a locked amount.\<close>

lemma protos_dispatch_accounts:
  assumes "protos_dispatch C E og c s = (r, t)"
  shows "FragUsage t = FragUsage s" and "EVMLinks t = EVMLinks s" and "EthLockedFrag t = EthLockedFrag s"
    and "EVMLinksReverse t = EVMLinksReverse s" and "PendingUnlinks t = PendingUnlinks s"
proof -
  have "FragUsage t = FragUsage s \<and> EVMLinks t = EVMLinks s \<and> EthLockedFrag t = EthLockedFrag s
      \<and> EVMLinksReverse t = EVMLinksReverse s \<and> PendingUnlinks t = PendingUnlinks s"
  proof (cases "r = Ok")
    case True
    then show ?thesis
      using assms by (cases c) (auto elim!: upload_Ok patch_Ok transfer_Ok set_metadata_Ok detach_Ok stake_Ok unstake_Ok)
  qed (use assms protos_dispatch_Ok_or_same in blast)
  then show "FragUsage t = FragUsage s" "EVMLinks t = EVMLinks s" "EthLockedFrag t = EthLockedFrag s"
    "EVMLinksReverse t = EVMLinksReverse s" "PendingUnlinks t = PendingUnlinks s" by simp_all
qed

text \<open>The condition of a stake, which a stake does not change.\<close>

definition stakeable :: "('b, 'y) ext_scheme \<Rightarrow> account_id \<Rightarrow> account_id \<Rightarrow> balance
    \<Rightarrow> ('b, 'c, 'x) protos_state_scheme \<Rightarrow> bool" where
  "stakeable E caller who amount s \<longleftrightarrow> get_locked_frag_account E caller = Some who \<and>
     (\<exists>account lock used. EVMLinks s who = Some account \<and> EthLockedFrag s account = Some lock \<and>
        FragUsage s who = Some used \<and> amount \<le> lock_amount lock - used)"

lemma stake_succeeds:
  assumes "stakeable E caller who amount s" and "Protos s h \<noteq> None"
  shows "stake E (Signed caller) h amount s = (Ok, s\<lparr>ProtoStakes := (ProtoStakes s)((h, who) \<mapsto> (amount, block_number s)),
      AccountStakes := storage_append (AccountStakes s) who h,
      protos_events := protos_events s @ [Staked h who amount]\<rparr>)"
  using assms by (auto simp: stakeable_def stake_def Let_def)

lemma stakeable_frame [simp]:
  "stakeable E caller who amount (s\<lparr>ProtoStakes := ps, AccountStakes := as, protos_events := ev\<rparr>) =
   stakeable E caller who amount s"
  by (simp add: stakeable_def)

fun stake_all :: "('b, 'y) ext_scheme \<Rightarrow> account_id \<Rightarrow> balance \<Rightarrow> hash256 list
    \<Rightarrow> ('b, 'c, 'x) protos_state_scheme \<Rightarrow> protos_error dispatch_error outcome \<times> ('b, 'c, 'x) protos_state_scheme" where
  "stake_all E caller amount [] s = (Ok, s)"
| "stake_all E caller amount (h # hs) s =
     (case stake E (Signed caller) h amount s of
        (Ok, t) \<Rightarrow> stake_all E caller amount hs t
      | (r, t) \<Rightarrow> (r, t))"

lemma stake_all_Ok:
  assumes "stakeable E caller who amount s" and "\<forall>h \<in> set hs. Protos s h \<noteq> None"
  shows "\<exists>t. stake_all E caller amount hs s = (Ok, t) \<and> FragUsage t = FragUsage s \<and>
    (\<forall>h. ProtoStakes t (h, who) =
       (if h \<in> set hs then Some (amount, block_number s) else ProtoStakes s (h, who)))"
  using assms
proof (induction hs arbitrary: s)
  case (Cons h hs)
  let ?t = "s\<lparr>ProtoStakes := (ProtoStakes s)((h, who) \<mapsto> (amount, block_number s)),
      AccountStakes := storage_append (AccountStakes s) who h,
      protos_events := protos_events s @ [Staked h who amount]\<rparr>"
  have "stake E (Signed caller) h amount s = (Ok, ?t)"
    using stake_succeeds [OF Cons.prems(1), of h] Cons.prems(2) by simp
  moreover obtain u where "stake_all E caller amount hs ?t = (Ok, u)" "FragUsage u = FragUsage ?t"
    "\<forall>h. ProtoStakes u (h, who) = (if h \<in> set hs then Some (amount, block_number ?t) else ProtoStakes ?t (h, who))"
    using Cons.IH [of ?t] Cons.prems by auto
  ultimately show ?case by auto
qed simp

section \<open>Tags of the stored Proto-Fragments\<close>

text \<open>Every tag number in use belongs to exactly one tag.\<close>

definition tags_inv :: "('b, 'c, 'x) protos_state_scheme \<Rightarrow> bool" where
  "tags_inv s \<longleftrightarrow> numbered (Tags s) (TagsIndex s) \<and>
     (\<forall>h p. Protos s h = Some p \<longrightarrow> set (proto_tags p) \<subseteq> ran (Tags s))"

text \<open>The number of tags a call may add.\<close>

fun tag_demand :: "'c protos_call \<Rightarrow> nat" where
  "tag_demand (Upload refs c tags asset cost data) = length tags"
| "tag_demand (Patch h cost refs (Some tags) data) = length tags"
| "tag_demand _ = 0"

lemma tag_indices_ran:
  assumes "tag_indices tags (m, n) = (is, m', n')"
  shows "set is \<subseteq> ran m'" and "ran m \<subseteq> ran m'"
proof -
  have "map m' tags = map Some is" and le: "m \<subseteq>\<^sub>m m'"
    using tag_indices_resolve [OF assms] by simp_all
  then show "set is \<subseteq> ran m'"
    by (metis (mono_tags, lifting) image_iff list.set_map ranI subsetI)
  show "ran m \<subseteq> ran m'" using le by (auto simp: ran_def map_le_def dom_def) metis
qed

lemma tags_inv_upload:
  assumes "tags_inv s" and "upload E og refs c tags asset cost data s = (Ok, t)"
    and "unat (TagsIndex s) + length tags < 2 ^ 64"
  shows "tags_inv t \<and> unat (TagsIndex t) \<le> unat (TagsIndex s) + length tags"
  using assms(2)
proof (cases rule: upload_Ok)
  case (1 who ei "is" m n)
  have num: "numbered m n \<and> unat n \<le> unat (TagsIndex s) + length tags"
    using tag_indices_numbered [OF 1(5)] assms(1,3) by (simp add: tags_inv_def)
  note r = tag_indices_ran [OF 1(5)]
  have "set (proto_tags p) \<subseteq> ran m" if "Protos t h = Some p" for h p
  proof (cases "h = blake2_256 E data")
    case True
    then show ?thesis using that r(1) by (auto simp: 1(6))
  next
    case False
    then have "Protos s h = Some p" using that by (simp add: 1(6))
    then have "set (proto_tags p) \<subseteq> ran (Tags s)" using assms(1) by (simp add: tags_inv_def)
    then show ?thesis using r(2) by simp
  qed
  then show ?thesis using num by (simp add: tags_inv_def 1(6))
qed

lemma tags_inv_patch:
  assumes "tags_inv s" and "patch E og h cost refs tags data s = (Ok, t)"
    and "unat (TagsIndex s) + tag_demand (Patch h cost refs tags data) < 2 ^ 64"
  shows "tags_inv t \<and> unat (TagsIndex t) \<le> unat (TagsIndex s) + tag_demand (Patch h cost refs tags data)"
  using assms(2)
proof (cases rule: patch_Ok)
  case (1 who p ei "is" m n)
  have "numbered m n \<and> unat n \<le> unat (TagsIndex s) + tag_demand (Patch h cost refs tags data) \<and>
      ran (Tags s) \<subseteq> ran m \<and> (\<forall>js. is = Some js \<longrightarrow> set js \<subseteq> ran m)"
  proof (cases tags)
    case None
    then show ?thesis using 1(7) assms(1) by (simp add: new_tag_indices_def tags_inv_def)
  next
    case (Some ts)
    then obtain js where js: "tag_indices ts (Tags s, TagsIndex s) = (js, m, n)" "is = Some js"
      using 1(7) by (auto simp: new_tag_indices_def split: prod.splits)
    then show ?thesis
      using tag_indices_numbered [OF js(1)] tag_indices_ran [OF js(1)] assms(1,3) Some
      by (simp add: tags_inv_def)
  qed
  then show ?thesis
    using assms(1) 1(2) by (fastforce simp: tags_inv_def 1(8) patched_def split: option.splits if_splits)
qed

lemma tags_inv_keep:
  "tags_inv s \<Longrightarrow> Tags t = Tags s \<Longrightarrow> TagsIndex t = TagsIndex s \<Longrightarrow> Protos t = Protos s \<Longrightarrow>
   tags_inv t \<and> unat (TagsIndex t) \<le> unat (TagsIndex s) + n"
  by (simp add: tags_inv_def)

lemma tags_inv_upd:
  assumes "tags_inv s" and "Protos s h = Some p" and "Protos t = (Protos s)(h \<mapsto> q)"
    and "proto_tags q = proto_tags p" and "Tags t = Tags s" and "TagsIndex t = TagsIndex s"
  shows "tags_inv t \<and> unat (TagsIndex t) \<le> unat (TagsIndex s) + n"
  using assms by (auto simp: tags_inv_def split: if_splits)

lemma tags_inv_dispatch:
  assumes "tags_inv s" and "unat (TagsIndex s) + tag_demand c < 2 ^ 64"
    and "protos_dispatch C E og c s = (r, t)"
  shows "tags_inv t \<and> unat (TagsIndex t) \<le> unat (TagsIndex s) + tag_demand c"
proof (cases "r = Ok")
  case True
  show ?thesis
  proof (cases c)
    case (Upload refs cat tags asset cost data)
    then show ?thesis using tags_inv_upload [OF assms(1)] assms(2,3) True by simp
  next
    case (Patch h cost refs tags data)
    then show ?thesis using tags_inv_patch [OF assms(1), of E og h cost refs tags data t] assms(2,3) True by simp
  next
    case (Transfer h a)
    with assms(3) True have "transfer og h a s = (Ok, t)" by simp
    then show ?thesis
      by (cases rule: transfer_Ok) (rule tags_inv_upd [OF assms(1), where q = "_\<lparr>proto_owned_by := User a\<rparr>"], auto)
  next
    case (Set_metadata h key data)
    with assms(3) True have "set_metadata E og h key data s = (Ok, t)" by simp
    then show ?thesis
      by (cases rule: set_metadata_Ok)
        (rule tags_inv_upd [OF assms(1), where q = "_\<lparr>proto_metadata := _\<rparr>"], auto)
  next
    case (Detach h chain a)
    with assms(3) True have "detach og h chain a s = (Ok, t)" by simp
    then show ?thesis by (cases rule: detach_Ok) (rule tags_inv_keep [OF assms(1)], auto)
  next
    case (Stake h amount)
    with assms(3) True have "stake E og h amount s = (Ok, t)" by simp
    then show ?thesis by (cases rule: stake_Ok) (rule tags_inv_keep [OF assms(1)], auto)
  next
    case (Unstake h)
    with assms(3) True have "unstake C og h s = (Ok, t)" by simp
    then show ?thesis by (cases rule: unstake_Ok) (rule tags_inv_keep [OF assms(1)], auto)
  qed
next
  case False
  then show ?thesis using assms protos_dispatch_Ok_or_same by fastforce
qed

lemma tags_inv_run:
  assumes "tags_inv s" and "unat (TagsIndex s) + sum_list (map (tag_demand \<circ> snd) cs) < 2 ^ 64"
  shows "tags_inv (protos_run C E cs s)"
  using assms
proof (induction cs arbitrary: s)
  case (Cons oc cs)
  obtain og c where oc: "oc = (og, c)" by (cases oc)
  obtain r t where d: "protos_dispatch C E og c s = (r, t)" by fastforce
  have "tags_inv t \<and> unat (TagsIndex t) \<le> unat (TagsIndex s) + tag_demand c"
    using tags_inv_dispatch [OF Cons.prems(1) _ d] Cons.prems(2) by (simp add: oc)
  then show ?case using Cons.IH [of t] Cons.prems(2) by (simp add: oc d)
qed simp

lemma stake_keeps: "stake E og h amount s = (Ok, t) \<Longrightarrow> ProtoStakes s x \<noteq> None \<Longrightarrow> ProtoStakes t x \<noteq> None"
  by (erule stake_Ok) simp

lemma unstake_keeps:
  "unstake C og h s = (Ok, t) \<Longrightarrow> og \<noteq> Signed a \<Longrightarrow> ProtoStakes t (h', a) = ProtoStakes s (h', a)"
  by (erule unstake_Ok) auto

end
