(* ===== verification/Clamor_Text.thy ===== *)
theory Clamor_Text
  imports Clamor_System
begin

text \<open>
  Text and JSON as the off-chain code and the queries use them: the hexadecimal form of a
  \<open>u64\<close>, UTF-8, slices of strings, and JSON values (\<open>serde_json::Value\<close>) whose objects are
  ordered maps. Strings are their UTF-8 bytes.
\<close>

section \<open>Numbers in hexadecimal\<close>

definition hex_digit :: "nat \<Rightarrow> u8" where
  "hex_digit d = (if d < 10 then of_nat (48 + d) else of_nat (87 + d))"

fun lower_hex_nat :: "nat \<Rightarrow> bytes" where
  "lower_hex_nat n = (if n < 16 then [hex_digit n] else lower_hex_nat (n div 16) @ [hex_digit (n mod 16)])"

declare lower_hex_nat.simps [simp del]

text \<open>\<open>format!("{:x}", w)\<close>.\<close>

definition lower_hex :: "u64 \<Rightarrow> bytes" where
  "lower_hex w = lower_hex_nat (unat w)"

text \<open>\<open>char::to_digit(16)\<close>.\<close>

definition to_digit16 :: "u8 \<Rightarrow> nat option" where
  "to_digit16 c =
     (if 48 \<le> c \<and> c \<le> 57 then Some (unat c - 48)
      else if 97 \<le> c \<and> c \<le> 102 then Some (unat c - 87)
      else if 65 \<le> c \<and> c \<le> 70 then Some (unat c - 55)
      else None)"

text \<open>
  \<open>u64::from_str_radix(s, 16)\<close>: an optional \<open>+\<close> and at least one digit, without overflow.
\<close>

fun parse_hex_digits :: "bytes \<Rightarrow> u64 \<Rightarrow> u64 option" where
  "parse_hex_digits [] n = Some n"
| "parse_hex_digits (c # cs) n =
     (case to_digit16 c of None \<Rightarrow> None
      | Some d \<Rightarrow> (if unat n * 16 + d < 2 ^ 64 then parse_hex_digits cs (n * 16 + of_nat d) else None))"

definition u64_from_hex :: "bytes \<Rightarrow> u64 option" where
  "u64_from_hex s =
     (if s = [] \<or> s = [43] \<or> s = [45] then None
      else if hd s = 43 then parse_hex_digits (tl s) 0 else parse_hex_digits s 0)"

lemma to_digit16_hex_digit:
  assumes "d < 16" shows "to_digit16 (hex_digit d) = Some d"
proof -
  have u: "unat (of_nat n :: u8) = n" if "n < 256" for n
    using that by (intro unat_of_nat_small) simp
  show ?thesis
  proof (cases "d < 10")
    case True
    then have "unat (hex_digit d) = 48 + d" by (simp add: hex_digit_def u del: of_nat_add)
    then show ?thesis using True by (simp add: to_digit16_def word_le_nat_alt)
  next
    case False
    then have "unat (hex_digit d) = 87 + d" using assms by (simp add: hex_digit_def u del: of_nat_add)
    then show ?thesis using False assms by (simp add: to_digit16_def word_le_nat_alt)
  qed
qed

lemma parse_hex_digits_append:
  "parse_hex_digits (xs @ ys) n = (case parse_hex_digits xs n of None \<Rightarrow> None | Some m \<Rightarrow> parse_hex_digits ys m)"
  by (induction xs arbitrary: n) (auto split: option.split)

lemma parse_lower_hex: "n < 2 ^ 64 \<Longrightarrow> parse_hex_digits (lower_hex_nat n) 0 = Some (of_nat n)"
proof (induction n rule: lower_hex_nat.induct)
  case (1 n)
  show ?case
  proof (cases "n < 16")
    case True
    then show ?thesis by (simp add: lower_hex_nat.simps to_digit16_hex_digit)
  next
    case False
    have small: "n div 16 < 2 ^ 64" using 1(2) by (simp add: less_mult_imp_div_less)
    then have u: "unat (of_nat (n div 16) :: u64) = n div 16" by (intro unat_of_nat_small) simp
    have "(of_nat (n div 16) * 16 + of_nat (n mod 16) :: u64) = of_nat (n div 16 * 16 + n mod 16)"
      by (simp only: of_nat_add of_nat_mult of_nat_numeral)
    also have "\<dots> = of_nat n" by (simp only: div_mult_mod_eq)
    finally have sum: "(of_nat (n div 16) * 16 + of_nat (n mod 16) :: u64) = of_nat n" .
    show ?thesis
      unfolding lower_hex_nat.simps [of n]
      using False 1 small u sum by (simp add: parse_hex_digits_append to_digit16_hex_digit)
  qed
qed

lemma lower_hex_nat_hd: "lower_hex_nat n \<noteq> [] \<and> hd (lower_hex_nat n) \<noteq> 43 \<and> hd (lower_hex_nat n) \<noteq> 45"
proof (induction n rule: lower_hex_nat.induct)
  case (1 n)
  have digit: "hex_digit n \<noteq> 43 \<and> hex_digit n \<noteq> 45" if "n < 16"
    using to_digit16_hex_digit [OF that] by (auto simp: to_digit16_def)
  show ?case
    unfolding lower_hex_nat.simps [of n] using 1 digit by (cases "n < 16") (auto simp: hd_append)
qed

text \<open>A format and its parser: what is printed reads back.\<close>

locale text_codec =
  fixes print :: "'a \<Rightarrow> bytes" and parse :: "bytes \<Rightarrow> 'a option"
  assumes parse_print: "parse (print x) = Some x"
begin

lemma print_inj: "print x = print y \<longleftrightarrow> x = y"
  by (metis option.inject parse_print)

lemma print_inj_on: "inj_on print S"
  by (simp add: inj_on_def print_inj)

end

interpretation hex_u64: text_codec lower_hex u64_from_hex
proof
  fix x :: u64
  show "u64_from_hex (lower_hex x) = Some x"
    using lower_hex_nat_hd [of "unat x"] parse_lower_hex [of "unat x"] unsigned_less [of x]
    by (auto simp: u64_from_hex_def lower_hex_def)
qed

section \<open>Strings\<close>

text \<open>Continuation bytes, and \<open>String::from_utf8\<close> succeeding.\<close>

definition utf8_cont :: "u8 \<Rightarrow> bool" where
  "utf8_cont c \<longleftrightarrow> 0x80 \<le> c \<and> c \<le> 0xBF"

fun utf8 :: "bytes \<Rightarrow> bool" where
  "utf8 [] = True"
| "utf8 (a # cs) =
     (if a \<le> 0x7F then utf8 cs
      else case cs of [] \<Rightarrow> False
      | b # cs \<Rightarrow>
     (if 0xC2 \<le> a \<and> a \<le> 0xDF then utf8_cont b \<and> utf8 cs
      else case cs of [] \<Rightarrow> False
      | c # cs \<Rightarrow>
     (if 0xE0 \<le> a \<and> a \<le> 0xEF
      then (if a = 0xE0 then 0xA0 \<le> b \<and> b \<le> 0xBF else if a = 0xED then 0x80 \<le> b \<and> b \<le> 0x9F else utf8_cont b)
        \<and> utf8_cont c \<and> utf8 cs
      else case cs of [] \<Rightarrow> False
      | d # cs \<Rightarrow>
     (if 0xF0 \<le> a \<and> a \<le> 0xF4
      then (if a = 0xF0 then 0x90 \<le> b \<and> b \<le> 0xBF else if a = 0xF4 then 0x80 \<le> b \<and> b \<le> 0x8F else utf8_cont b)
        \<and> utf8_cont c \<and> utf8_cont d \<and> utf8 cs
      else False))))"

lemma utf8_ascii: "(\<forall>c \<in> set cs. c \<le> 0x7F) \<Longrightarrow> utf8 cs"
  by (induction cs) auto

text \<open>\<open>&s[n..]\<close>: a panic (\<open>None\<close>) beyond the end and inside a character.\<close>

definition str_from :: "nat \<Rightarrow> bytes \<Rightarrow> bytes option" where
  "str_from n s = (if n > length s \<or> (n < length s \<and> utf8_cont (s ! n)) then None else Some (drop n s))"

section \<open>JSON values\<close>

text \<open>
  The variants of \<open>serde_json::Value\<close>. The map of an object is a \<open>BTreeMap\<close> (the feature
  \<open>preserve_order\<close> is off in \<open>Cargo.lock\<close>): the entries in the order of their keys.
\<close>

datatype json = JNull | JBool bool | JNumber u64 | JString bytes | JArray "json list"
  | JObject "(bytes \<times> json) list"

fun btree_insert :: "'k::linorder \<Rightarrow> 'v \<Rightarrow> ('k \<times> 'v) list \<Rightarrow> ('k \<times> 'v) list" where
  "btree_insert k v [] = [(k, v)]"
| "btree_insert k v ((k', v') # m) =
     (if k < k' then (k, v) # (k', v') # m else if k = k' then (k, v) # m
      else (k', v') # btree_insert k v m)"

definition btree :: "('k::linorder \<times> 'v) list \<Rightarrow> bool" where
  "btree m \<longleftrightarrow> sorted_wrt (<) (map fst m)"

lemma btree_Nil [simp]: "btree []"
  by (simp add: btree_def)

lemma map_of_btree_insert [simp]: "map_of (btree_insert k v m) = (map_of m)(k \<mapsto> v)"
  by (induction k v m rule: btree_insert.induct) (auto simp: fun_upd_twist)

lemma keys_btree_insert [simp]: "fst ` set (btree_insert k v m) = insert k (fst ` set m)"
  by (induction k v m rule: btree_insert.induct) auto

lemma btree_insert_btree [simp]: "btree m \<Longrightarrow> btree (btree_insert k v m)"
proof (induction k v m rule: btree_insert.induct)
  case (2 k v k' v' m)
  then show ?case
    using keys_btree_insert [of k v m] by (auto simp: btree_def)
qed (simp add: btree_def)

text \<open>An ordered map is determined by what it maps.\<close>

lemma btree_eqI:
  assumes "btree m" and "btree n" and "map_of m = map_of n" shows "m = n"
proof -
  have sd: "sorted (map fst l) \<and> distinct (map fst l)" if "btree l" for l :: "('a \<times> 'b) list"
    using that by (simp add: btree_def strict_sorted_iff)
  have "set l = {(k, v). map_of l k = Some v}" if "btree l" for l :: "('a \<times> 'b) list"
    using sd [OF that] by (auto simp: map_of_eq_Some_iff)
  then have "set m = set n" using assms by simp
  then show ?thesis using sd assms(1,2) by (intro map_sorted_distinct_set_unique [where f = fst])
      (auto simp: distinct_map)
qed

end
