(* ===== verification/Protos_Query.thy ===== *)
theory Protos_Query
  imports Protos Clamor_Text
begin

text \<open>
  The query \<open>get_protos\<close> of \<open>pallets/protos/src/lib.rs\<close>: the Proto-Fragments of an owner or of
  all categories, filtered, one page of them, as a JSON object whose keys are the hashes in
  hexadecimal. The hexadecimal forms of the crates \<open>hex\<close> and \<open>primitive-types\<close>, the text of a
  JSON value and the order in which the storage iterates over categories are parameters, and
  so is the width of \<open>usize\<close> (32 bits in the WebAssembly runtime).
\<close>

record 'c query_env =
  hex_encode :: "bytes \<Rightarrow> bytes"
  hex_decode :: "bytes \<Rightarrow> bytes option"
  lower_hex_h160 :: "h160 \<Rightarrow> bytes"
  lower_hex_u256 :: "u256 \<Rightarrow> bytes"
  json_text :: "json \<Rightarrow> bytes"
  iter_categories :: "'c set \<Rightarrow> 'c list"
  usize_bits :: nat

section \<open>Which Proto-Fragments\<close>

text \<open>\<open>n as usize\<close>.\<close>

definition as_usize :: "('c, 'z) query_env_scheme \<Rightarrow> u64 \<Rightarrow> nat" where
  "as_usize Q n = unat n mod 2 ^ usize_bits Q"

definition page :: "('c, 'z) query_env_scheme \<Rightarrow> 'c get_protos_params \<Rightarrow> 'a list \<Rightarrow> 'a list" where
  "page Q params l = take (as_usize Q (gp_limit params)) (drop (as_usize Q (gp_from params)) l)"

definition matching :: "('b, 'c, 'x) protos_state_scheme \<Rightarrow> 'c get_protos_params \<Rightarrow> hash256 list \<Rightarrow> hash256 list" where
  "matching s params protos =
     filter (\<lambda>proto_id. filter_proto s proto_id (gp_tags params) (gp_categories params) (gp_available params))
       (if gp_desc params then rev protos else protos)"

definition protos_of_categories :: "('c, 'z) query_env_scheme \<Rightarrow> 'c get_protos_params
    \<Rightarrow> ('b, 'c, 'x) protos_state_scheme \<Rightarrow> hash256 list" where
  "protos_of_categories Q params s =
     (let cats = iter_categories Q {c. ProtosByCategory s c \<noteq> None};
          cats = (if gp_desc params then rev cats else cats)
      in concat (map (\<lambda>category.
           if gp_categories params \<noteq> [] \<and> category \<notin> set (gp_categories params) then []
           else case ProtosByCategory s category of None \<Rightarrow> [] | Some protos \<Rightarrow> matching s params protos) cats))"

text \<open>\<open>None\<close>: the owner has no list.\<close>

definition list_protos :: "('c, 'z) query_env_scheme \<Rightarrow> 'c get_protos_params
    \<Rightarrow> ('b, 'c, 'x) protos_state_scheme \<Rightarrow> hash256 list option" where
  "list_protos Q params s =
     (case gp_owner params of
        Some owner \<Rightarrow>
          (case ProtosByOwner s (User owner) of
             None \<Rightarrow> None
           | Some list_protos_owner \<Rightarrow> Some (page Q params (matching s params list_protos_owner)))
      | None \<Rightarrow> Some (page Q params (protos_of_categories Q params s)))"

section \<open>What is said about them\<close>

definition owner_json :: "('c, 'z) query_env_scheme \<Rightarrow> proto_owner \<Rightarrow> json" where
  "owner_json Q ow =
     (case ow of
        User account_id \<Rightarrow> JObject (btree_insert (ascii ''type'') (JString (ascii ''internal''))
          (btree_insert (ascii ''value'') (JString (hex_encode Q account_id)) []))
      | ExternalAsset (Erc721 contract token_id (Evm _ _ chain_id)) \<Rightarrow>
          (let value = JObject
             (btree_insert (ascii ''type'') (JString (ascii ''erc721''))
             (btree_insert (ascii ''value'') (JObject
                (btree_insert (ascii ''contract'') (JString (ascii ''0x'' @ lower_hex_h160 Q contract))
                (btree_insert (ascii ''token_id'') (JString (ascii ''0x'' @ lower_hex_u256 Q token_id))
                (btree_insert (ascii ''chain_id'') (JString (ascii ''0x'' @ lower_hex_u256 Q chain_id)) [])))) []))
           in JObject (btree_insert (ascii ''type'') (JString (ascii ''external''))
                (btree_insert (ascii ''value'') value []))))"

definition metadata_json :: "('c, 'z) query_env_scheme \<Rightarrow> ('b, 'c, 'x) protos_state_scheme \<Rightarrow> 'c proto
    \<Rightarrow> bytes \<Rightarrow> json" where
  "metadata_json Q s proto metadata_key =
     (case MetaKeys s metadata_key of
        None \<Rightarrow> JNull
      | Some metadata_key_index \<Rightarrow>
          (case proto_metadata proto metadata_key_index of
             None \<Rightarrow> JNull
           | Some data_hash \<Rightarrow> JString (hex_encode Q data_hash)))"

text \<open>The metadata keys that are text; a later key replaces an earlier field of its name.\<close>

fun put_metadata :: "('c, 'z) query_env_scheme \<Rightarrow> ('b, 'c, 'x) protos_state_scheme \<Rightarrow> 'c proto
    \<Rightarrow> bytes list \<Rightarrow> (bytes \<times> json) list \<Rightarrow> (bytes \<times> json) list" where
  "put_metadata Q s proto [] map_proto = map_proto"
| "put_metadata Q s proto (metadata_key # metadata_keys) map_proto =
     put_metadata Q s proto metadata_keys
       (if utf8 metadata_key then btree_insert metadata_key (metadata_json Q s proto metadata_key) map_proto
        else map_proto)"

definition describe_proto :: "('c, 'z) query_env_scheme \<Rightarrow> 'c get_protos_params
    \<Rightarrow> ('b, 'c, 'x) protos_state_scheme \<Rightarrow> 'c proto \<Rightarrow> (bytes \<times> json) list \<Rightarrow> (bytes \<times> json) list" where
  "describe_proto Q params s proto map_proto =
     (let m = btree_insert (ascii ''include_cost'')
                (case proto_include_cost proto of Some n \<Rightarrow> JNumber n | None \<Rightarrow> JNull) map_proto;
          m = (if gp_return_owners params
               then btree_insert (ascii ''owner'') (owner_json Q (proto_owned_by proto)) m else m)
      in put_metadata Q s proto (gp_metadata_keys params) m)"

text \<open>The loop over the entries of the result, with its four errors.\<close>

fun describe_all :: "('c, 'z) query_env_scheme \<Rightarrow> 'c get_protos_params \<Rightarrow> ('b, 'c, 'x) protos_state_scheme
    \<Rightarrow> (bytes \<times> json) list \<Rightarrow> bytes + (bytes \<times> json) list" where
  "describe_all Q params s [] = Inr []"
| "describe_all Q params s ((proto_id, map_proto) # entries) =
     (case hex_decode Q proto_id of
        None \<Rightarrow> Inl (ascii ''Failed to decode proto_id'')
      | Some array_proto_id \<Rightarrow>
     (if length array_proto_id \<noteq> 32 then Inl (ascii ''Failed to convert proto_id to Hash256'')
      else case Protos s array_proto_id of
        None \<Rightarrow> Inl (ascii ''Failed to get proto'')
      | Some proto \<Rightarrow>
     (case map_proto of
        JObject map_proto \<Rightarrow>
          (case describe_all Q params s entries of
             Inl e \<Rightarrow> Inl e
           | Inr entries \<Rightarrow> Inr ((proto_id, JObject (describe_proto Q params s proto map_proto)) # entries))
      | _ \<Rightarrow> Inl (ascii ''Failed to get map_proto''))))"

definition result_map :: "('c, 'z) query_env_scheme \<Rightarrow> hash256 list \<Rightarrow> (bytes \<times> json) list" where
  "result_map Q ids = fold (\<lambda>proto_id m. btree_insert (hex_encode Q proto_id) (JObject []) m) ids []"

definition get_protos :: "('c, 'z) query_env_scheme \<Rightarrow> 'c get_protos_params
    \<Rightarrow> ('b, 'c, 'x) protos_state_scheme \<Rightarrow> bytes + bytes" where
  "get_protos Q params s =
     (case list_protos Q params s of
        None \<Rightarrow> Inl (ascii ''Owner not found'')
      | Some ids \<Rightarrow>
          (if gp_return_owners params \<or> gp_metadata_keys params \<noteq> []
           then (case describe_all Q params s (result_map Q ids) of
                   Inl e \<Rightarrow> Inl e
                 | Inr m \<Rightarrow> Inr (json_text Q (JObject m)))
           else Inr (json_text Q (JObject (result_map Q ids)))))"

section \<open>The answer\<close>

text \<open>The entry of a Proto-Fragment: empty unless owners or metadata were asked for.\<close>

definition proto_entry :: "('c, 'z) query_env_scheme \<Rightarrow> 'c get_protos_params
    \<Rightarrow> ('b, 'c, 'x) protos_state_scheme \<Rightarrow> hash256 \<Rightarrow> json" where
  "proto_entry Q params s h =
     (if gp_return_owners params \<or> gp_metadata_keys params \<noteq> []
      then JObject (describe_proto Q params s (the (Protos s h)) []) else JObject [])"

text \<open>The Proto-Fragments that the request matches, in no order.\<close>

definition matches :: "'c get_protos_params \<Rightarrow> ('b, 'c, 'x) protos_state_scheme \<Rightarrow> hash256 \<Rightarrow> bool" where
  "matches params s h \<longleftrightarrow>
     filter_proto s h (gp_tags params) (gp_categories params) (gp_available params) \<and>
     (\<forall>a. gp_owner params = Some a \<longrightarrow> owner_of s h = Some (User a))"

lemma set_matching: "set (matching s params protos) =
  {h \<in> set protos. filter_proto s h (gp_tags params) (gp_categories params) (gp_available params)}"
  by (auto simp: matching_def)

lemma set_page: "set (page Q params l) \<subseteq> set l"
  by (auto simp: page_def dest: in_set_takeD in_set_dropD)

lemma filter_proto_stored: "filter_proto s h tags cats avail \<Longrightarrow> \<exists>p. Protos s h = Some p"
  by (auto simp: filter_proto_def split: option.splits)

lemma list_protos_stored: "list_protos Q params s = Some ids \<Longrightarrow> h \<in> set ids \<Longrightarrow> Protos s h \<noteq> None"
  by (auto simp: list_protos_def protos_of_categories_def set_matching Let_def
      split: option.splits if_splits dest!: set_page [THEN subsetD] dest: filter_proto_stored)

lemma result_map_btree: "btree m \<Longrightarrow> btree (fold (\<lambda>h m. btree_insert (hex_encode Q h) (JObject []) m) ids m)"
  by (induction ids arbitrary: m) auto

lemma map_of_result_map:
  "map_of (result_map Q ids) k = (if k \<in> hex_encode Q ` set ids then Some (JObject []) else None)"
proof -
  have "map_of (fold (\<lambda>h m. btree_insert (hex_encode Q h) (JObject []) m) ids m) k =
    (if k \<in> hex_encode Q ` set ids then Some (JObject []) else map_of m k)" for m
    by (induction ids arbitrary: m) auto
  then show ?thesis by (simp add: result_map_def)
qed

lemma describe_all_Inr:
  assumes "text_codec (hex_encode Q) (hex_decode Q)" and "\<forall>(k, v) \<in> set entries. v = JObject [] \<and>
      (\<exists>h p. k = hex_encode Q h \<and> length h = 32 \<and> Protos s h = Some p)"
  shows "describe_all Q params s entries = Inr (map (\<lambda>(k, v). (k, JObject (describe_proto Q params s
    (the (Protos s (the (hex_decode Q k)))) []))) entries)"
  using assms(2)
proof (induction entries)
  case (Cons e es)
  then obtain h p where e: "e = (hex_encode Q h, JObject [])" "length h = 32" "Protos s h = Some p" by auto
  then show ?case using Cons by (simp add: text_codec.parse_print [OF assms(1)])
qed simp

lemma map_of_entries: "map_of (map (\<lambda>(k, v). (k, f k)) xs) k = map_option (\<lambda>_. f k) (map_of xs k)"
  by (induction xs) auto

lemma get_protos_answer:
  assumes codec: "text_codec (hex_encode Q) (hex_decode Q)" and sized: "\<And>h. Protos s h \<noteq> None \<Longrightarrow> length h = 32"
    and ids: "list_protos Q params s = Some ids"
  obtains m where "get_protos Q params s = Inr (json_text Q (JObject m))" and "btree m"
    and "map_of m = (\<lambda>k. if k \<in> hex_encode Q ` set ids
           then Some (proto_entry Q params s (the (hex_decode Q k))) else None)"
proof -
  let ?r = "result_map Q ids"
  have r: "btree ?r" unfolding result_map_def by (rule result_map_btree) simp
  show ?thesis
  proof (cases "gp_return_owners params \<or> gp_metadata_keys params \<noteq> []")
    case False
    then show ?thesis
      using ids r by (intro that [of ?r]) (auto simp: get_protos_def map_of_result_map proto_entry_def)
  next
    case True
    let ?d = "\<lambda>k. JObject (describe_proto Q params s (the (Protos s (the (hex_decode Q k)))) [])"
    let ?m = "map (\<lambda>(k, v). (k, ?d k)) ?r"
    have sd: "distinct (map fst ?r)" using r by (simp add: btree_def strict_sorted_iff)
    have "v = JObject [] \<and> (\<exists>h p. k = hex_encode Q h \<and> length h = 32 \<and> Protos s h = Some p)"
      if "(k, v) \<in> set ?r" for k v
    proof -
      have "map_of ?r k = Some v" using that sd by simp
      then obtain h where "v = JObject []" "k = hex_encode Q h" "h \<in> set ids"
        by (auto simp: map_of_result_map split: if_splits)
      then show ?thesis using list_protos_stored [OF ids, of h] sized [of h] by auto
    qed
    then have "describe_all Q params s ?r = Inr ?m"
      by (intro describe_all_Inr [OF codec]) auto
    moreover have "btree ?m" using r by (simp add: btree_def comp_def case_prod_unfold)
    moreover note map_of_entries [of ?d ?r]
    ultimately show ?thesis
      using ids True by (intro that [of ?m]) (auto simp: get_protos_def map_of_result_map proto_entry_def)
  qed
qed

section \<open>Completeness, order and errors\<close>

text \<open>The whole list, of which a request shows one page.\<close>

definition all_matching :: "('c, 'z) query_env_scheme \<Rightarrow> 'c get_protos_params
    \<Rightarrow> ('b, 'c, 'x) protos_state_scheme \<Rightarrow> hash256 list option" where
  "all_matching Q params s =
     (case gp_owner params of
        Some owner \<Rightarrow> map_option (matching s params) (ProtosByOwner s (User owner))
      | None \<Rightarrow> Some (protos_of_categories Q params s))"

lemma list_protos_page: "list_protos Q params s = map_option (page Q params) (all_matching Q params s)"
  by (simp add: list_protos_def all_matching_def split: option.split)

text \<open>Iterating over the storage visits every category that has an entry.\<close>

definition iterates_categories :: "('c, 'z) query_env_scheme \<Rightarrow> ('b, 'c, 'x) protos_state_scheme \<Rightarrow> bool" where
  "iterates_categories Q s \<longleftrightarrow> set (iter_categories Q {c. ProtosByCategory s c \<noteq> None}) = {c. ProtosByCategory s c \<noteq> None}"

lemma set_protos_of_categories:
  assumes "iterates_categories Q s"
  shows "h \<in> set (protos_of_categories Q params s) \<longleftrightarrow> (\<exists>c. ProtosByCategory s c \<noteq> None \<and>
      (gp_categories params = [] \<or> c \<in> set (gp_categories params)) \<and>
      h \<in> set (listed (ProtosByCategory s) c) \<and>
      filter_proto s h (gp_tags params) (gp_categories params) (gp_available params))"
proof -
  let ?part = "\<lambda>c. if gp_categories params \<noteq> [] \<and> c \<notin> set (gp_categories params) then []
           else case ProtosByCategory s c of None \<Rightarrow> [] | Some protos \<Rightarrow> matching s params protos"
  have part: "h \<in> set (?part c) \<longleftrightarrow> (gp_categories params = [] \<or> c \<in> set (gp_categories params)) \<and>
      h \<in> set (listed (ProtosByCategory s) c) \<and>
      filter_proto s h (gp_tags params) (gp_categories params) (gp_available params)" for c
    by (cases "ProtosByCategory s c") (auto simp: listed_def set_matching)
  have "set (protos_of_categories Q params s) = (\<Union>c \<in> {c. ProtosByCategory s c \<noteq> None}. set (?part c))"
    using assms by (simp only: protos_of_categories_def Let_def set_concat set_map if_distrib [of set] set_rev
      iterates_categories_def image_image if_cancel)
  then show ?thesis by (simp only: UN_iff mem_Collect_eq part) blast
qed

lemma set_all_matching:
  assumes "index_inv s" and "iterates_categories Q s" and "all_matching Q params s = Some l"
  shows "h \<in> set l \<longleftrightarrow> matches params s h"
proof (cases "gp_owner params")
  case (Some a)
  then obtain protos where "ProtosByOwner s (User a) = Some protos" "l = matching s params protos"
    using assms(3) by (auto simp: all_matching_def)
  then show ?thesis
    using by_owner.listed_iff [OF assms(1), of h "User a"] Some by (auto simp: matches_def set_matching listed_def)
next
  case None
  have cat: "h \<in> set (listed (ProtosByCategory s) c) \<longleftrightarrow> category_of s h = Some c" for c
    by (rule by_category.listed_iff [OF assms(1)])
  have "filter_proto s h (gp_tags params) (gp_categories params) (gp_available params) \<Longrightarrow>
      \<exists>c. category_of s h = Some c \<and> (gp_categories params = [] \<or> c \<in> set (gp_categories params))"
    by (auto simp: filter_proto_def category_of_def list_ex_iff split: option.splits if_splits)
  moreover have "l = protos_of_categories Q params s" using assms(3) None by (simp add: all_matching_def)
  then have "h \<in> set l \<longleftrightarrow> (\<exists>c. ProtosByCategory s c \<noteq> None \<and>
      (gp_categories params = [] \<or> c \<in> set (gp_categories params)) \<and>
      h \<in> set (listed (ProtosByCategory s) c) \<and>
      filter_proto s h (gp_tags params) (gp_categories params) (gp_available params))"
    by (simp only: set_protos_of_categories [OF assms(2)])
  moreover have "ProtosByCategory s c \<noteq> None" if "h \<in> set (listed (ProtosByCategory s) c)" for c
    using that by (cases "ProtosByCategory s c") (auto simp: listed_def)
  ultimately show ?thesis using cat None by (auto simp: matches_def)
qed

text \<open>Pages of one size show the whole list, in its order.\<close>

lemma take_drop_pages: "length l \<le> k * n \<Longrightarrow> concat (map (\<lambda>i. take n (drop (i * n) l)) [0..<k]) = l"
proof (induction k arbitrary: l)
  case (Suc k)
  have shift: "[0..<Suc k] = 0 # map Suc [0..<k]" by (simp add: map_Suc_upt upt_conv_Cons)
  have "concat (map (\<lambda>i. take n (drop (i * n) (drop n l))) [0..<k]) = drop n l"
    using Suc.prems by (intro Suc.IH) simp
  then show ?case
    by (simp add: shift comp_def add.commute del: upt_Suc)
qed simp

lemma matching_desc: "set (matching s (p\<lparr>gp_desc := d\<rparr>) protos) = set (matching s p protos)"
  by (simp add: set_matching)

lemma all_matching_desc:
  "rel_option (\<lambda>l l'. set l = set l' \<and> length l = length l')
     (all_matching Q (p\<lparr>gp_desc := True\<rparr>) s) (all_matching Q (p\<lparr>gp_desc := False\<rparr>) s)"
proof -
  have m: "matching s (p\<lparr>gp_desc := True\<rparr>) l = rev (matching s (p\<lparr>gp_desc := False\<rparr>) l)" for l
    by (simp add: matching_def rev_filter)
  have "protos_of_categories Q (p\<lparr>gp_desc := True\<rparr>) s = rev (protos_of_categories Q (p\<lparr>gp_desc := False\<rparr>) s)"
    by (simp add: protos_of_categories_def Let_def rev_concat rev_map comp_def m split: option.split)
      (auto intro!: arg_cong [of _ _ concat] map_cong split: option.split simp: m)
  then show ?thesis by (auto simp: all_matching_def m option.rel_map split: option.split intro: option.rel_refl)
qed

section \<open>The width of hashes\<close>

text \<open>The model's byte strings carry no length; the ones stored as \<open>Hash256\<close> have 32 bytes.\<close>

definition hashes_sized :: "('b, 'c, 'x) protos_state_scheme \<Rightarrow> bool" where
  "hashes_sized s \<longleftrightarrow> (\<forall>h p. Protos s h = Some p \<longrightarrow> length h = 32 \<and>
     (\<forall>pa \<in> set (proto_patches p). length (patch_data_hash pa) = 32) \<and>
     (\<forall>i v. proto_metadata p i = Some v \<longrightarrow> length v = 32))"

lemma hashes_sizedI:
  assumes "\<And>h p. Protos s h = Some p \<Longrightarrow> length h = 32 \<and>
     (\<forall>pa \<in> set (proto_patches p). length (patch_data_hash pa) = 32) \<and>
     (\<forall>i v. proto_metadata p i = Some v \<longrightarrow> length v = 32)"
  shows "hashes_sized s"
  using assms by (simp add: hashes_sized_def)

lemma hashes_sized_upd:
  assumes "hashes_sized s" and "Protos t = (Protos s)(h \<mapsto> p)" and "length h = 32"
    and "\<forall>pa \<in> set (proto_patches p). length (patch_data_hash pa) = 32"
    and "\<forall>i v. proto_metadata p i = Some v \<longrightarrow> length v = 32"
  shows "hashes_sized t"
  using assms by (auto simp: hashes_sized_def)

lemma hashes_sized_same: "hashes_sized s \<Longrightarrow> Protos t = Protos s \<Longrightarrow> hashes_sized t"
  by (simp add: hashes_sized_def)

lemma hashes_sized_dispatch:
  assumes inv: "hashes_sized s" and call: "protos_dispatch C E og c s = (r, t)"
    and hash: "\<And>b. length (blake2_256 E b) = 32"
  shows "hashes_sized t"
proof (cases "r = Ok")
  case True
  note old = inv [unfolded hashes_sized_def, rule_format]
  show ?thesis
  proof (cases c)
    case (Upload refs cat tags asset cost data)
    with call True have "upload E og refs cat tags asset cost data s = (Ok, t)" by simp
    then show ?thesis
      by (cases rule: upload_Ok) (rule hashes_sized_upd [OF inv, of _ "blake2_256 E data"], auto simp: hash)
  next
    case (Patch h cost refs tags data)
    with call True have "patch E og h cost refs tags data s = (Ok, t)" by simp
    then show ?thesis
    proof (cases rule: patch_Ok)
      case (1 who p ei "is" m n)
      show ?thesis
        by (rule hashes_sized_upd [OF inv, of _ h])
          (use old [OF 1(2)] in \<open>auto simp: 1(8) hash patched_def split: if_splits\<close>)
    qed
  next
    case (Transfer h a)
    with call True have "transfer og h a s = (Ok, t)" by simp
    then show ?thesis
      by (cases rule: transfer_Ok) (rule hashes_sized_upd [OF inv, of _ h], auto dest: old)
  next
    case (Set_metadata h key data)
    with call True have "set_metadata E og h key data s = (Ok, t)" by simp
    then show ?thesis
    proof (cases rule: set_metadata_Ok)
      case (1 who p ei i m n)
      show ?thesis
        by (rule hashes_sized_upd [OF inv, of _ h]) (use old [OF 1(2)] in \<open>auto simp: 1(7) hash split: if_splits\<close>)
    qed
  next
    case (Detach h chain a)
    with call True inv show ?thesis by (auto elim!: detach_Ok intro: hashes_sized_same)
  next
    case (Stake h amount)
    with call True inv show ?thesis by (auto elim!: stake_Ok intro: hashes_sized_same)
  next
    case (Unstake h)
    with call True inv show ?thesis by (auto elim!: unstake_Ok intro: hashes_sized_same)
  qed
next
  case False
  then show ?thesis using inv call protos_dispatch_Ok_or_same by blast
qed

lemma hashes_sized_run:
  "hashes_sized s \<Longrightarrow> (\<And>b. length (blake2_256 E b) = 32) \<Longrightarrow> hashes_sized (protos_run C E cs s)"
proof (induction cs arbitrary: s)
  case (Cons oc cs)
  obtain og c where oc: "oc = (og, c)" by (cases oc)
  obtain r t where d: "protos_dispatch C E og c s = (r, t)" by fastforce
  have "hashes_sized t" by (rule hashes_sized_dispatch [OF Cons.prems(1) d Cons.prems(2)])
  then show ?case using Cons by (simp add: oc d)
qed simp

end
