(* ===== verification/Runtime_Config.thy ===== *)
theory Runtime_Config
  imports Protos
begin

text \<open>
  The constants of \<open>runtime/src/lib.rs\<close>: the time units, the storage deposit, and the
  configuration the runtime gives to the pallets.
\<close>

section \<open>Time\<close>

definition MILLISECS_PER_BLOCK :: u64 where "MILLISECS_PER_BLOCK = 6000"

definition SLOT_DURATION :: u64 where "SLOT_DURATION = MILLISECS_PER_BLOCK"

definition MINUTES :: block_num where "MINUTES = 60000 div MILLISECS_PER_BLOCK"

definition HOURS :: block_num where "HOURS = MINUTES * 60"

definition DAYS :: block_num where "DAYS = HOURS * 24"

definition MinimumPeriod :: u64 where "MinimumPeriod = SLOT_DURATION div 2"

section \<open>Deposits\<close>

definition MILLICENTS :: balance where "MILLICENTS = 1000000000"

definition CENTS :: balance where "CENTS = 1000 * MILLICENTS"

definition DOLLARS :: balance where "DOLLARS = 100 * CENTS"

text \<open>\<open>items as Balance * 15 * CENTS + (bytes as Balance) * 6 * CENTS\<close>.\<close>

definition deposit :: "u32 \<Rightarrow> u32 \<Rightarrow> balance" where
  "deposit items bytes = ucast items * 15 * CENTS + ucast bytes * 6 * CENTS"

definition DepositPerItem :: balance where "DepositPerItem = deposit 1 0"

definition DepositPerByte :: balance where "DepositPerByte = deposit 0 1"

definition ExistentialDeposit :: balance where "ExistentialDeposit = 500"

section \<open>Configuration of the pallets\<close>

text \<open>The FRAG contract whose events the accounts worker fetches.\<close>

definition partner_contracts :: "bytes list" where
  "partner_contracts = [ascii ''0x34670f29e28b5dc0c47a8cc22d221bf26929f9ac'']"

definition runtime_config :: protos_config where
  "runtime_config = \<lparr>EthChainId = 5, EthConfirmations = 1, Threshold = 1,
     ProxyDepositBase = 1, ProxyDepositFactor = 1, MaxProxies = 4,
     StorageBytesMultiplier = 10, StakeLockupPeriod = 5\<rparr>"

lemma runtime_config_simps [simp]:
  "EthChainId runtime_config = 5" "EthConfirmations runtime_config = 1"
  "Threshold runtime_config = 1" "MaxProxies runtime_config = 4"
  "StorageBytesMultiplier runtime_config = 10" "StakeLockupPeriod runtime_config = 5"
  "ProxyDepositBase runtime_config = 1" "ProxyDepositFactor runtime_config = 1"
  by (simp_all add: runtime_config_def)

text \<open>The deposit fits its type: neither the products nor the sum wrap around.\<close>

lemma deposit_exact:
  "unat (deposit items bytes) = (unat items * 15 + unat bytes * 6) * 10 ^ 12"
proof -
  have i: "unat items < 2 ^ 32" and b: "unat bytes < 2 ^ 32"
    using unsigned_less [of items] unsigned_less [of bytes] by simp_all
  have "deposit items bytes = of_nat ((unat items * 15 + unat bytes * 6) * 10 ^ 12)"
    by (simp add: deposit_def CENTS_def MILLICENTS_def algebra_simps)
  moreover have "(unat items * 15 + unat bytes * 6) * 10 ^ 12 < 2 ^ LENGTH(128)"
    using i b by simp
  ultimately show ?thesis by (simp only: unat_of_nat_small)
qed

end
