(* ===== verification/Detach_Worker.thy ===== *)
theory Detach_Worker
  imports Detach
begin

text \<open>
  The off-chain worker of \<open>pallets/detach/src/lib.rs\<close>: after every block it takes the queued
  detach requests from the node's local database, signs each one with a local key that is
  an Ethereum authority, and submits an unsigned transaction with the signature. The
  keystore (\<open>sp_io::crypto\<close>) and the submission of transactions are parameters.
\<close>

section \<open>The node's side\<close>

text \<open>
  \<open>send_unsigned\<close> is \<open>Signer::any_account().send_unsigned_transaction\<close>: it picks an account of
  the keystore, builds the payload for it, signs it and submits it; \<open>None\<close> when no account
  is available.
\<close>

record 'k offchain_ext =
  ed25519_public_keys :: "'k \<Rightarrow> bytes list"
  ed25519_sign :: "'k \<Rightarrow> bytes \<Rightarrow> bytes \<Rightarrow> bytes option"
  ecdsa_generate :: "'k \<Rightarrow> bytes \<Rightarrow> 'k"
  ecdsa_public_keys :: "'k \<Rightarrow> bytes list"
  ecdsa_sign_prehashed :: "'k \<Rightarrow> bytes \<Rightarrow> bytes \<Rightarrow> bytes option"
  hex_encode_to_slice :: "bytes \<Rightarrow> bytes option"
  send_unsigned :: "'k \<Rightarrow> (multi_signer \<Rightarrow> detach_internal_data) \<Rightarrow> (detach_internal_data \<times> bytes) option"

text \<open>
  The state of the worker: the keystore, the local database entry
  \<open>fragments-frag-ecdsa-keys\<close>, and the transactions submitted so far.
\<close>

record 'k worker =
  keystore :: 'k
  frag_ecdsa_keys :: "bytes set option"
  submitted :: "(detach_internal_data \<times> bytes) list"

text \<open>
  How the handling of a request ends: with a value, with an error that is only logged, with
  \<open>return Err(FAILED)\<close> out of the whole batch, or with a panic.
\<close>

datatype 'a handled = Done 'a | Failed detach_error | Aborted | Panicked

section \<open>The signed payload\<close>

fun detach_chain_id :: "supported_chains \<Rightarrow> u256" where
  "detach_chain_id EthereumMainnet = 1"
| "detach_chain_id EthereumRinkeby = 4"
| "detach_chain_id EthereumGoerli = 5"

definition add_chainid_to_payload :: "detach_request \<Rightarrow> bytes \<Rightarrow> bytes" where
  "add_chainid_to_payload request payload =
     payload @ be_bytes 32 (detach_chain_id (req_target_chain request))"

text \<open>\<open>copy_from_slice\<close> panics unless the account has 20 bytes.\<close>

definition add_target_account_to_payload :: "detach_request \<Rightarrow> bytes \<Rightarrow> bytes option" where
  "add_target_account_to_payload request payload =
     (if length (req_target_account request) = 20 then Some (payload @ req_target_account request)
      else None)"

text \<open>\<open>checked_add(1).unwrap()\<close> panics when the nonces of the account are used up.\<close>

definition add_nonce_to_payload :: "('b, 'x) detach_state_scheme \<Rightarrow> detach_request \<Rightarrow> bytes
    \<Rightarrow> (u64 \<times> bytes) option" where
  "add_nonce_to_payload s request payload =
     (case DetachNonces s (req_target_account request, req_target_chain request) of
        Some nonce \<Rightarrow>
          (case checked_add nonce 1 of None \<Rightarrow> None
           | Some nonce' \<Rightarrow> Some (nonce', payload @ be_bytes 8 nonce'))
      | None \<Rightarrow> Some (1, payload @ be_bytes 8 (1 :: u64)))"

definition sign_payload :: "('b, 'y) ext_scheme \<Rightarrow> ('k, 'z) offchain_ext_scheme \<Rightarrow> 'k
    \<Rightarrow> bytes \<Rightarrow> bytes \<Rightarrow> bytes option" where
  "sign_payload E W k key payload =
     (let msg = keccak_256 E (0x19 # ascii ''Ethereum Signed Message:'' @ [0x0a] @ ascii ''32''
                              @ keccak_256 E payload)
      in ecdsa_sign_prehashed W k key msg)"

section \<open>Keys\<close>

text \<open>The seed of the ECDSA key that goes with an Ed25519 key; \<open>None\<close> is a failed \<open>unwrap\<close>.\<close>

definition generate_seed_from_ed_key :: "('b, 'y) ext_scheme \<Rightarrow> ('k, 'z) offchain_ext_scheme \<Rightarrow> 'k
    \<Rightarrow> bytes \<Rightarrow> bytes option" where
  "generate_seed_from_ed_key E W k ed_key =
     (case ed25519_sign W k ed_key (ascii ''fragments-frag-ecdsa-keys'' @ ed_key) of
        None \<Rightarrow> None
      | Some sig \<Rightarrow>
          map_option (\<lambda>key_hex. ascii ''0x'' @ key_hex) (hex_encode_to_slice W (keccak_256 E sig)))"

definition get_keys_set_from_local_storage :: "('k, 'w) worker_scheme \<Rightarrow> bytes set" where
  "get_keys_set_from_local_storage w = (case frag_ecdsa_keys w of Some keys \<Rightarrow> keys | None \<Rightarrow> {})"

text \<open>
  The loop over the node's Ed25519 keys: for each one not recorded yet an ECDSA key is
  generated. The result is whether it went through, the keystore, the recorded keys and
  whether they changed; the keystore keeps the keys generated before a panic.
\<close>

fun derive_keys :: "('b, 'y) ext_scheme \<Rightarrow> ('k, 'z) offchain_ext_scheme \<Rightarrow> bytes list
    \<Rightarrow> 'k \<times> bytes set \<times> bool \<Rightarrow> bool \<times> 'k \<times> bytes set \<times> bool" where
  "derive_keys E W [] r = (True, r)"
| "derive_keys E W (ed_key # eds) (k, keys, edited) =
     (if ed_key \<in> keys then derive_keys E W eds (k, keys, edited)
      else case generate_seed_from_ed_key E W k ed_key of
        None \<Rightarrow> (False, k, keys, edited)
      | Some seed \<Rightarrow> derive_keys E W eds (ecdsa_generate W k seed, insert ed_key keys, True))"

definition update_keys :: "('b, 'y) ext_scheme \<Rightarrow> ('k, 'z) offchain_ext_scheme
    \<Rightarrow> ('k, 'w) worker_scheme \<Rightarrow> bool \<times> ('k, 'w) worker_scheme" where
  "update_keys E W w =
     (case derive_keys E W (ed25519_public_keys W (keystore w))
             (keystore w, get_keys_set_from_local_storage w, False) of
        (False, k, _) \<Rightarrow> (False, w\<lparr>keystore := k\<rparr>)
      | (True, k, keys, edited) \<Rightarrow>
          (True, if edited then w\<lparr>keystore := k, frag_ecdsa_keys := Some keys\<rparr>
                 else w\<lparr>keystore := k\<rparr>))"

section \<open>The batch\<close>

text \<open>\<open>signature[64] += 27u8\<close>: the recovery id in the form Ethereum expects.\<close>

definition fix_signature :: "bytes \<Rightarrow> bytes" where
  "fix_signature sig = sig[64 := sig ! 64 + 27]"

definition sign_request :: "('b, 'y) ext_scheme \<Rightarrow> ('k, 'z) offchain_ext_scheme
    \<Rightarrow> ('b, 'x) detach_state_scheme \<Rightarrow> 'k \<Rightarrow> detach_request \<Rightarrow> (bytes \<times> u64) handled" where
  "sign_request E W s k request =
     (case find (\<lambda>key. key \<in> EthereumAuthorities s) (ecdsa_public_keys W k) of
        None \<Rightarrow> Failed NoValidator
      | Some key \<Rightarrow>
          (let payload = add_chainid_to_payload request (req_hash request)
           in if length (req_target_account request) \<noteq> 20 then Aborted
              else case add_target_account_to_payload request payload of
                None \<Rightarrow> Panicked
              | Some payload \<Rightarrow>
                  (case add_nonce_to_payload s request payload of
                     None \<Rightarrow> Panicked
                   | Some (nonce, payload) \<Rightarrow>
                       (case sign_payload E W k key payload of
                          None \<Rightarrow> Failed SigningFailed
                        | Some signature \<Rightarrow> Done (fix_signature signature, nonce)))))"

definition submit_detach :: "('k, 'z) offchain_ext_scheme \<Rightarrow> detach_request \<Rightarrow> bytes \<Rightarrow> u64
    \<Rightarrow> ('k, 'w) worker_scheme \<Rightarrow> ('k, 'w) worker_scheme" where
  "submit_detach W request signature nonce w =
     (case send_unsigned W (keystore w)
             (\<lambda>public. \<lparr>det_public = public, det_hash = req_hash request,
                det_target_chain = req_target_chain request,
                det_target_account = req_target_account request,
                det_remote_signature = signature, det_nonce = nonce\<rparr>) of
        None \<Rightarrow> w
      | Some transaction \<Rightarrow> w\<lparr>submitted := submitted w @ [transaction]\<rparr>)"

fun process_requests :: "('b, 'y) ext_scheme \<Rightarrow> ('k, 'z) offchain_ext_scheme
    \<Rightarrow> ('b, 'x) detach_state_scheme \<Rightarrow> detach_request list
    \<Rightarrow> ('k, 'w) worker_scheme \<Rightarrow> unit handled \<times> ('k, 'w) worker_scheme" where
  "process_requests E W s [] w = (Done (), w)"
| "process_requests E W s (request # requests) w =
     (case update_keys E W w of
        (False, w1) \<Rightarrow> (Panicked, w1)
      | (True, w1) \<Rightarrow>
          (case sign_request E W s (keystore w1) request of
             Done (signature, nonce) \<Rightarrow>
               process_requests E W s requests (submit_detach W request signature nonce w1)
           | Failed e \<Rightarrow> process_requests E W s requests w1
           | Aborted \<Rightarrow> (Aborted, w1)
           | Panicked \<Rightarrow> (Panicked, w1)))"

text \<open>
  \<open>process_detach_requests\<close>: the queue is replaced by an empty one when the closure returns
  \<open>Ok\<close> and left alone otherwise. What was submitted or generated on the way stays.
\<close>

definition process_detach_requests :: "('b, 'y) ext_scheme \<Rightarrow> ('k, 'z) offchain_ext_scheme
    \<Rightarrow> ('b, 'x) detach_state_scheme \<Rightarrow> ('k, 'w) worker_scheme
    \<Rightarrow> ('b, 'x) detach_state_scheme \<times> ('k, 'w) worker_scheme" where
  "process_detach_requests E W s w =
     (case offchain_requests s of
        None \<Rightarrow> (s, w)
      | Some requests \<Rightarrow>
          (case process_requests E W s requests w of
             (Done _, w') \<Rightarrow> (s\<lparr>offchain_requests := Some []\<rparr>, w')
           | (_, w') \<Rightarrow> (s, w')))"

section \<open>What is signed\<close>

text \<open>The message behind a signature, as one list of 92 bytes.\<close>

definition detach_message :: "detach_request \<Rightarrow> u64 \<Rightarrow> bytes" where
  "detach_message r nonce = req_hash r @ be_bytes 32 (detach_chain_id (req_target_chain r))
     @ req_target_account r @ be_bytes 8 nonce"

lemma detach_chain_id_eq_iff [simp]: "detach_chain_id c = detach_chain_id d \<longleftrightarrow> c = d"
  by (cases c; cases d) simp_all

lemma detach_message_eq_iff:
  assumes "length (req_hash r) = length (req_hash r')"
    and "length (req_target_account r) = length (req_target_account r')"
  shows "detach_message r n = detach_message r' n' \<longleftrightarrow>
    req_hash r = req_hash r' \<and> req_target_chain r = req_target_chain r' \<and>
    req_target_account r = req_target_account r' \<and> n = n'"
  using assms by (auto simp: detach_message_def be_bytes_eq_iff)

lemma sign_request_Done:
  assumes "sign_request E W s k r = Done (sig, nonce)"
  obtains key raw where "key \<in> EthereumAuthorities s" and "key \<in> set (ecdsa_public_keys W k)"
    and "length (req_target_account r) = 20"
    and "sign_payload E W k key (detach_message r nonce) = Some raw" and "sig = fix_signature raw"
    and "add_nonce_to_payload s r [] = Some (nonce, be_bytes 8 nonce)"
proof -
  from assms obtain key p where key: "find (\<lambda>key. key \<in> EthereumAuthorities s) (ecdsa_public_keys W k) = Some key"
    and len: "length (req_target_account r) = 20"
    and nonce: "add_nonce_to_payload s r (add_chainid_to_payload r (req_hash r) @ req_target_account r) = Some (nonce, p)"
    and raw: "map_option fix_signature (sign_payload E W k key p) = Some sig"
    by (auto simp: sign_request_def add_target_account_to_payload_def Let_def
        split: option.splits if_splits prod.splits)
  have "p = detach_message r nonce" "add_nonce_to_payload s r [] = Some (nonce, be_bytes 8 nonce)"
    using nonce by (auto simp: add_nonce_to_payload_def add_chainid_to_payload_def detach_message_def
        split: option.splits)
  then show ?thesis
    using that key len raw by (auto simp: find_Some_iff)
qed

section \<open>Running a batch\<close>

text \<open>All the node's Ed25519 keys have their ECDSA key already.\<close>

definition keys_recorded :: "('k, 'z) offchain_ext_scheme \<Rightarrow> ('k, 'w) worker_scheme \<Rightarrow> bool" where
  "keys_recorded W w \<longleftrightarrow>
     set (ed25519_public_keys W (keystore w)) \<subseteq> get_keys_set_from_local_storage w"

lemma derive_keys_recorded:
  "set eds \<subseteq> keys \<Longrightarrow> derive_keys E W eds (k, keys, edited) = (True, k, keys, edited)"
  by (induction eds) auto

lemma update_keys_recorded: "keys_recorded W w \<Longrightarrow> update_keys E W w = (True, w)"
  by (simp add: update_keys_def keys_recorded_def derive_keys_recorded)

text \<open>
  The first run records every key, if it does not panic; the recorded keys only grow.
\<close>

lemma derive_keys_grow:
  "derive_keys E W eds (k, keys, edited) = (True, k', keys', edited') \<Longrightarrow>
   keys' = keys \<union> set eds \<and> (edited' \<longleftrightarrow> edited \<or> \<not> set eds \<subseteq> keys)"
proof (induction eds arbitrary: k keys edited)
  case (Cons e eds)
  then show ?case by (cases "e \<in> keys") (auto split: option.splits)
qed auto

lemma update_keys_records:
  assumes "update_keys E W w = (True, w')"
    and "ed25519_public_keys W (keystore w') = ed25519_public_keys W (keystore w)"
  shows "keys_recorded W w'"
proof -
  obtain ok k keys edited where d: "derive_keys E W (ed25519_public_keys W (keystore w))
      (keystore w, get_keys_set_from_local_storage w, False) = (ok, k, keys, edited)"
    by (metis prod_cases4)
  then have ok: ok and w': "w' = (if edited then w\<lparr>keystore := k, frag_ecdsa_keys := Some keys\<rparr>
      else w\<lparr>keystore := k\<rparr>)"
    using assms(1) by (auto simp: update_keys_def split: bool.splits)
  with d derive_keys_grow show ?thesis
    using assms(2) by (fastforce simp: keys_recorded_def get_keys_set_from_local_storage_def)
qed

text \<open>The transaction a signed request leads to, if an account can send it.\<close>

definition detach_transaction :: "('k, 'z) offchain_ext_scheme \<Rightarrow> 'k \<Rightarrow> detach_request \<Rightarrow> bytes \<times> u64
    \<Rightarrow> (detach_internal_data \<times> bytes) option" where
  "detach_transaction W k r v =
     send_unsigned W k (\<lambda>public. \<lparr>det_public = public, det_hash = req_hash r,
       det_target_chain = req_target_chain r, det_target_account = req_target_account r,
       det_remote_signature = fst v, det_nonce = snd v\<rparr>)"

lemma submit_detach_transaction:
  "submit_detach W r sig n w = w\<lparr>submitted := submitted w
     @ (case detach_transaction W (keystore w) r (sig, n) of None \<Rightarrow> [] | Some t \<Rightarrow> [t])\<rparr>"
  by (simp add: submit_detach_def detach_transaction_def split: option.split)

text \<open>The transactions of the requests at the head of a batch that are not aborted.\<close>

definition batch_transactions :: "('b, 'y) ext_scheme \<Rightarrow> ('k, 'z) offchain_ext_scheme
    \<Rightarrow> ('b, 'x) detach_state_scheme \<Rightarrow> 'k \<Rightarrow> detach_request list
    \<Rightarrow> (detach_internal_data \<times> bytes) list" where
  "batch_transactions E W s k rs = concat (map (\<lambda>r.
     case sign_request E W s k r of
       Done v \<Rightarrow> (case detach_transaction W k r v of None \<Rightarrow> [] | Some t \<Rightarrow> [t])
     | _ \<Rightarrow> []) rs)"

lemma batch_transactions_simps [simp]:
  "batch_transactions E W s k [] = []"
  "batch_transactions E W s k (r # rs) =
    (case sign_request E W s k r of
       Done v \<Rightarrow> (case detach_transaction W k r v of None \<Rightarrow> [] | Some t \<Rightarrow> [t])
     | _ \<Rightarrow> []) @ batch_transactions E W s k rs"
  by (simp_all add: batch_transactions_def)

lemma in_batch_transactions:
  "t \<in> set (batch_transactions E W s k rs) \<longleftrightarrow>
   (\<exists>r \<in> set rs. \<exists>v. sign_request E W s k r = Done v \<and> detach_transaction W k r v = Some t)"
proof (induction rs)
  case (Cons r rs)
  then show ?case
    by (cases "sign_request E W s k r"; cases "detach_transaction W k r (case sign_request E W s k r of Done v \<Rightarrow> v)")
      auto
qed simp

lemma keys_recorded_submitted [simp]: "keys_recorded W (w\<lparr>submitted := ts\<rparr>) = keys_recorded W w"
  by (simp add: keys_recorded_def get_keys_set_from_local_storage_def)

lemma process_requests_prefix:
  assumes "keys_recorded W w"
    and "\<And>r. r \<in> set rs \<Longrightarrow> sign_request E W s (keystore w) r \<noteq> Aborted \<and>
           sign_request E W s (keystore w) r \<noteq> Panicked"
  shows "process_requests E W s (rs @ rest) w =
    process_requests E W s rest (w\<lparr>submitted := submitted w @ batch_transactions E W s (keystore w) rs\<rparr>)"
  using assms
proof (induction rs arbitrary: w)
  case (Cons r rs)
  let ?ts = "case sign_request E W s (keystore w) r of
       Done v \<Rightarrow> (case detach_transaction W (keystore w) r v of None \<Rightarrow> [] | Some t \<Rightarrow> [t]) | _ \<Rightarrow> []"
  have "process_requests E W s ((r # rs) @ rest) w =
      process_requests E W s (rs @ rest) (w\<lparr>submitted := submitted w @ ?ts\<rparr>)"
    using Cons.prems(1) Cons.prems(2) [of r]
    by (auto simp: update_keys_recorded submit_detach_transaction split: handled.splits)
  also have "\<dots> = process_requests E W s rest (w\<lparr>submitted := submitted w @ ?ts @ batch_transactions E W s (keystore w) rs\<rparr>)"
    using Cons.IH [of "w\<lparr>submitted := submitted w @ ?ts\<rparr>"] Cons.prems by simp
  finally show ?case by simp
qed simp

section \<open>Nonces\<close>

definition same_target :: "detach_request \<Rightarrow> detach_request \<Rightarrow> bool" where
  "same_target r r' \<longleftrightarrow> req_target_account r = req_target_account r' \<and> req_target_chain r = req_target_chain r'"

lemma add_nonce_same_target:
  assumes "same_target r r'" and "add_nonce_to_payload s r p = Some (n, p @ b)"
  shows "add_nonce_to_payload s r' q = Some (n, q @ b)"
  using assms by (auto simp: add_nonce_to_payload_def same_target_def split: option.splits)

lemma checked_add_one: "checked_add n 1 = (if n = - 1 then None else Some (n + 1 :: u64))"
  using unat_less_max [of n] by (auto simp: checked_add_def unsigned_minus_1_eq_mask mask_eq_exp_minus_1)

section \<open>What a run submits\<close>

text \<open>The transaction \<open>t\<close> carries a signature of request \<open>r\<close> by a key of the node.\<close>

definition signs_request :: "('b, 'y) ext_scheme \<Rightarrow> ('k, 'z) offchain_ext_scheme
    \<Rightarrow> ('b, 'x) detach_state_scheme \<Rightarrow> detach_request \<Rightarrow> detach_internal_data \<times> bytes \<Rightarrow> bool" where
  "signs_request E W s r t \<longleftrightarrow> (\<exists>k v. sign_request E W s k r = Done v \<and> detach_transaction W k r v = Some t)"

lemma update_keys_submitted: "update_keys E W w = (ok, w') \<Longrightarrow> submitted w' = submitted w"
  by (auto simp: update_keys_def split: prod.splits bool.splits if_splits)

lemma submit_detach_signs:
  assumes "sign_request E W s (keystore w) r = Done (sig, n)" and "t \<in> set (submitted (submit_detach W r sig n w))"
  shows "t \<in> set (submitted w) \<or> signs_request E W s r t"
proof (cases "detach_transaction W (keystore w) r (sig, n)")
  case (Some u)
  then have "signs_request E W s r u" unfolding signs_request_def using assms(1) by blast
  then show ?thesis using assms(2) by (auto simp: submit_detach_transaction Some)
qed (use assms(2) in \<open>simp add: submit_detach_transaction\<close>)

lemma process_requests_submitted:
  "process_requests E W s rs w = (h, w') \<Longrightarrow> t \<in> set (submitted w') \<Longrightarrow>
    t \<in> set (submitted w) \<or> (\<exists>r \<in> set rs. signs_request E W s r t)"
proof (induction rs arbitrary: w)
  case (Cons r rs)
  obtain ok w1 where u: "update_keys E W w = (ok, w1)" by fastforce
  note w1 = update_keys_submitted [OF u]
  show ?case
  proof (cases "ok \<and> (\<exists>sig n. sign_request E W s (keystore w1) r = Done (sig, n))")
    case True
    then obtain sig n where v: ok "sign_request E W s (keystore w1) r = Done (sig, n)" by blast
    have "process_requests E W s rs (submit_detach W r sig n w1) = (h, w')" using Cons.prems(1) u v by simp
    from Cons.IH [OF this Cons.prems(2)] submit_detach_signs [OF v(2), of t] show ?thesis by (auto simp: w1)
  next
    case False
    then have "process_requests E W s rs w1 = (h, w') \<or> w' = w1"
      using Cons.prems(1) u by (cases ok; cases "sign_request E W s (keystore w1) r") auto
    then show ?thesis
    proof
      assume "process_requests E W s rs w1 = (h, w')"
      from Cons.IH [OF this Cons.prems(2)] show ?thesis by (auto simp: w1)
    qed (use Cons.prems(2) w1 in simp)
  qed
qed simp

lemma process_detach_requests_submitted:
  assumes "process_detach_requests E W s w = (s', w')" and "t \<in> set (submitted w')"
  shows "t \<in> set (submitted w) \<or> (\<exists>rs. offchain_requests s = Some rs \<and> (\<exists>r \<in> set rs. signs_request E W s r t))"
proof (cases "offchain_requests s")
  case (Some rs)
  obtain h w1 where p: "process_requests E W s rs w = (h, w1)" by fastforce
  then have "w' = w1" using assms(1) Some by (cases h) (simp_all add: process_detach_requests_def)
  then show ?thesis using process_requests_submitted [OF p] assms(2) Some by simp
qed (use assms in \<open>simp add: process_detach_requests_def\<close>)

lemma process_detach_requests_queue:
  "process_detach_requests E W s w = (s', w') \<Longrightarrow>
    offchain_requests s' = offchain_requests s \<or> offchain_requests s' = Some []"
  by (auto simp: process_detach_requests_def split: option.splits handled.splits prod.splits)

lemma signs_request_fields:
  assumes "signs_request E W s r (d, sig)"
    and "\<And>k f d sig. send_unsigned W k f = Some (d, sig) \<Longrightarrow> \<exists>public. d = f public"
  shows "det_hash d = req_hash r" and "det_target_chain d = req_target_chain r"
    and "det_target_account d = req_target_account r" and "length (req_target_account r) = 20"
proof -
  from assms(1) obtain k v where v: "sign_request E W s k r = Done v" and "detach_transaction W k r v = Some (d, sig)"
    unfolding signs_request_def by blast
  with assms(2) show "det_hash d = req_hash r" "det_target_chain d = req_target_chain r"
    "det_target_account d = req_target_account r" by (fastforce simp: detach_transaction_def)+
  show "length (req_target_account r) = 20" using v by (cases v) (auto elim: sign_request_Done)
qed

end
