(* ===== verification/Accounts_Properties.thy ===== *)
theory Accounts_Properties
  imports Accounts
begin

text \<open>
  Properties of the pallet \<open>accounts\<close>: consistency of the links, atomicity of failing calls,
  the vote on lock events and its finality, unlinking, sponsored accounts, and the check of
  unsigned transactions; and the concrete environment the witnesses are evaluated in.
\<close>

section \<open>A concrete environment\<close>

text \<open>
  One instance of the environment, used by the witnesses only: every hash is the identity,
  a signature carries the recovered key, and the currency grants every request.
\<close>

fun sample_encode_public :: "multi_signer \<Rightarrow> bytes" where
  "sample_encode_public (Ed25519 b) = 0 # b"
| "sample_encode_public (Sr25519 b) = 1 # b"
| "sample_encode_public (Ecdsa b) = 2 # b"

fun sample_decode_signer :: "bytes \<Rightarrow> multi_signer option" where
  "sample_decode_signer [] = None"
| "sample_decode_signer (t # b) =
     (if t = 0 then Some (Ed25519 b) else if t = 1 then Some (Sr25519 b)
      else if t = 2 then Some (Ecdsa b) else None)"

fun sample_encode_lock :: "u256 \<times> h160 \<times> bytes \<times> bool \<times> u64 \<Rightarrow> bytes" where
  "sample_encode_lock (a, sd, sg, l, n) = be_bytes 32 a @ sd @ sg @ [if l then 1 else 0] @ be_bytes 8 n"

fun sample_encode_external :: "external_id \<Rightarrow> bytes" where
  "sample_encode_external (Discord n) = 0 # be_bytes 8 n"

definition sample_ext :: "unit accounts_ext" where
  "sample_ext = \<lparr>blake2_256 = (\<lambda>b. b), blake2_128 = (\<lambda>b. b), keccak_256 = (\<lambda>b. b),
     ecdsa_recover = (\<lambda>sig msg. Some sig), encode_account = (\<lambda>a. a), decode_account = Some,
     to_base58 = (\<lambda>b. b), minimum_balance = 500, free_balance = (\<lambda>_ _. 1000000),
     reserve = (\<lambda>b _ _. Some b), transfer_keep_alive = (\<lambda>b _ _ _. Some b),
     asset_minimum_balance = (\<lambda>_ _. 1), asset_balance = (\<lambda>_ _ _. 1000000),
     asset_transfer = (\<lambda>b _ _ _ _. Some b),
     encode_public = sample_encode_public, decode_multi_signer = sample_decode_signer,
     verify_detach = (\<lambda>_ sig. sig \<noteq> []), encode_lock_tuple = sample_encode_lock,
     encode_external_id = sample_encode_external, verify_lock = (\<lambda>_ sig. sig \<noteq> [])\<rparr>"

text \<open>The configuration of the runtime, but for the threshold: it is 1 there.\<close>

definition sample_config :: "u64 \<Rightarrow> config" where
  "sample_config threshold = \<lparr>EthChainId = 5, EthConfirmations = 1, Threshold = threshold,
     ProxyDepositBase = 1, ProxyDepositFactor = 1, MaxProxies = 4\<rparr>"

definition empty_accounts :: "unit accounts_state" where
  "empty_accounts = \<lparr>block_number = 1, extrinsic_index = Some 0, now = 0, balances = (), indexed = [],
     DetachRequests = [], DetachNonces = Map.empty, DetachedHashes = Map.empty,
     EthereumAuthorities = {}, detach_FragKeys = {}, detach_events = [], offchain_requests = None,
     EthLockedFrag = Map.empty, EVMLinks = Map.empty, EVMLinksReverse = Map.empty,
     FragUsage = Map.empty, EVMLinkVoting = Map.empty, EVMLinkVotingClosed = Map.empty,
     PendingUnlinks = [], accounts_FragKeys = {}, ExternalID2Account = Map.empty,
     Proxies = Map.empty, accounts_events = []\<rparr>"

lemma empty_accounts_inv: "accounts_inv empty_accounts"
  by (simp add: empty_accounts_def accounts_inv_def links_inv_def usage_inv_def)

text \<open>An Ethereum account locks 100 FRAG; the signature recovers to it.\<close>

definition sample_lock :: eth_lock_update where
  "sample_lock = \<lparr>elu_public = Ed25519 [7], elu_amount = 100, elu_sender = [9],
     elu_signature = replicate 12 0 @ [9], elu_lock = True, elu_block_number = 3\<rparr>"

lemma sample_lock_valid: "lock_event_valid (sample_config t) sample_ext sample_lock"
  by (simp add: lock_event_valid_def recover_address_def sample_ext_def sample_lock_def)

lemma sample_simps [simp]:
  "Threshold (sample_config n) = n"
  "elu_amount sample_lock = 100" "elu_sender sample_lock = [9]" "elu_lock sample_lock"
  "block_number empty_accounts = 1"
  "EVMLinkVoting empty_accounts = Map.empty" "EVMLinkVotingClosed empty_accounts = Map.empty"
  "EVMLinks empty_accounts = Map.empty" "EVMLinksReverse empty_accounts = Map.empty"
  by (simp_all add: sample_config_def sample_lock_def empty_accounts_def)

section \<open>Properties\<close>

text \<open>
  Whatever calls of the accounts pallet are made, by anyone and in any order, the two
  link maps stay inverse to each other and only linked accounts have a usage counter.
\<close>

theorem accounts_links_consistent:
  assumes "accounts_inv s"
  shows "accounts_inv (accounts_run C E cs s)"
  using assms by (rule accounts_inv_run)

theorem accounts_links_consistent_witness:
  "accounts_inv (accounts_run (sample_config 1) sample_ext
     [(Signed [1], Link (replicate 12 0 @ [9])), (Signed [2], Link (replicate 12 0 @ [9])),
      (Signed [1], Unlink [9])] empty_accounts)"
  by (rule accounts_links_consistent [OF empty_accounts_inv])

text \<open>
  A failing call of the accounts pallet leaves the storage as it was, also the lock
  update, which removes its vote counter before an unlinking that could fail: in a state
  with consistent links it cannot.
\<close>

theorem accounts_failure_atomic:
  assumes "accounts_inv s" and "fst (accounts_dispatch C E og c s) \<noteq> Ok"
  shows "snd (accounts_dispatch C E og c s) = s"
  using assms by (rule accounts_dispatch_failure)

theorem accounts_failure_atomic_witness:
  "snd (accounts_dispatch (sample_config 1) sample_ext (Signed [1]) (Unlink [9]) empty_accounts) = empty_accounts"
proof (rule accounts_failure_atomic [OF empty_accounts_inv])
  show "fst (accounts_dispatch (sample_config 1) sample_ext (Signed [1]) (Unlink [9]) empty_accounts) \<noteq> Ok"
    by (simp add: unlink_def unlink_account_def empty_accounts_def)
qed

text \<open>
  C13. The threshold is exact: with a threshold above 1, a valid event with fewer votes only
  has its votes counted, and the vote that reaches the threshold records the locked amount
  and closes the voting. The voters need not differ.
\<close>

theorem lock_vote_threshold:
  assumes "accounts_inv s" and "lock_event_valid C E d" and "1 < Threshold C"
    and "EVMLinkVotingClosed s (lock_data_hash E d) = None"
    and "EVMLinkVoting s (lock_data_hash E d) = None"
  shows "(length vs < unat (Threshold C) \<longrightarrow>
            submit_votes C E d vs s = with_votes (lock_data_hash E d) (length vs) s) \<and>
         (length vs = unat (Threshold C) \<longrightarrow>
            EthLockedFrag (submit_votes C E d vs s) (elu_sender d)
              = Some \<lparr>lock_amount = ucast (elu_amount d), lock_block_number = block_number s\<rparr> \<and>
            EVMLinkVotingClosed (submit_votes C E d vs s) (lock_data_hash E d) = Some (block_number s))"
proof -
  let ?r = "settle_lock d (lock_data_hash E d) (ucast (elu_amount d)) s"
  have "?r = (Ok, snd ?r)" using settle_lock_ok [OF assms(1)] by (simp add: prod_eq_iff)
  then show ?thesis
    using submit_votes_below [OF assms(2,4,5,3)] submit_votes_reach [OF assms(2,4,5,3)]
    by (auto simp: settle_lock_records)
qed

theorem lock_vote_threshold_witness:
  "EthLockedFrag (submit_votes (sample_config 2) sample_ext sample_lock
      [(Ed25519 [7], []), (Ed25519 [7], [])] empty_accounts) [9]
   = Some \<lparr>lock_amount = 100, lock_block_number = 1\<rparr>"
  using lock_vote_threshold [OF empty_accounts_inv sample_lock_valid, of 2 "[(Ed25519 [7], []), (Ed25519 [7], [])]"]
  by (simp add: sample_config_def empty_accounts_def sample_lock_def)

text \<open>
  C25. An event is processed once: after it has been settled, whatever calls follow, every
  later vote for it is refused and changes nothing.
\<close>

theorem settled_event_not_replayed:
  assumes "internal_lock_update C E NoOrigin d sig s = (Ok, t)"
    and "EVMLinkVotingClosed t (lock_data_hash E d) \<noteq> None"
  shows "internal_lock_update C E NoOrigin (voted_by p d) sig' (accounts_run C E cs t)
         = (Err (Module LinkAlreadyProcessed), accounts_run C E cs t)"
proof -
  have "EVMLinkVotingClosed (accounts_run C E cs t) (lock_data_hash E (voted_by p d)) \<noteq> None"
    using assms(2) by (simp add: accounts_run_closed)
  then show ?thesis by (simp add: internal_lock_update_def Let_def)
qed

theorem settled_event_not_replayed_witness:
  "let t = snd (internal_lock_update (sample_config 1) sample_ext NoOrigin sample_lock [] empty_accounts)
   in internal_lock_update (sample_config 1) sample_ext NoOrigin (voted_by (Ed25519 [8]) sample_lock) []
        (accounts_run (sample_config 1) sample_ext [(Signed [1], Link (replicate 12 0 @ [9]))] t)
      = (Err (Module LinkAlreadyProcessed),
         accounts_run (sample_config 1) sample_ext [(Signed [1], Link (replicate 12 0 @ [9]))] t)"
proof -
  let ?c = "internal_lock_update (sample_config 1) sample_ext NoOrigin sample_lock [] empty_accounts"
  have one: "?c = settle_lock sample_lock (lock_data_hash sample_ext sample_lock) 100 empty_accounts"
    using internal_lock_update_valid [OF sample_lock_valid [of 1], where s = empty_accounts and sig = "[]"]
    by (simp add: count_vote_def)
  have "?c = (Ok, snd ?c)"
    using settle_lock_ok [OF empty_accounts_inv] by (simp add: one prod_eq_iff)
  moreover have "EVMLinkVotingClosed (snd ?c) (lock_data_hash sample_ext sample_lock) \<noteq> None"
    using settle_lock_records(2) [of sample_lock "lock_data_hash sample_ext sample_lock" 100 empty_accounts "snd ?c"]
      calculation one by simp
  ultimately show ?thesis
    unfolding Let_def by (rule settled_event_not_replayed)
qed

text \<open>
  Linking and then unlinking gives the link tables back. What remains is the account in
  the list of stakes to be dropped at the end of the block, and no usage counter.
\<close>

theorem link_unlink_roundtrip:
  assumes "link C E (Signed a) sig s = (Ok, t)"
  shows "\<exists>k u. EVMLinks t a = Some k \<and> unlink (Signed a) k t = (Ok, u) \<and>
    EVMLinks u = EVMLinks s \<and> EVMLinksReverse u = EVMLinksReverse s \<and>
    FragUsage u = (FragUsage s)(a := None) \<and> PendingUnlinks u = PendingUnlinks s @ [a] \<and>
    EthLockedFrag u = EthLockedFrag s"
  using assms
  by (auto simp: link_def unlink_def unlink_account_def fun_upd_idem split: option.splits if_splits)

theorem link_unlink_roundtrip_witness:
  "\<exists>k u. EVMLinks (snd (link (sample_config 1) sample_ext (Signed [1]) (replicate 12 0 @ [9]) empty_accounts)) [1] = Some k \<and>
    unlink (Signed [1]) k (snd (link (sample_config 1) sample_ext (Signed [1]) (replicate 12 0 @ [9]) empty_accounts)) = (Ok, u) \<and>
    EVMLinks u = EVMLinks empty_accounts \<and> EVMLinksReverse u = EVMLinksReverse empty_accounts \<and>
    FragUsage u = (FragUsage empty_accounts)([1] := None) \<and>
    PendingUnlinks u = PendingUnlinks empty_accounts @ [[1]] \<and> EthLockedFrag u = EthLockedFrag empty_accounts"
proof (rule link_unlink_roundtrip)
  show "link (sample_config 1) sample_ext (Signed [1]) (replicate 12 0 @ [9]) empty_accounts
        = (Ok, snd (link (sample_config 1) sample_ext (Signed [1]) (replicate 12 0 @ [9]) empty_accounts))"
    by (simp add: link_def recover_address_def sample_ext_def empty_accounts_def)
qed

text \<open>
  An unlock event that goes through always succeeds and leaves the Ethereum account
  without a link and with nothing locked; the Clamor account it was linked to loses its
  usage counter and its stakes are queued for removal.
\<close>

theorem unlock_unlinks:
  assumes "accounts_inv s" and "lock_event_valid C E d" and "\<not> elu_lock d" and "Threshold C \<le> 1"
    and "EVMLinkVotingClosed s (lock_data_hash E d) = None"
  shows "\<exists>t. internal_lock_update C E NoOrigin d sig s = (Ok, t) \<and>
    EVMLinksReverse t (elu_sender d) = None \<and>
    map_option lock_amount (EthLockedFrag t (elu_sender d)) = Some 0 \<and>
    (\<forall>a. EVMLinksReverse s (elu_sender d) = Some a \<longrightarrow>
       EVMLinks t a = None \<and> FragUsage t a = None \<and> PendingUnlinks t = PendingUnlinks s @ [a])"
proof -
  let ?r = "settle_lock d (lock_data_hash E d) (ucast (elu_amount d)) s"
  have call: "internal_lock_update C E NoOrigin d sig s = ?r"
    using assms(4) internal_lock_update_valid [OF assms(2,5)] by (simp add: count_vote_def not_less [symmetric])
  have ok: "?r = (Ok, snd ?r)" using settle_lock_ok [OF assms(1)] by (simp add: prod_eq_iff)
  have amount: "(ucast (elu_amount d) :: balance) = 0" using assms(2,3) by (simp add: lock_event_valid_def)
  have "EVMLinksReverse t (elu_sender d) = None \<and>
    (\<forall>a. EVMLinksReverse s (elu_sender d) = Some a \<longrightarrow>
       EVMLinks t a = None \<and> FragUsage t a = None \<and> PendingUnlinks t = PendingUnlinks s @ [a])"
    if "?r = (Ok, t)" for t
    using that assms(3)
    by (auto simp: settle_lock_def apply_unlock_def unlink_account_def
        split: option.splits prod.splits outcome.splits if_splits)
  then show ?thesis
    using ok call amount settle_lock_records(1) [OF ok] by (intro exI [of _ "snd ?r"]) simp
qed

definition sample_unlock :: eth_lock_update where
  "sample_unlock = sample_lock\<lparr>elu_amount := 0, elu_lock := False\<rparr>"

theorem unlock_unlinks_witness:
  "\<exists>t. internal_lock_update (sample_config 1) sample_ext NoOrigin sample_unlock []
          (snd (link (sample_config 1) sample_ext (Signed [1]) (replicate 12 0 @ [9]) empty_accounts)) = (Ok, t) \<and>
    EVMLinks t [1] = None"
proof -
  let ?s = "snd (link (sample_config 1) sample_ext (Signed [1]) (replicate 12 0 @ [9]) empty_accounts)"
  have valid: "lock_event_valid (sample_config 1) sample_ext sample_unlock"
    by (simp add: lock_event_valid_def recover_address_def sample_ext_def sample_lock_def sample_unlock_def)
  have closed: "EVMLinkVotingClosed ?s (lock_data_hash sample_ext sample_unlock) = None"
    and rev: "EVMLinksReverse ?s (elu_sender sample_unlock) = Some [1]"
    by (simp_all add: link_def recover_address_def sample_ext_def empty_accounts_def sample_unlock_def sample_lock_def)
  show ?thesis
    using unlock_unlinks [OF accounts_inv_link [OF empty_accounts_inv] valid _ _ closed] rev
    by (auto simp: sample_unlock_def sample_config_def)
qed

text \<open>
  A sponsored account is determined by its sponsor and the external identity: sponsoring
  the same identity twice fails, whatever calls are made in between.
\<close>

theorem sponsor_once:
  assumes "sponsor_account C E (Signed who) x s = (Ok, t)"
  shows "\<exists>account. sponsored_account_of E who x = Some account \<and>
    ExternalID2Account t x = Some \<lparr>info_account_id = account, info_created_at = now s\<rparr> \<and>
    Proxies t account = Some ([(who, (), 0)], ProxyDepositBase C + ProxyDepositFactor C) \<and>
    sponsor_account C E (Signed who) x (accounts_run C E cs t)
      = (Err (Module AccountAlreadyExists), accounts_run C E cs t)"
proof -
  from assms obtain account where acc: "sponsored_account_of E who x = Some account"
    and prox: "Proxies t account = Some ([(who, (), 0)], ProxyDepositBase C + ProxyDepositFactor C)"
    and info: "ExternalID2Account t x = Some \<lparr>info_account_id = account, info_created_at = now s\<rparr>"
    by (auto simp: sponsor_account_def Let_def split: option.splits if_splits)
  have "Proxies (accounts_run C E cs t) account \<noteq> None"
    using prox by (simp add: proxies_grow_run)
  then show ?thesis using acc prox info by (simp add: sponsor_account_def)
qed

theorem sponsor_once_witness:
  "\<exists>account. sponsored_account_of sample_ext [1] (Discord 42) = Some account \<and>
    sponsor_account (sample_config 1) sample_ext (Signed [1]) (Discord 42)
      (snd (sponsor_account (sample_config 1) sample_ext (Signed [1]) (Discord 42) empty_accounts))
    = (Err (Module AccountAlreadyExists),
       snd (sponsor_account (sample_config 1) sample_ext (Signed [1]) (Discord 42) empty_accounts))"
proof -
  have "sponsor_account (sample_config 1) sample_ext (Signed [1]) (Discord 42) empty_accounts
    = (Ok, snd (sponsor_account (sample_config 1) sample_ext (Signed [1]) (Discord 42) empty_accounts))"
    by (simp add: sponsor_account_def sponsored_account_of_def sample_ext_def sample_config_def
        empty_accounts_def Let_def)
  from sponsor_once [OF this, where cs = "[]"] show ?thesis
    by (auto simp: sponsor_account_def)
qed

text \<open>
  The accounts pallet accepts an unsigned transaction exactly when it is a lock update
  from this node or a block, signed by an Ed25519 key that the root has registered; the
  accepted transaction is not propagated.
\<close>

theorem accounts_unsigned_accepted:
  "accounts_validate_unsigned E source c s = Valid prefix tags propagated \<longleftrightarrow>
   (\<exists>d sig key. c = Internal_lock_update d sig \<and> source \<noteq> External \<and>
      decode_multi_signer E (encode_public E (elu_public d)) = Some (Ed25519 key) \<and>
      key \<in> accounts_FragKeys s \<and> verify_lock E d sig \<and>
      prefix = ''FragLockUpdate'' \<and> \<not> propagated \<and>
      tags = (elu_public d, elu_amount d, elu_sender d, elu_signature d, elu_lock d, elu_block_number d, key))"
  by (auto simp: accounts_validate_unsigned_def split: accounts_call.splits option.splits multi_signer.splits)

end
