(* ===== verification/Detach_Properties.thy ===== *)
theory Detach_Properties
  imports Detach_Worker Accounts_Properties
begin

text \<open>
  Properties of the pallet \<open>detach\<close> and of its off-chain worker.
\<close>

section \<open>Properties\<close>

text \<open>A node with one authority key whose signatures are 65 bytes long.\<close>

definition sample_offchain :: "unit offchain_ext" where
  "sample_offchain = \<lparr>ed25519_public_keys = (\<lambda>_. []), ed25519_sign = (\<lambda>_ _ b. Some b),
     ecdsa_generate = (\<lambda>k _. k), ecdsa_public_keys = (\<lambda>_. [[3]]),
     ecdsa_sign_prehashed = (\<lambda>_ _ b. Some (take 65 b)), hex_encode_to_slice = Some,
     send_unsigned = (\<lambda>_ f. Some (f (Ed25519 [7]), [1]))\<rparr>"

definition sample_worker :: "unit worker" where
  "sample_worker = \<lparr>keystore = (), frag_ecdsa_keys = None, submitted = []\<rparr>"

definition sample_request :: "u8 \<Rightarrow> nat \<Rightarrow> detach_request" where
  "sample_request h n = \<lparr>req_hash = replicate 32 h, req_target_chain = EthereumGoerli,
     req_target_account = replicate n 1\<rparr>"

definition sample_detach_state :: "detach_request list \<Rightarrow> unit accounts_state" where
  "sample_detach_state rs = empty_accounts\<lparr>EthereumAuthorities := {[3]}, offchain_requests := Some rs\<rparr>"

lemma sample_sign_request:
  "sign_request sample_ext sample_offchain (sample_detach_state rs) () (sample_request h 20)
   = Done (fix_signature (take 65 (0x19 # ascii ''Ethereum Signed Message:'' @ [0x0a] @ ascii ''32''
        @ detach_message (sample_request h 20) 1)), 1)"
  by (simp add: sign_request_def sample_ext_def sample_offchain_def sample_detach_state_def
      sample_request_def add_target_account_to_payload_def add_nonce_to_payload_def sign_payload_def
      add_chainid_to_payload_def detach_message_def empty_accounts_def Let_def)

lemma sample_keys_recorded: "keys_recorded sample_offchain sample_worker"
  by (simp add: keys_recorded_def sample_offchain_def)

lemma sample_offchain_simps [simp]:
  "send_unsigned sample_offchain k f = Some (f (Ed25519 [7]), [1])"
  "ecdsa_public_keys sample_offchain k = [[3]]"
  "keystore sample_worker = ()" "submitted sample_worker = []"
  "EthereumAuthorities (sample_detach_state rs) = {[3]}"
  "offchain_requests (sample_detach_state rs) = Some rs"
  "length (req_target_account (sample_request h n)) = n"
  by (simp_all add: sample_offchain_def sample_worker_def sample_detach_state_def sample_request_def)

text \<open>
  C17. A signature the worker produces is one by an authority key of this node, over a
  message of 92 bytes that determines the request and the nonce: no other request has it.
\<close>

theorem signed_message_binds_request:
  assumes "sign_request E W s k r = Done (sig, nonce)" and "length (req_hash r) = 32"
  shows "(\<exists>key raw. key \<in> EthereumAuthorities s \<and> key \<in> set (ecdsa_public_keys W k) \<and>
      sign_payload E W k key (detach_message r nonce) = Some raw \<and> sig = fix_signature raw) \<and>
    length (detach_message r nonce) = 92 \<and>
    (\<forall>r' nonce'. length (req_hash r') = 32 \<and> length (req_target_account r') = 20 \<and>
      detach_message r' nonce' = detach_message r nonce \<longrightarrow>
      req_hash r' = req_hash r \<and> same_target r' r \<and> nonce' = nonce)"
proof -
  obtain key raw where "key \<in> EthereumAuthorities s" "key \<in> set (ecdsa_public_keys W k)"
    and len: "length (req_target_account r) = 20"
    and "sign_payload E W k key (detach_message r nonce) = Some raw" "sig = fix_signature raw"
    using sign_request_Done [OF assms(1)] .
  moreover have "length (detach_message r nonce) = 92"
    using assms(2) len by (simp add: detach_message_def)
  moreover have "req_hash r' = req_hash r \<and> same_target r' r \<and> nonce' = nonce"
    if "length (req_hash r') = 32" "length (req_target_account r') = 20"
      "detach_message r' nonce' = detach_message r nonce" for r' nonce'
    using that detach_message_eq_iff [of r' r nonce' nonce] assms(2) len by (simp add: same_target_def)
  ultimately show ?thesis by blast
qed

theorem signed_message_binds_request_witness:
  "length (detach_message (sample_request 5 20) 1) = 92"
proof -
  have "length (req_hash (sample_request 5 20)) = 32" by (simp add: sample_request_def)
  from signed_message_binds_request [OF sample_sign_request [of "[]"] this] show ?thesis by blast
qed

text \<open>
  A batch that no request aborts is worked off: the queue is emptied, and the
  transactions of all requests that could be signed are submitted, in the order of the queue.
\<close>

theorem worker_completes_batch:
  assumes "offchain_requests s = Some rs" and "keys_recorded W w"
    and "\<forall>r \<in> set rs. sign_request E W s (keystore w) r \<noteq> Aborted \<and>
           sign_request E W s (keystore w) r \<noteq> Panicked"
  shows "process_detach_requests E W s w =
    (s\<lparr>offchain_requests := Some []\<rparr>,
     w\<lparr>submitted := submitted w @ batch_transactions E W s (keystore w) rs\<rparr>)"
  using process_requests_prefix [OF assms(2), of rs E s "[]"] assms(1,3)
  by (simp add: process_detach_requests_def)

theorem worker_completes_batch_witness:
  "length (submitted (snd (process_detach_requests sample_ext sample_offchain
     (sample_detach_state [sample_request 5 20, sample_request 6 20]) sample_worker))) = 2"
proof -
  let ?rs = "[sample_request 5 20, sample_request 6 20]"
  have "offchain_requests (sample_detach_state ?rs) = Some ?rs" by (simp add: sample_detach_state_def)
  moreover have "keystore sample_worker = ()" by simp
  ultimately show ?thesis
    using worker_completes_batch [of "sample_detach_state ?rs" ?rs sample_offchain sample_worker sample_ext]
      sample_keys_recorded
    by (simp add: sample_sign_request detach_transaction_def)
qed




text \<open>
  The nonce of a request is one more than the last nonce finalised for its target; when
  the last one is used up, the worker panics.
\<close>

theorem nonce_follows_finalised:
  assumes "internal_finalize_detach NoOrigin d sig s = (Ok, t)"
    and "req_target_account r = det_target_account d" and "req_target_chain r = det_target_chain d"
  shows "add_nonce_to_payload t r p =
      (if det_nonce d = - 1 then None else Some (det_nonce d + 1, p @ be_bytes 8 (det_nonce d + 1)))"
proof -
  have "DetachNonces t (req_target_account r, req_target_chain r) = Some (det_nonce d)"
    using assms by (auto simp: internal_finalize_detach_def Let_def)
  then show ?thesis by (simp add: add_nonce_to_payload_def checked_add_one)
qed

definition sample_finalized :: "u64 \<Rightarrow> detach_internal_data" where
  "sample_finalized n = \<lparr>det_public = Ed25519 [7], det_hash = replicate 32 5,
     det_target_chain = EthereumGoerli, det_target_account = replicate 20 1,
     det_remote_signature = [], det_nonce = n\<rparr>"

theorem nonce_follows_finalised_witness:
  "add_nonce_to_payload (snd (internal_finalize_detach NoOrigin (sample_finalized 4) [] empty_accounts))
     (sample_request 5 20) [] = Some (5, be_bytes 8 (5 :: u64))"
proof -
  have "internal_finalize_detach NoOrigin (sample_finalized 4) [] empty_accounts
      = (Ok, snd (internal_finalize_detach NoOrigin (sample_finalized 4) [] empty_accounts))"
    by (simp add: internal_finalize_detach_def Let_def)
  from nonce_follows_finalised [OF this, of "sample_request 5 20" "[]"] show ?thesis
    by (simp add: sample_request_def sample_finalized_def)
qed

text \<open>
  The nonces are not advanced within a batch: all transactions that one run of the
  worker submits for the same target carry the same nonce, although the remote contract is
  said to use each nonce once. The submission is assumed to build the payload with the
  given function, for the account it picks.
\<close>

theorem batch_reuses_nonce:
  assumes "offchain_requests s = Some rs" and "keys_recorded W w"
    and "\<forall>r \<in> set rs. sign_request E W s (keystore w) r \<noteq> Aborted \<and>
           sign_request E W s (keystore w) r \<noteq> Panicked"
    and honest: "\<And>k f t. send_unsigned W k f = Some t \<Longrightarrow> \<exists>p. fst t = f p"
    and new: "submitted (snd (process_detach_requests E W s w)) = submitted w @ ts"
    and "t \<in> set ts" and "t' \<in> set ts"
    and target: "det_target_account (fst t) = det_target_account (fst t')"
      "det_target_chain (fst t) = det_target_chain (fst t')"
  shows "det_nonce (fst t) = det_nonce (fst t')"
proof -
  have ts: "ts = batch_transactions E W s (keystore w) rs"
    using new process_requests_prefix [OF assms(2), of rs E s "[]"] assms(1,3)
    by (simp add: process_detach_requests_def)
  have nonce: "\<exists>r. req_target_account r = det_target_account (fst t) \<and> req_target_chain r = det_target_chain (fst t) \<and>
      add_nonce_to_payload s r [] = Some (det_nonce (fst t), [] @ be_bytes 8 (det_nonce (fst t)))"
    if "t \<in> set ts" for t
  proof -
    from that obtain r sig n where signed_r: "sign_request E W s (keystore w) r = Done (sig, n)"
      and send: "detach_transaction W (keystore w) r (sig, n) = Some t"
      by (auto simp: ts in_batch_transactions)
    obtain p where p: "fst t = \<lparr>det_public = p, det_hash = req_hash r, det_target_chain = req_target_chain r,
        det_target_account = req_target_account r, det_remote_signature = sig, det_nonce = n\<rparr>"
      using honest [OF send [unfolded detach_transaction_def]] by auto
    have "add_nonce_to_payload s r [] = Some (n, be_bytes 8 n)"
      by (rule sign_request_Done [OF signed_r])
    then show ?thesis by (intro exI [of _ r]) (simp add: p)
  qed
  obtain r where r: "req_target_account r = det_target_account (fst t)" "req_target_chain r = det_target_chain (fst t)"
    and n: "add_nonce_to_payload s r [] = Some (det_nonce (fst t), [] @ be_bytes 8 (det_nonce (fst t)))"
    using nonce [OF assms(6)] by blast
  obtain r' where r': "req_target_account r' = det_target_account (fst t')" "req_target_chain r' = det_target_chain (fst t')"
    and n': "add_nonce_to_payload s r' [] = Some (det_nonce (fst t'), [] @ be_bytes 8 (det_nonce (fst t')))"
    using nonce [OF assms(7)] by blast
  have "same_target r r'" using r r' target by (simp add: same_target_def)
  from add_nonce_same_target [OF this n, of "[]"] n' show ?thesis by simp
qed

theorem batch_reuses_nonce_witness:
  "let ts = submitted (snd (process_detach_requests sample_ext sample_offchain
     (sample_detach_state [sample_request 5 20, sample_request 6 20]) sample_worker)) in
   length ts = 2 \<and> det_nonce (fst (ts ! 0)) = det_nonce (fst (ts ! 1))"
proof -
  let ?s = "sample_detach_state [sample_request 5 20, sample_request 6 20]"
  let ?ts = "submitted (snd (process_detach_requests sample_ext sample_offchain ?s sample_worker))"
  have q: "offchain_requests ?s = Some [sample_request 5 20, sample_request 6 20]" by simp
  have no_abort: "\<forall>r \<in> set [sample_request 5 20, sample_request 6 20].
      sign_request sample_ext sample_offchain ?s (keystore sample_worker) r \<noteq> Aborted \<and>
      sign_request sample_ext sample_offchain ?s (keystore sample_worker) r \<noteq> Panicked"
    by (simp add: sample_sign_request)
  have len: "length ?ts = 2"
    and same: "det_target_account (fst (?ts ! 0)) = det_target_account (fst (?ts ! 1))"
      "det_target_chain (fst (?ts ! 0)) = det_target_chain (fst (?ts ! 1))"
    by (simp_all add: process_detach_requests_def sample_sign_request detach_transaction_def
        update_keys_recorded sample_keys_recorded submit_detach_transaction) (simp_all add: sample_request_def)
  have "det_nonce (fst (?ts ! 0)) = det_nonce (fst (?ts ! 1))"
    by (rule batch_reuses_nonce [OF q sample_keys_recorded no_abort, of ?ts])
      (use len same in \<open>auto simp: nth_mem\<close>)
  with len show ?thesis by (simp add: Let_def)
qed

text \<open>
  A finalised detach records the target and the nonce of the hash, whatever was
  recorded before: a Proto-Fragment that is detached already can be detached again, to
  another account, and \<open>Error::Detached\<close> is not returned.
\<close>

theorem finalize_detach_overwrites:
  "\<exists>t. internal_finalize_detach NoOrigin d sig s = (Ok, t) \<and>
     DetachedHashes t = (DetachedHashes s)(det_hash d \<mapsto> \<lparr>exp_chain = det_target_chain d,
        exp_owner = det_target_account d, exp_nonce = det_nonce d\<rparr>) \<and>
     DetachNonces t = (DetachNonces s)((det_target_account d, det_target_chain d) \<mapsto> det_nonce d) \<and>
     detach_events t = detach_events s @ [Detach_Detached (det_hash d) (det_remote_signature d)]"
  by (simp add: internal_finalize_detach_def Let_def)

text \<open>
  Only the root changes the authorities and the keys, and only an unsigned transaction
  changes the nonces and the detached hashes; a failing call changes nothing.
\<close>

theorem detach_authorisation:
  "(og \<noteq> Root \<longrightarrow> EthereumAuthorities (snd (detach_dispatch og c s)) = EthereumAuthorities s \<and>
      detach_FragKeys (snd (detach_dispatch og c s)) = detach_FragKeys s) \<and>
   (og \<noteq> NoOrigin \<longrightarrow> DetachNonces (snd (detach_dispatch og c s)) = DetachNonces s \<and>
      DetachedHashes (snd (detach_dispatch og c s)) = DetachedHashes s) \<and>
   (fst (detach_dispatch og c s) \<noteq> Ok \<longrightarrow> snd (detach_dispatch og c s) = s)"
proof (intro conjI impI)
  assume "fst (detach_dispatch og c s) \<noteq> Ok"
  then show "snd (detach_dispatch og c s) = s"
    by (cases c) (auto intro: add_eth_auth.failed_call del_eth_auth.failed_call
        detach_add_key.failed_call detach_del_key.failed_call internal_finalize_detach.failed_call)
qed (cases c; cases og; simp add: detach_call_defs Let_def)+

theorem detach_authorisation_witness:
  "EthereumAuthorities (snd (detach_dispatch (Signed [1]) (Add_eth_auth [4]) empty_accounts)) = {} \<and>
   DetachNonces (snd (detach_dispatch Root (Internal_finalize_detach (sample_finalized 4) []) empty_accounts)) = Map.empty"
proof
  show "EthereumAuthorities (snd (detach_dispatch (Signed [1]) (Add_eth_auth [4]) empty_accounts)) = {}"
    using detach_authorisation [of "Signed [1]" "Add_eth_auth [4]" empty_accounts] by (simp add: empty_accounts_def)
  show "DetachNonces (snd (detach_dispatch Root (Internal_finalize_detach (sample_finalized 4) []) empty_accounts)) = Map.empty"
    using detach_authorisation [of Root "Internal_finalize_detach (sample_finalized 4) []" empty_accounts]
    by (simp add: empty_accounts_def)
qed

text \<open>
  The detach pallet accepts an unsigned transaction exactly when it finalises a detach,
  comes from this node or a block, and is signed by an Ed25519 key that the root has
  registered; it is not propagated, and one that is provided carries the target and nonce.
\<close>

theorem detach_unsigned_accepted:
  "detach_validate_unsigned E source c s = Valid prefix tags propagated \<longleftrightarrow>
   (\<exists>d sig key. c = Internal_finalize_detach d sig \<and> source \<noteq> External \<and>
      decode_multi_signer E (encode_public E (det_public d)) = Some (Ed25519 key) \<and>
      key \<in> detach_FragKeys s \<and> verify_detach E d sig \<and>
      prefix = ''Detach'' \<and> \<not> propagated \<and>
      tags = (det_hash d, det_target_chain d, det_target_account d, det_nonce d))"
  by (auto simp: detach_validate_unsigned_def split: detach_call.splits option.splits multi_signer.splits)

end
