(* ===== verification/Protos_Properties.thy ===== *)
theory Protos_Properties
  imports Protos Runtime_Config Detach_Properties
begin

text \<open>
  Properties of the pallet \<open>protos\<close>: consistency of the indices, who may change a
  Proto-Fragment and how, the staking requirement of uploads, tags and queries, transfers,
  metadata, and what staking and unstaking really do.
\<close>

section \<open>A concrete state\<close>

text \<open>
  An empty chain whose categories are numbers; with the sample environment data is its own
  hash.
\<close>

definition empty_protos :: "(unit, nat) protos_state" where
  "empty_protos = \<lparr>block_number = 1, extrinsic_index = Some 0, now = 0, balances = (), indexed = [],
     DetachRequests = [], DetachNonces = Map.empty, DetachedHashes = Map.empty,
     EthereumAuthorities = {}, detach_FragKeys = {}, detach_events = [], offchain_requests = None,
     EthLockedFrag = Map.empty, EVMLinks = Map.empty, EVMLinksReverse = Map.empty,
     FragUsage = Map.empty, EVMLinkVoting = Map.empty, EVMLinkVotingClosed = Map.empty,
     PendingUnlinks = [], accounts_FragKeys = {}, ExternalID2Account = Map.empty,
     Proxies = Map.empty, accounts_events = [],
     Tags = Map.empty, TagsIndex = 0, MetaKeys = Map.empty, MetaKeysIndex = 0, Protos = Map.empty,
     ProtosByCategory = Map.empty, ProtosByOwner = Map.empty, ProtoStakes = Map.empty,
     AccountStakes = Map.empty, protos_events = []\<rparr>"

lemma empty_protos_simps [simp]:
  "Tags empty_protos = Map.empty" "TagsIndex empty_protos = 0" "Protos empty_protos = Map.empty"
  "extrinsic_index empty_protos = Some 0" "block_number empty_protos = 1" "indexed empty_protos = []"
  "ProtosByOwner empty_protos = Map.empty" "ProtosByCategory empty_protos = Map.empty"
  "ProtoStakes empty_protos = Map.empty" "AccountStakes empty_protos = Map.empty"
  "protos_events empty_protos = []" "DetachedHashes empty_protos = Map.empty"
  "DetachRequests empty_protos = []" "MetaKeys empty_protos = Map.empty" "MetaKeysIndex empty_protos = 0"
  "FragUsage empty_protos = Map.empty" "PendingUnlinks empty_protos = []"
  by (simp_all add: empty_protos_def)

lemma sample_ext_simps [simp]:
  "blake2_256 sample_ext = (\<lambda>b. b)" "to_base58 sample_ext = (\<lambda>b. b)"
  "get_locked_frag_account sample_ext who = Some (who @ ascii ''frag-locked-account'')"
  by (simp_all add: sample_ext_def get_locked_frag_account_def)

lemma empty_protos_invs:
  "index_inv empty_protos" "tags_inv empty_protos" "stakes_inv empty_protos"
  by (simp_all add: index_inv_def owner_of_def [abs_def] category_of_def [abs_def] indexes_empty
      tags_inv_def numbered_empty stakes_inv_def)

text \<open>Account \<open>[1]\<close> uploads the data \<open>[7]\<close> in category 3 with the tag \<open>[4]\<close>.\<close>

definition sample_upload :: "(unit, nat) protos_state \<Rightarrow> protos_error dispatch_error outcome \<times> (unit, nat) protos_state" where
  "sample_upload = upload sample_ext (Signed [1]) [] 3 [[4]] None (Some 9) [7]"

definition sample_proto :: "nat proto" where
  "sample_proto = \<lparr>proto_block = 1, proto_patches = [], proto_include_cost = Some 9,
     proto_creator = [1], proto_owned_by = User [1], proto_references = [], proto_category = 3,
     proto_tags = [1], proto_metadata = Map.empty,
     proto_accounts_info = \<lparr>active_accounts = 0, lifetime_accounts = 0\<rparr>\<rparr>"

definition uploaded_protos :: "(unit, nat) protos_state" where
  "uploaded_protos = snd (sample_upload empty_protos)"

lemma sample_upload_ok: "sample_upload empty_protos = (Ok, uploaded_protos)"
  by (simp add: uploaded_protos_def prod_eq_iff sample_upload_def upload_def Let_def key_index_def)

lemma uploaded_protos_simps [simp]:
  "Protos uploaded_protos = [[7] \<mapsto> sample_proto]" "DetachedHashes uploaded_protos = Map.empty"
  "extrinsic_index uploaded_protos = Some 0" "block_number uploaded_protos = 1"
  "Tags uploaded_protos = [[4] \<mapsto> 1]" "ProtoStakes uploaded_protos = Map.empty"
  "PendingUnlinks uploaded_protos = []" "TagsIndex uploaded_protos = 1"
  "ProtosByOwner uploaded_protos = [User [1] \<mapsto> [[7]]]"
  by (simp_all add: uploaded_protos_def sample_upload_def upload_def Let_def key_index_def index_data_def
      sample_proto_def storage_append_def)

lemma uploaded_protos_invs: "index_inv uploaded_protos" "stakes_inv uploaded_protos"
  using index_inv_upload [OF empty_protos_invs(1) sample_upload_ok [unfolded sample_upload_def]]
  by (simp_all add: stakes_inv_def)

section \<open>Properties\<close>

text \<open>
  C11. Whatever calls are made, every Proto-Fragment is listed once under its present owner
  and once under its category, and nowhere else.
\<close>

theorem protos_index_consistent:
  assumes "index_inv s"
  shows "let t = protos_run C E cs s in
    (\<forall>h ow. h \<in> set (listed (ProtosByOwner t) ow) \<longleftrightarrow> owner_of t h = Some ow) \<and>
    (\<forall>h c. h \<in> set (listed (ProtosByCategory t) c) \<longleftrightarrow> category_of t h = Some c) \<and>
    (\<forall>ow. distinct (listed (ProtosByOwner t) ow)) \<and> (\<forall>c. distinct (listed (ProtosByCategory t) c))"
  using index_inv_run [OF assms, of C E cs]
  by (simp add: Let_def by_owner.listed_iff by_category.listed_iff by_owner.listed_once by_category.listed_once)

theorem protos_index_consistent_witness:
  "let t = protos_run runtime_config sample_ext
     [(Signed [1], Upload [] 3 [[4]] None None [7]), (Signed [1], Transfer [7] [2])] empty_protos in
   (\<forall>h ow. h \<in> set (listed (ProtosByOwner t) ow) \<longleftrightarrow> owner_of t h = Some ow) \<and>
    (\<forall>h c. h \<in> set (listed (ProtosByCategory t) c) \<longleftrightarrow> category_of t h = Some c) \<and>
    (\<forall>ow. distinct (listed (ProtosByOwner t) ow)) \<and> (\<forall>c. distinct (listed (ProtosByCategory t) c))"
  by (rule protos_index_consistent [OF empty_protos_invs(1)])

text \<open>
  Only the owner changes a Proto-Fragment, and only while it is not detached; block,
  creator, references and category never change, and patches and metadata keys are only
  added.
\<close>

theorem proto_change_authorised:
  assumes "protos_dispatch C E og c s = (r, t)" and "Protos s h = Some p" and "Protos t h \<noteq> Some p"
  shows "\<exists>who q. og = Signed who \<and> proto_owned_by p = User who \<and> DetachedHashes s h = None \<and>
    Protos t h = Some q \<and> evolves p q"
  using protos_dispatch_change [OF assms(1,2)] assms(3) by blast

theorem proto_change_authorised_witness:
  "\<exists>q. Protos (snd (transfer (Signed [1]) [7] [2] uploaded_protos)) [7] = Some q \<and>
    evolves sample_proto q"
proof -
  let ?t = "snd (transfer (Signed [1]) [7] [2] uploaded_protos)"
  have call: "protos_dispatch runtime_config sample_ext (Signed [1]) (Transfer [7] [2]) uploaded_protos = (Ok, ?t)"
    and new: "Protos ?t [7] = Some (sample_proto\<lparr>proto_owned_by := User [2]\<rparr>)"
    by (simp_all add: transfer_def ensure_owner_def sample_proto_def Let_def prod_eq_iff storage_mutate_def)
  have "Protos uploaded_protos [7] = Some sample_proto" by simp
  moreover have "Protos ?t [7] \<noteq> Some sample_proto" using new by (simp add: sample_proto_def)
  ultimately show ?thesis using proto_change_authorised [OF call] by blast
qed

text \<open>
  Over any sequence of calls a Proto-Fragment is never removed, and one that is
  detached stays exactly as it is.
\<close>

theorem proto_history:
  assumes "Protos s h = Some p"
  shows "(\<exists>q. Protos (protos_run C E cs s) h = Some q \<and> evolves p q) \<and>
    (DetachedHashes s h \<noteq> None \<longrightarrow> Protos (protos_run C E cs s) h = Some p)"
  using protos_run_evolves [of s h p C E cs] protos_run_detached_frozen [of s h p C E cs] assms by blast

theorem proto_history_witness:
  "\<exists>q. Protos (protos_run runtime_config sample_ext
      [(Signed [1], Patch [7] None [] None [8]), (Signed [2], Transfer [7] [2])] uploaded_protos) [7] = Some q \<and>
    evolves sample_proto q"
proof -
  have "Protos uploaded_protos [7] = Some sample_proto" by simp
  from proto_history [OF this] show ?thesis by blast
qed

text \<open>
  C16. An upload succeeds exactly for a signed call in an extrinsic, with new data and
  references the caller may include: its own, free ones, and those on which it has staked
  the cost. On success the Proto-Fragment is stored and listed last under its owner.
\<close>

theorem upload_requirement:
  "(fst (upload E og refs c tags asset cost data s) = Ok \<longleftrightarrow>
     (\<exists>who. og = Signed who \<and> Protos s (blake2_256 E data) = None \<and> extrinsic_index s \<noteq> None \<and>
        (\<forall>r \<in> set refs. includable s who r))) \<and>
   (upload E og refs c tags asset cost data s = (Ok, t) \<longrightarrow>
     (\<exists>who p. og = Signed who \<and> Protos t = (Protos s)(blake2_256 E data \<mapsto> p) \<and>
        proto_owned_by p = (case asset of None \<Rightarrow> User who | Some a \<Rightarrow> ExternalAsset a) \<and>
        proto_creator p = who \<and> proto_references p = refs \<and> proto_include_cost p = cost \<and>
        map (Tags t) tags = map Some (proto_tags p) \<and>
        listed (ProtosByOwner t) (proto_owned_by p) =
          listed (ProtosByOwner s) (proto_owned_by p) @ [blake2_256 E data] \<and>
        listed (ProtosByCategory t) c = listed (ProtosByCategory s) c @ [blake2_256 E data]))"
proof (intro conjI impI upload_succeeds_iff)
  assume "upload E og refs c tags asset cost data s = (Ok, t)"
  then show "\<exists>who p. og = Signed who \<and> Protos t = (Protos s)(blake2_256 E data \<mapsto> p) \<and>
        proto_owned_by p = (case asset of None \<Rightarrow> User who | Some a \<Rightarrow> ExternalAsset a) \<and>
        proto_creator p = who \<and> proto_references p = refs \<and> proto_include_cost p = cost \<and>
        map (Tags t) tags = map Some (proto_tags p) \<and>
        listed (ProtosByOwner t) (proto_owned_by p) =
          listed (ProtosByOwner s) (proto_owned_by p) @ [blake2_256 E data] \<and>
        listed (ProtosByCategory t) c = listed (ProtosByCategory s) c @ [blake2_256 E data]"
  proof (cases rule: upload_Ok)
    case (1 who ei "is" m n)
    define p where "p = the (Protos t (blake2_256 E data))"
    have "Protos t = (Protos s)(blake2_256 E data \<mapsto> p)" by (simp add: p_def 1(6))
    moreover have "proto_owned_by p = (case asset of None \<Rightarrow> User who | Some a \<Rightarrow> ExternalAsset a)"
      "proto_creator p = who" "proto_references p = refs" "proto_include_cost p = cost" "proto_tags p = is"
      by (simp_all add: p_def 1(6))
    ultimately show ?thesis
      using tag_indices_resolve(1) [OF 1(5)] 1(1)
      by (intro exI [of _ who] exI [of _ p]) (simp add: 1(6) storage_simps)
  qed
qed

theorem upload_requirement_witness:
  "fst (upload sample_ext (Signed [2]) [[7]] 3 [] None None [8] uploaded_protos) \<noteq> Ok \<and>
   (\<exists>p. Protos uploaded_protos = [[7] \<mapsto> p] \<and> proto_creator p = [1])"
proof
  have "\<not> includable uploaded_protos [2] [7]"
    by (simp add: includable_def sample_proto_def)
  then show "fst (upload sample_ext (Signed [2]) [[7]] 3 [] None None [8] uploaded_protos) \<noteq> Ok"
    using upload_requirement [of sample_ext "Signed [2]" "[[7]]" 3 "[]" None None "[8]" uploaded_protos] by simp
  show "\<exists>p. Protos uploaded_protos = [[7] \<mapsto> p] \<and> proto_creator p = [1]"
    using upload_requirement [of sample_ext "Signed [1]" "[]" 3 "[[4]]" None "Some 9" "[7]" empty_protos uploaded_protos]
      sample_upload_ok [unfolded sample_upload_def] by auto
qed

text \<open>
  What is uploaded is found: right after its upload a Proto-Fragment passes the filter
  of a query exactly when the query's categories are none or include its category, all the
  query's tags are among its tags, and its availability is as asked for.
\<close>

theorem upload_then_found:
  assumes "upload E og refs c tags asset cost data s = (Ok, t)"
    and "numbered (Tags s) (TagsIndex s)" and "unat (TagsIndex s) + length tags < 2 ^ 64"
  shows "filter_proto t (blake2_256 E data) tags' cats avail \<longleftrightarrow>
    (cats = [] \<or> c \<in> set cats) \<and> set tags' \<subseteq> set tags \<and>
    (case avail of None \<Rightarrow> True | Some b \<Rightarrow> b = (cost \<noteq> None))"
  using assms(1)
proof (cases rule: upload_Ok)
  case (1 who ei "is" m n)
  have "numbered (fst (m, n)) n"
    using tag_indices_numbered [OF 1(5)] assms(2,3) by simp
  note tag = tag_matches [OF 1(5) this]
  have "list_all (\<lambda>tag. case m tag of None \<Rightarrow> False | Some i \<Rightarrow> i \<in> set is) tags' \<longleftrightarrow> set tags' \<subseteq> set tags"
    using tag by (auto simp: list_all_iff)
  moreover have "list_ex (\<lambda>cat. cat = c) cats \<longleftrightarrow> c \<in> set cats"
    by (auto simp: list_ex_iff)
  moreover define p where "p = the (Protos t (blake2_256 E data))"
  then have "Protos t (blake2_256 E data) = Some p" "proto_tags p = is" "proto_category p = c"
    "proto_include_cost p = cost" "Tags t = m"
    by (simp_all add: 1(6))
  ultimately show ?thesis
    by (cases avail; cases "tags' = []") (auto simp: filter_proto_def)
qed

theorem upload_then_found_witness:
  "filter_proto uploaded_protos [7] [[4]] [3, 5] (Some True) \<and>
   \<not> filter_proto uploaded_protos [7] [[5]] [] None"
  using upload_then_found [OF sample_upload_ok [unfolded sample_upload_def]]
  by (simp add: numbered_empty)

text \<open>
  As long as the tags of all calls together fit the counter, every stored tag has a
  number of its own, and every number in a Proto-Fragment belongs to exactly one tag.
\<close>

theorem tags_stay_numbered:
  assumes "tags_inv s" and "unat (TagsIndex s) + sum_list (map (tag_demand \<circ> snd) cs) < 2 ^ 64"
    and "Protos (protos_run C E cs s) h = Some p" and "i \<in> set (proto_tags p)"
  shows "\<exists>!tag. Tags (protos_run C E cs s) tag = Some i"
proof -
  have inv: "tags_inv (protos_run C E cs s)" by (rule tags_inv_run [OF assms(1,2)])
  then obtain tag where "Tags (protos_run C E cs s) tag = Some i"
    using assms(3,4) by (fastforce simp: tags_inv_def ran_def)
  then show ?thesis
    using numbered_inj inv unfolding tags_inv_def by metis
qed

theorem tags_stay_numbered_witness:
  "\<exists>!tag. Tags (protos_run runtime_config sample_ext
     [(Signed [1], Upload [] 3 [[4], [5]] None None [7])] empty_protos) tag = Some 2"
proof (rule tags_stay_numbered [OF empty_protos_invs(2)])
  let ?p = "sample_proto\<lparr>proto_tags := [1, 2], proto_include_cost := None\<rparr>"
  show "Protos (protos_run runtime_config sample_ext
     [(Signed [1], Upload [] 3 [[4], [5]] None None [7])] empty_protos) [7] = Some ?p"
    by (simp add: upload_def Let_def key_index_def sample_proto_def index_data_def)
qed simp_all

text \<open>
  A transfer moves the Proto-Fragment from the list of the old owner to the end of the
  list of the new one; the lists of others and everything else of it stay.
\<close>

theorem transfer_effect:
  assumes "transfer og h a s = (Ok, t)" and "index_inv s"
  shows "\<exists>who p. og = Signed who \<and> Protos s h = Some p \<and> proto_owned_by p = User who \<and>
    Protos t = (Protos s)(h \<mapsto> p\<lparr>proto_owned_by := User a\<rparr>) \<and>
    (a \<noteq> who \<longrightarrow> listed (ProtosByOwner t) (User a) = listed (ProtosByOwner s) (User a) @ [h] \<and>
       listed (ProtosByOwner t) (User who) = remove1 h (listed (ProtosByOwner s) (User who))) \<and>
    (\<forall>ow. ow \<noteq> User a \<longrightarrow> ow \<noteq> User who \<longrightarrow> listed (ProtosByOwner t) ow = listed (ProtosByOwner s) ow)"
  using assms(1)
proof (cases rule: transfer_Ok)
  case (1 who p)
  have "distinct (listed (ProtosByOwner s) (User who))" using by_owner.listed_once [OF assms(2)] .
  then have "retain_not h (listed (ProtosByOwner s) (User who)) = remove1 h (listed (ProtosByOwner s) (User who))"
    by (simp add: retain_not_def distinct_remove1_removeAll removeAll_filter_not_eq)
      (rule filter_cong; auto)
  then show ?thesis using 1 by (simp add: storage_simps)
qed

theorem transfer_effect_witness:
  "listed (ProtosByOwner (snd (transfer (Signed [1]) [7] [2] uploaded_protos))) (User [2]) = [[7]]"
proof -
  have "transfer (Signed [1]) [7] [2] uploaded_protos = (Ok, snd (transfer (Signed [1]) [7] [2] uploaded_protos))"
    by (simp add: transfer_def ensure_owner_def sample_proto_def Let_def)
  from transfer_effect [OF this uploaded_protos_invs(1)] show ?thesis
    by (auto simp: storage_simps listed_def)
qed

text \<open>
  Metadata that is set can be read back under its key, and setting it changes no other
  key's value.
\<close>

theorem metadata_roundtrip:
  assumes "set_metadata E og h key data s = (Ok, t)" and "Protos s h = Some p"
    and "numbered (MetaKeys s) (MetaKeysIndex s)" and "MetaKeysIndex s \<noteq> - 1"
  shows "\<exists>q i. Protos t h = Some q \<and> MetaKeys t key = Some i \<and>
    proto_metadata q i = Some (blake2_256 E data) \<and>
    (\<forall>key' j. key' \<noteq> key \<longrightarrow> MetaKeys s key' = Some j \<longrightarrow>
       MetaKeys t key' = Some j \<and> proto_metadata q j = proto_metadata p j)"
  using assms(1)
proof (cases rule: set_metadata_Ok)
  case (1 who p' ei i m n)
  have i: "m key = Some i" using key_index.intern_lookup [OF 1(6)] by simp
  have num: "numbered m n" using key_index.intern_numbered [OF _ _ 1(6)] assms(3,4) by simp
  have keep: "m key' = Some j" if "MetaKeys s key' = Some j" for key' j
    using key_index.intern_keeps [OF 1(6)] that by simp
  have "j \<noteq> i" if "key' \<noteq> key" "MetaKeys s key' = Some j" for key' j
    using numbered_inj [OF num i, of key'] keep that by auto
  then show ?thesis using i keep 1(2) assms(2) by (auto simp: 1(7))
qed

definition sample_set_metadata :: "(unit, nat) protos_state" where
  "sample_set_metadata = snd (set_metadata sample_ext (Signed [1]) [7] [5] [6] uploaded_protos)"

theorem metadata_roundtrip_witness:
  "\<exists>q i. Protos sample_set_metadata [7] = Some q \<and> MetaKeys sample_set_metadata [5] = Some i \<and>
     proto_metadata q i = Some [6]"
proof -
  have call: "set_metadata sample_ext (Signed [1]) [7] [5] [6] uploaded_protos = (Ok, sample_set_metadata)"
    by (simp add: sample_set_metadata_def set_metadata_def ensure_owner_def sample_proto_def Let_def
        prod_eq_iff split: prod.split)
  have keys: "MetaKeys uploaded_protos = Map.empty" "MetaKeysIndex uploaded_protos = 0"
    by (simp_all add: uploaded_protos_def sample_upload_def upload_def Let_def key_index_def index_data_def)
  then have "numbered (MetaKeys uploaded_protos) (MetaKeysIndex uploaded_protos)"
    by (simp add: numbered_empty)
  moreover have "MetaKeysIndex uploaded_protos \<noteq> - 1" "Protos uploaded_protos [7] = Some sample_proto"
    using keys by simp_all
  ultimately show ?thesis using metadata_roundtrip [OF call] by fastforce
qed

text \<open>
  A stake is not charged: after one stake went through, the same amount can be staked on
  any list of Proto-Fragments, one after the other, and each holds the full amount, however
  little is locked. The counter of the usage stays what it was.
\<close>

theorem stake_not_charged:
  assumes "stake E (Signed caller) h amount s = (Ok, t)" and "\<forall>h' \<in> set hs. Protos s h' \<noteq> None"
  shows "\<exists>u who. get_locked_frag_account E caller = Some who \<and> stake_all E caller amount hs t = (Ok, u) \<and>
    FragUsage u = FragUsage s \<and>
    (\<forall>h' \<in> set (h # hs). ProtoStakes u (h', who) = Some (amount, block_number s))"
  using assms(1)
proof (cases rule: stake_Ok)
  case (1 c who account lock used)
  then have "stakeable E caller who amount t" by (auto simp: stakeable_def)
  moreover have "\<forall>h' \<in> set hs. Protos t h' \<noteq> None" using assms(2) by (simp add: 1)
  ultimately obtain u where "stake_all E caller amount hs t = (Ok, u)" "FragUsage u = FragUsage t"
    "\<forall>h'. ProtoStakes u (h', who) = (if h' \<in> set hs then Some (amount, block_number t) else ProtoStakes t (h', who))"
    using stake_all_Ok by blast
  then show ?thesis using 1 by auto
qed

text \<open>The account derived from \<open>[1]\<close> is linked and has 10 locked.\<close>

definition stake_account :: account_id where "stake_account = [1] @ ascii ''frag-locked-account''"

definition sample_linked :: "(unit, nat) protos_state" where
  "sample_linked = uploaded_protos\<lparr>EVMLinks := [stake_account \<mapsto> [9]],
     EVMLinksReverse := [[9] \<mapsto> stake_account], FragUsage := [stake_account \<mapsto> 0],
     EthLockedFrag := [[9] \<mapsto> \<lparr>lock_amount = 10, lock_block_number = 1\<rparr>],
     Protos := (Protos uploaded_protos)([8] \<mapsto> sample_proto)\<rparr>"

definition sample_staked :: "(unit, nat) protos_state" where
  "sample_staked = snd (stake sample_ext (Signed [1]) [7] 10 sample_linked)"

lemma sample_stake: "stake sample_ext (Signed [1]) [7] 10 sample_linked = (Ok, sample_staked)"
  by (simp add: sample_staked_def stake_def sample_linked_def stake_account_def Let_def)

theorem stake_not_charged_witness:
  "\<exists>u. stake_all sample_ext [1] 10 [[8]] sample_staked = (Ok, u) \<and>
     ProtoStakes u ([7], stake_account) = Some (10, 1) \<and> ProtoStakes u ([8], stake_account) = Some (10, 1)"
proof -
  have "\<forall>h' \<in> set [[8]]. Protos sample_linked h' \<noteq> None" by (simp add: sample_linked_def)
  from stake_not_charged [OF sample_stake this] show ?thesis
    by (auto simp: sample_linked_def stake_account_def)
qed



text \<open>
  At the end of the block in which an account is unlinked all its stakes are dropped,
  and only those of the queued accounts.
\<close>

theorem unlink_drops_stakes:
  assumes "unlink (Signed a) k s = (Ok, t)" and "stakes_inv s"
  shows "PendingUnlinks (protos_on_finalize t) = [] \<and>
    (\<forall>h. ProtoStakes (protos_on_finalize t) (h, a) = None) \<and>
    AccountStakes (protos_on_finalize t) a = None \<and>
    (\<forall>b h. b \<noteq> a \<longrightarrow> b \<notin> set (PendingUnlinks s) \<longrightarrow>
       ProtoStakes (protos_on_finalize t) (h, b) = ProtoStakes s (h, b))"
proof -
  from assms(1) have t: "PendingUnlinks t = PendingUnlinks s @ [a]" "ProtoStakes t = ProtoStakes s"
    "AccountStakes t = AccountStakes s"
    by (auto simp: unlink_def unlink_account_def split: option.splits if_splits)
  have "stakes_inv t" using assms(2) t(2,3) by (simp add: stakes_inv_def)
  note f = protos_on_finalize_stakes [OF this]
  have "PendingUnlinks (protos_on_finalize t) = []" using protos_on_finalize_frame [of t] by auto
  then show ?thesis using f t by simp
qed

definition sample_own_stake :: "(unit, nat) protos_state" where
  "sample_own_stake = uploaded_protos\<lparr>block_number := 10, EVMLinks := [[1] \<mapsto> [9]],
     EVMLinksReverse := [[9] \<mapsto> [1]], FragUsage := [[1] \<mapsto> 0],
     ProtoStakes := [([7], [1]) \<mapsto> (10, 2)], AccountStakes := [[1] \<mapsto> [[7]]]\<rparr>"

definition sample_unlinked :: "(unit, nat) protos_state" where
  "sample_unlinked = snd (unlink (Signed [1]) [9] sample_own_stake)"

lemma sample_unlink_ok: "unlink (Signed [1]) [9] sample_own_stake = (Ok, sample_unlinked)"
  by (simp add: sample_unlinked_def unlink_def unlink_account_def sample_own_stake_def)

lemma sample_own_stake_inv: "stakes_inv sample_own_stake"
  by (simp add: stakes_inv_def sample_own_stake_def listed_def)

theorem unlink_drops_stakes_witness:
  "ProtoStakes (protos_on_finalize sample_unlinked) ([7], [1]) = None"
  using unlink_drops_stakes [OF sample_unlink_ok sample_own_stake_inv] by blast

text \<open>
  Between the unlinking and the end of the block the stake is still there but the usage
  counter is not: an unstake that would succeed before the unlinking panics after it.
\<close>

theorem unstake_panics_after_unlink:
  assumes "unlink (Signed a) k s = (Ok, t)" and "fst (unstake C (Signed a) h s) = Ok"
  shows "unstake C (Signed a) h t = (Panic, t)"
proof -
  from assms(1) have "FragUsage t a = None" "ProtoStakes t = ProtoStakes s" "Protos t = Protos s"
    "block_number t = block_number s"
    by (auto simp: unlink_def unlink_account_def split: option.splits if_splits)
  moreover have "unstake C (Signed a) h s = (Ok, snd (unstake C (Signed a) h s))"
    using assms(2) by (simp add: prod_eq_iff)
  then obtain staked since where "ProtoStakes s (h, a) = Some (staked, since)" "Protos s h \<noteq> None"
    "since + StakeLockupPeriod C < block_number s"
    by (cases rule: unstake_Ok) auto
  ultimately show ?thesis by (simp add: unstake_def)
qed

theorem unstake_panics_after_unlink_witness:
  "unstake runtime_config (Signed [1]) [7] sample_unlinked = (Panic, sample_unlinked)"
proof (rule unstake_panics_after_unlink [OF sample_unlink_ok])
  show "fst (unstake runtime_config (Signed [1]) [7] sample_own_stake) = Ok"
    by (simp add: unstake_def sample_own_stake_def Let_def)
qed

text \<open>
  A detach request outlives the ownership: the owner that asked for it can transfer the
  Proto-Fragment in the same block, and the request with the old owner's target account is
  handed to the off-chain worker all the same.
\<close>

theorem detach_request_survives_transfer:
  assumes "detach (Signed a) h chain account s = (Ok, t)"
  shows "\<exists>u. transfer (Signed a) h b t = (Ok, u) \<and> owner_of u h = Some (User b) \<and>
    (\<exists>rs. offchain_requests (detach_on_finalize u) = Some rs \<and>
       \<lparr>req_hash = h, req_target_chain = chain, req_target_account = account\<rparr> \<in> set rs)"
  using assms
proof (cases rule: detach_Ok)
  case (1 who p)
  have own: "ensure_owner t h a = Ok" using 1 by (simp add: ensure_owner_Ok)
  obtain u where u: "transfer (Signed a) h b t = (Ok, u)"
    using own by (simp add: transfer_def Let_def)
  then show ?thesis
  proof (cases rule: transfer_Ok)
    case (1 who' p')
    then show ?thesis
      using u \<open>t = _\<close> by (simp add: owner_of_def detach_on_finalize_def Let_def)
  qed
qed

theorem detach_request_survives_transfer_witness:
  "owner_of (snd (transfer (Signed [1]) [7] [2] (snd (detach (Signed [1]) [7] EthereumGoerli [] uploaded_protos)))) [7]
   = Some (User [2])"
proof -
  have "detach (Signed [1]) [7] EthereumGoerli [] uploaded_protos
      = (Ok, snd (detach (Signed [1]) [7] EthereumGoerli [] uploaded_protos))"
    by (simp add: detach_def ensure_owner_def sample_proto_def)
  from detach_request_survives_transfer [OF this, of "[2]"] show ?thesis by auto
qed

end
