(* ===== verification/Query_Properties.thy ===== *)
theory Query_Properties
  imports Protos_Query Protos_Properties
begin

text \<open>
  Properties of the query \<open>get_protos\<close>: its answer, its pages, the order of its answer and its
  errors, and the width of the hashes it converts.
\<close>

section \<open>A concrete state and request\<close>

definition sample_query :: "nat query_env" where
  "sample_query = \<lparr>hex_encode = (\<lambda>b. b), hex_decode = Some, lower_hex_h160 = (\<lambda>b. b),
     lower_hex_u256 = be_bytes 32, json_text = (\<lambda>v. case v of JObject m \<Rightarrow> concat (map fst m) | _ \<Rightarrow> []),
     iter_categories = sorted_list_of_set, usize_bits = 32\<rparr>"

lemma sample_query_simps [simp]:
  "hex_encode sample_query = (\<lambda>b. b)" "hex_decode sample_query = Some" "usize_bits sample_query = 32"
  "iter_categories sample_query = sorted_list_of_set" "json_text sample_query (JObject m) = concat (map fst m)"
  by (simp_all add: sample_query_def)

lemma sample_hex: "text_codec (hex_encode sample_query) (hex_decode sample_query)"
  by unfold_locales simp

definition sample_params :: "nat get_protos_params" where
  "sample_params = \<lparr>gp_desc = False, gp_from = 0, gp_limit = 10, gp_metadata_keys = [], gp_owner = Some [1],
     gp_return_owners = True, gp_categories = [3], gp_tags = [], gp_available = Some True\<rparr>"

text \<open>Account \<open>[1]\<close> uploads 32 bytes of sevens.\<close>

definition sample_calls :: "(account_id origin \<times> nat protos_call) list" where
  "sample_calls = [(Signed [1], Upload [] 3 [[4]] None (Some 9) (replicate 32 7))]"

definition sized_protos :: "(unit, nat) protos_state" where
  "sized_protos = protos_run runtime_config sample_ext sample_calls empty_protos"

lemma sized_protos_simps [simp]:
  "Protos sized_protos = [replicate 32 7 \<mapsto> sample_proto]"
  "ProtosByOwner sized_protos = [User [1] \<mapsto> [replicate 32 7]]"
  "ProtosByCategory sized_protos = [3 \<mapsto> [replicate 32 7]]"
  "Tags sized_protos = [[4] \<mapsto> 1]"
  by (simp_all add: sized_protos_def sample_calls_def upload_def Let_def key_index_def index_data_def
      sample_proto_def storage_append_def)

lemma sized_protos_inv: "index_inv sized_protos" "iterates_categories sample_query sized_protos" "hashes_sized sized_protos"
proof -
  show "index_inv sized_protos" unfolding sized_protos_def by (rule index_inv_run [OF empty_protos_invs(1)])
  have "{c. ProtosByCategory sized_protos c \<noteq> None} = {3}" by auto
  then show "iterates_categories sample_query sized_protos" by (simp add: iterates_categories_def)
  show "hashes_sized sized_protos" by (simp add: hashes_sized_def sample_proto_def)
qed

lemma sized_matching: "all_matching sample_query sample_params sized_protos = Some [replicate 32 7]"
  by (simp add: all_matching_def sample_params_def matching_def filter_proto_def sample_proto_def)


section \<open>Properties\<close>

text \<open>
  The hashes that are stored as Proto-Fragments, patch data and metadata all have 32
  bytes, whatever calls are made, since they come from the hash function.
\<close>

theorem stored_hashes_sized:
  assumes "hashes_sized s" and "\<And>b. length (blake2_256 E b) = 32"
  shows "hashes_sized (protos_run C E cs s)"
  using assms by (rule hashes_sized_run)

theorem stored_hashes_sized_witness:
  "hashes_sized (protos_run runtime_config (sample_ext\<lparr>blake2_256 := (\<lambda>_. replicate 32 0)\<rparr>) sample_calls empty_protos)"
  by (rule stored_hashes_sized) (simp_all add: hashes_sized_def)



lemma matching_page [simp]:
  "matching s (p\<lparr>gp_from := a\<rparr>) = matching s p" "matching s (p\<lparr>gp_limit := b\<rparr>) = matching s p"
  by (intro ext, simp add: matching_def)+

lemma protos_of_categories_page [simp]:
  "protos_of_categories Q (p\<lparr>gp_from := a\<rparr>) s = protos_of_categories Q p s"
  "protos_of_categories Q (p\<lparr>gp_limit := b\<rparr>) s = protos_of_categories Q p s"
  by (simp_all add: protos_of_categories_def Let_def cong: option.case_cong if_cong)

lemma all_matching_from_limit [simp]:
  "all_matching Q (p\<lparr>gp_from := a\<rparr>) s = all_matching Q p s"
  "all_matching Q (p\<lparr>gp_limit := b\<rparr>) s = all_matching Q p s"
  by (simp_all add: all_matching_def cong: option.case_cong)

text \<open>
  C20. Paging loses nothing and repeats nothing: the pages of one size, put together, are the
  list of all matches, and that list has exactly the Proto-Fragments that match.
\<close>

theorem query_pages:
  assumes "index_inv s" and "iterates_categories Q s" and "all_matching Q params s = Some l"
    and "length l \<le> k * n" and "k * n < 2 ^ usize_bits Q" and "n < 2 ^ usize_bits Q" and "usize_bits Q \<le> 64"
  shows "concat (map (\<lambda>i. the (list_protos Q (params\<lparr>gp_from := of_nat (i * n), gp_limit := of_nat n\<rparr>) s)) [0..<k]) = l \<and>
    set l = {h. matches params s h}"
proof (rule conjI)
  have usize: "as_usize Q (of_nat m) = m" if "m < 2 ^ usize_bits Q" for m
  proof -
    have "(2 :: nat) ^ usize_bits Q \<le> 2 ^ 64" using assms(7) by (rule power_increasing) simp
    then have "unat (of_nat m :: u64) = m" using that by (intro unat_of_nat_small) simp
    then show ?thesis using that by (simp add: as_usize_def)
  qed
  have page: "the (list_protos Q (params\<lparr>gp_from := of_nat (i * n), gp_limit := of_nat n\<rparr>) s) = take n (drop (i * n) l)"
    if "i < k" for i
  proof -
    have "i * n < 2 ^ usize_bits Q" using that assms(5) by (meson le_less_trans less_imp_le mult_le_mono1)
    then show ?thesis using usize [of "i * n"] usize [OF assms(6)] by (simp add: list_protos_page assms(3) page_def del: of_nat_mult)
  qed
  then have "map (\<lambda>i. the (list_protos Q (params\<lparr>gp_from := of_nat (i * n), gp_limit := of_nat n\<rparr>) s)) [0..<k] =
      map (\<lambda>i. take n (drop (i * n) l)) [0..<k]" by (simp del: of_nat_mult)
  then show "concat (map (\<lambda>i. the (list_protos Q (params\<lparr>gp_from := of_nat (i * n), gp_limit := of_nat n\<rparr>) s)) [0..<k]) = l"
    using take_drop_pages [OF assms(4)] by (simp only:)
  show "set l = {h. matches params s h}" using set_all_matching [OF assms(1-3)] by blast
qed

theorem query_pages_witness:
  "concat (map (\<lambda>i. the (list_protos sample_query (sample_params\<lparr>gp_from := of_nat (i * 1), gp_limit := of_nat 1\<rparr>) sized_protos))
     [0..<2]) = [replicate 32 7]"
  using query_pages [OF sized_protos_inv(1,2) sized_matching, of 2 1] by (simp)

lemma result_map_set: "set ids = set ids' \<Longrightarrow> result_map Q ids = result_map Q ids'"
  by (intro btree_eqI ext) (simp_all add: map_of_result_map, simp_all add: result_map_def result_map_btree)

lemma describe_proto_desc [simp]: "describe_proto Q (p\<lparr>gp_desc := d\<rparr>) s = describe_proto Q p s"
  by (intro ext) (simp add: describe_proto_def)

lemma describe_all_desc [simp]: "describe_all Q (p\<lparr>gp_desc := d\<rparr>) s m = describe_all Q p s m"
proof (induction m)
  case (Cons e m)
  obtain k v where "e = (k, v)" by (cases e)
  then show ?case
    using Cons by (simp cong: option.case_cong if_cong json.case_cong sum.case_cong)
qed simp

text \<open>
  The direction of the order that a request asks for has no effect on the answer when
  the page has room for all matches: the object is ordered by the hexadecimal hashes.
\<close>

theorem query_order_lost:
  assumes "as_usize Q (gp_from params) = 0" and "all_matching Q params s = Some l"
    and "length l \<le> as_usize Q (gp_limit params)"
  shows "get_protos Q (params\<lparr>gp_desc := True\<rparr>) s = get_protos Q (params\<lparr>gp_desc := False\<rparr>) s"
proof -
  obtain l1 l2 where l: "all_matching Q (params\<lparr>gp_desc := True\<rparr>) s = Some l1"
    "all_matching Q (params\<lparr>gp_desc := False\<rparr>) s = Some l2" and same: "set l1 = set l2" "length l1 = length l2"
    using all_matching_desc [of Q params s] assms(2)
    by (cases "all_matching Q (params\<lparr>gp_desc := True\<rparr>) s"; cases "all_matching Q (params\<lparr>gp_desc := False\<rparr>) s")
      (auto simp: all_matching_def split: option.splits)
  have "params\<lparr>gp_desc := gp_desc params\<rparr> = params" by simp
  then have "length l = length l1"
    using l assms(2) same(2) by (cases "gp_desc params") (metis option.inject)+
  then have "list_protos Q (params\<lparr>gp_desc := True\<rparr>) s = Some l1" "list_protos Q (params\<lparr>gp_desc := False\<rparr>) s = Some l2"
    using l same(2) assms(1,3) by (simp_all add: list_protos_page page_def)
  then show ?thesis by (simp add: get_protos_def result_map_set [OF same(1)])
qed

theorem query_order_lost_witness:
  "get_protos sample_query (sample_params\<lparr>gp_desc := True\<rparr>) sized_protos =
   get_protos sample_query (sample_params\<lparr>gp_desc := False\<rparr>) sized_protos"
  by (rule query_order_lost [OF _ sized_matching]) (simp_all add: as_usize_def sample_params_def)

text \<open>
  A query fails only for an owner who never had a Proto-Fragment; none of the other
  errors of the code can occur.
\<close>

theorem query_error:
  assumes "text_codec (hex_encode Q) (hex_decode Q)" and "hashes_sized s"
  shows "get_protos Q params s = Inl e \<longleftrightarrow> e = ascii ''Owner not found'' \<and>
    (\<exists>a. gp_owner params = Some a \<and> ProtosByOwner s (User a) = None)"
proof -
  have sized: "length h = 32" if "Protos s h \<noteq> None" for h
    using assms(2) that by (auto simp: hashes_sized_def)
  show ?thesis
  proof (cases "list_protos Q params s")
    case None
    then show ?thesis by (auto simp: get_protos_def list_protos_def split: option.splits)
  next
    case (Some ids)
    then obtain m where "get_protos Q params s = Inr (json_text Q (JObject m))"
      using get_protos_answer [OF assms(1) sized Some] by blast
    with Some show ?thesis by (auto simp: list_protos_def split: option.splits)
  qed
qed

theorem query_error_witness:
  "get_protos sample_query (sample_params\<lparr>gp_owner := Some [2]\<rparr>) sized_protos = Inl (ascii ''Owner not found'')"
  by (simp add: query_error [OF sample_hex sized_protos_inv(3)])

text \<open>In the WebAssembly runtime an offset of \<open>2 ^ 32\<close> is an offset of 0.\<close>

lemma query_offset_wraps:
  assumes "usize_bits Q = 32" shows "list_protos Q (params\<lparr>gp_from := 2 ^ 32\<rparr>) s = list_protos Q (params\<lparr>gp_from := 0\<rparr>) s"
  by (simp add: list_protos_page page_def [abs_def] as_usize_def assms)

end
