(* ===== verification/Protos_Rpc.thy ===== *)
theory Protos_Rpc
  imports Query_Properties
begin

text \<open>
  The RPC method \<open>protos_getProtos\<close> of the node (\<open>pallets/protos/rpc/src/lib.rs\<close>) on top of
  the query \<open>get_protos\<close> of the pallet. The client, which finds the state of a block, and the
  debug form of errors are parameters.
\<close>









end
