(* ===== verification/Fragments.thy ===== *)
theory Fragments
  imports Protos
begin

text \<open>
  The pallet \<open>pallets/fragments/src/lib.rs\<close>: fragment definitions made from a
  Proto-Fragment, their sale, and the instances that are minted, bought and given, with
  their owners, copies and expirations.
\<close>

section \<open>Data\<close>

text \<open>
  The permissions of an instance are a bit set of the crate \<open>protos\<close>, which is not part of
  the repository: a type parameter \<open>'p\<close>, with the intersection and the three flags the
  code names among the environment's functions.
\<close>

type_synonym unit_id = u64

record fragment_metadata =
  fm_name :: bytes
  fm_currency :: "asset_id option"

record unique_options =
  uo_mutable :: bool

record 'p fragment_definition =
  fd_proto_hash :: hash256
  fd_metadata :: fragment_metadata
  fd_permissions :: 'p
  fd_unique :: "unique_options option"
  fd_max_supply :: "unit_id option"
  fd_creator :: account_id
  fd_created_at :: block_num

record 'p fragment_instance =
  fi_permissions :: 'p
  fi_created_at :: block_num
  fi_custom_data :: "hash256 option"
  fi_expiring_at :: "block_num option"
  fi_amount :: "unit_id option"

record publishing_data =
  pd_price :: u128
  pd_units_left :: "unit_id option"
  pd_expiration :: "block_num option"
  pd_amount :: "unit_id option"

datatype fragment_buy_options = Quantity u64 | UniqueData bytes

datatype fragments_event =
    DefinitionCreated hash128
  | Published hash128
  | Unpublished hash128
  | InventoryAdded account_id hash128 "unit_id \<times> unit_id"
  | InventoryRemoved account_id hash128 "unit_id \<times> unit_id"
  | InventoryUpdated account_id hash128 "unit_id \<times> unit_id"
  | Expired account_id hash128 "unit_id \<times> unit_id"

datatype fragments_error =
    Fragments_ProtoNotFound | ProtoOwnerNotFound | NoPermission | Fragments_Detached
  | AlreadyExist | NotFound | Expired_Error | Fragments_InsufficientBalance | SoldOut
  | SaleAlreadyOpen | MaxSupplyReached | PublishedQuantityReached | ParamsNotValid
  | Fragments_SystematicFailure | UniqueDataExists

record ('b, 'c, 'p) fragments_state = "('b, 'c) protos_state" +
  Proto2Fragments :: "hash256 \<rightharpoonup> hash128 list"
  Definitions :: "hash128 \<rightharpoonup> 'p fragment_definition"
  Publishing :: "hash128 \<rightharpoonup> publishing_data"
  EditionsCount :: "hash128 \<rightharpoonup> unit_id"
  CopiesCount :: "hash128 \<times> unit_id \<rightharpoonup> unit_id"
  Fragments :: "hash128 \<times> unit_id \<times> unit_id \<rightharpoonup> 'p fragment_instance"
  UniqueData2Edition :: "hash128 \<times> hash256 \<rightharpoonup> unit_id"
  Owners :: "hash128 \<times> account_id \<rightharpoonup> (unit_id \<times> unit_id) list"
  Inventory :: "account_id \<times> hash128 \<rightharpoonup> (unit_id \<times> unit_id) list"
  Expirations :: "block_num \<rightharpoonup> (hash128 \<times> unit_id \<times> unit_id) list"
  fragments_events :: "fragments_event list"

text \<open>
  More of the environment: codecs, the lookup of \<open>pallet_indices\<close>, the permissions, and the
  order in which the storage iterates over the accounts with an entry.
\<close>

datatype multi_address = Id account_id | Index u64 | Other_Address bytes

record ('b, 'p) fragments_ext = "'b accounts_ext" +
  encode_name :: "bytes \<Rightarrow> bytes"
  encode_currency :: "asset_id option \<Rightarrow> bytes"
  encode_unit :: "unit_id \<Rightarrow> bytes"
  lookup_address :: "'b \<Rightarrow> multi_address \<Rightarrow> account_id option"
  perms_and :: "'p \<Rightarrow> 'p \<Rightarrow> 'p"
  EDIT :: 'p
  COPY :: 'p
  TRANSFER :: 'p
  iter_accounts :: "account_id set \<Rightarrow> account_id list"

text \<open>\<open>(x & FragmentPerms::FLAG) == FragmentPerms::FLAG\<close>.\<close>

definition has_perm :: "('b, 'p, 'y) fragments_ext_scheme \<Rightarrow> 'p \<Rightarrow> 'p \<Rightarrow> bool" where
  "has_perm E x flag \<longleftrightarrow> perms_and E x flag = flag"

section \<open>Derived accounts\<close>

text \<open>\<open>None\<close> is the panic of \<open>expect\<close>.\<close>

definition get_vault_id :: "('b, 'y) ext_scheme \<Rightarrow> hash128 \<Rightarrow> account_id option" where
  "get_vault_id E class_hash = decode_account E (blake2_256 E (ascii ''fragments-vault'' @ class_hash))"

definition get_fragment_account_id :: "('b, 'p, 'y) fragments_ext_scheme \<Rightarrow> hash128 \<Rightarrow> unit_id
    \<Rightarrow> unit_id \<Rightarrow> account_id option" where
  "get_fragment_account_id E class_hash edition copy =
     decode_account E (blake2_256 E
       (ascii ''fragments-account'' @ class_hash @ encode_unit E edition @ encode_unit E copy))"

section \<open>Definitions and sales\<close>

text \<open>Only the owner of the Proto-Fragment, while it is not detached.\<close>

definition ensure_proto_owner :: "('b, 'c, 'p, 'x) fragments_state_scheme \<Rightarrow> hash256 \<Rightarrow> account_id
    \<Rightarrow> fragments_error dispatch_error outcome" where
  "ensure_proto_owner s proto_hash who =
     (case Protos s proto_hash of
        None \<Rightarrow> Err (Module Fragments_ProtoNotFound)
      | Some proto \<Rightarrow>
          (case proto_owned_by proto of
             User proto_owner \<Rightarrow>
               (if who \<noteq> proto_owner then Err (Module NoPermission)
                else if DetachedHashes s proto_hash \<noteq> None then Err (Module Fragments_Detached)
                else Ok)
           | _ \<Rightarrow> Err (Module ProtoOwnerNotFound)))"

definition ensure_definition_owner :: "('b, 'c, 'p, 'x) fragments_state_scheme \<Rightarrow> hash128 \<Rightarrow> account_id
    \<Rightarrow> fragments_error dispatch_error outcome" where
  "ensure_definition_owner s fragment_hash who =
     (case Definitions s fragment_hash of
        None \<Rightarrow> Err (Module NotFound)
      | Some d \<Rightarrow> ensure_proto_owner s (fd_proto_hash d) who)"

definition fragment_id :: "('b, 'p, 'y) fragments_ext_scheme \<Rightarrow> hash256 \<Rightarrow> fragment_metadata \<Rightarrow> hash128" where
  "fragment_id E proto_hash metadata =
     blake2_128 E (proto_hash @ encode_name E (fm_name metadata) @ encode_currency E (fm_currency metadata))"

definition create :: "('b, 'p, 'y) fragments_ext_scheme \<Rightarrow> account_id origin \<Rightarrow> hash256
    \<Rightarrow> fragment_metadata \<Rightarrow> 'p \<Rightarrow> unique_options option \<Rightarrow> unit_id option
    \<Rightarrow> ('b, 'c, 'p, 'x) fragments_state_scheme
    \<Rightarrow> fragments_error dispatch_error outcome \<times> ('b, 'c, 'p, 'x) fragments_state_scheme" where
  "create E og proto_hash metadata permissions unique max_supply s =
     (case ensure_signed og of None \<Rightarrow> (Err BadOrigin, s)
      | Some who \<Rightarrow>
     (case ensure_proto_owner s proto_hash who of
        Ok \<Rightarrow>
     (let hash = fragment_id E proto_hash metadata in
      if Definitions s hash \<noteq> None then (Err (Module AlreadyExist), s)
      else (case get_vault_id E hash of None \<Rightarrow> (Panic, s)
      | Some vault \<Rightarrow>
     (case reserve E (balances s) vault (minimum_balance E) of None \<Rightarrow> (Err CurrencyError, s)
      | Some b \<Rightarrow>
        (Ok, s\<lparr>balances := b,
               Definitions := (Definitions s)(hash \<mapsto>
                 \<lparr>fd_proto_hash = proto_hash, fd_metadata = metadata, fd_permissions = permissions,
                  fd_unique = unique, fd_max_supply = max_supply, fd_creator = who,
                  fd_created_at = block_number s\<rparr>),
               Proto2Fragments := storage_append (Proto2Fragments s) proto_hash hash,
               fragments_events := fragments_events s @ [DefinitionCreated hash]\<rparr>))))
      | r \<Rightarrow> (r, s)))"

text \<open>\<open>EditionsCount::get(..).unwrap_or(Compact(0))\<close>.\<close>

definition editions_count :: "('b, 'c, 'p, 'x) fragments_state_scheme \<Rightarrow> hash128 \<Rightarrow> unit_id" where
  "editions_count s fragment_hash = (case EditionsCount s fragment_hash of None \<Rightarrow> 0 | Some n \<Rightarrow> n)"

text \<open>The check of a sale against the supply; \<open>None\<close> when it passes.\<close>

definition check_supply :: "('b, 'c, 'p, 'x) fragments_state_scheme \<Rightarrow> hash128
    \<Rightarrow> unit_id option \<Rightarrow> unit_id option \<Rightarrow> fragments_error option" where
  "check_supply s fragment_hash max_supply quantity =
     (case max_supply of None \<Rightarrow> None
      | Some supply \<Rightarrow>
          (let existing = editions_count s fragment_hash;
               left = sat_sub supply existing
           in case quantity of None \<Rightarrow> Some ParamsNotValid
              | Some quantity \<Rightarrow>
                  (if \<not> quantity \<le> left then Some MaxSupplyReached
                   else if left = 0 then Some MaxSupplyReached else None)))"

definition publish :: "account_id origin \<Rightarrow> hash128 \<Rightarrow> u128 \<Rightarrow> unit_id option \<Rightarrow> block_num option
    \<Rightarrow> unit_id option \<Rightarrow> ('b, 'c, 'p, 'x) fragments_state_scheme
    \<Rightarrow> fragments_error dispatch_error outcome \<times> ('b, 'c, 'p, 'x) fragments_state_scheme" where
  "publish og fragment_hash price quantity expires amount s =
     (case ensure_signed og of None \<Rightarrow> (Err BadOrigin, s)
      | Some who \<Rightarrow>
     (case ensure_definition_owner s fragment_hash who of
        Ok \<Rightarrow>
     (if Publishing s fragment_hash \<noteq> None then (Err (Module SaleAlreadyOpen), s)
      else (case Definitions s fragment_hash of None \<Rightarrow> (Err (Module NotFound), s)
      | Some fragment_data \<Rightarrow>
     (case check_supply s fragment_hash (fd_max_supply fragment_data) quantity of
        Some e \<Rightarrow> (Err (Module e), s)
      | None \<Rightarrow>
        (Ok, s\<lparr>Publishing := (Publishing s)(fragment_hash \<mapsto>
                 \<lparr>pd_price = price, pd_units_left = quantity, pd_expiration = expires, pd_amount = amount\<rparr>),
               fragments_events := fragments_events s @ [Published fragment_hash]\<rparr>))))
      | r \<Rightarrow> (r, s)))"

definition unpublish :: "account_id origin \<Rightarrow> hash128 \<Rightarrow> ('b, 'c, 'p, 'x) fragments_state_scheme
    \<Rightarrow> fragments_error dispatch_error outcome \<times> ('b, 'c, 'p, 'x) fragments_state_scheme" where
  "unpublish og fragment_hash s =
     (case ensure_signed og of None \<Rightarrow> (Err BadOrigin, s)
      | Some who \<Rightarrow>
     (case ensure_definition_owner s fragment_hash who of
        Ok \<Rightarrow>
     (if Publishing s fragment_hash = None then (Err (Module NotFound), s)
      else (Ok, s\<lparr>Publishing := (Publishing s)(fragment_hash := None),
                  fragments_events := fragments_events s @ [Unpublished fragment_hash]\<rparr>))
      | r \<Rightarrow> (r, s)))"

section \<open>Minting\<close>

text \<open>
  The check of the options against the definition: the hash and the length of the unique
  data, or the error.
\<close>

definition check_options :: "('b, 'p, 'y) fragments_ext_scheme \<Rightarrow> ('b, 'c, 'p, 'x) fragments_state_scheme
    \<Rightarrow> hash128 \<Rightarrow> unique_options option \<Rightarrow> fragment_buy_options \<Rightarrow> u64
    \<Rightarrow> fragments_error + (hash256 \<times> nat) option" where
  "check_options E s fragment_hash unique options quantity =
     (case options of
        UniqueData data \<Rightarrow>
          (if unique = None \<or> quantity \<noteq> 1 then Inl ParamsNotValid
           else if UniqueData2Edition s (fragment_hash, blake2_256 E data) \<noteq> None then Inl UniqueDataExists
           else Inr (Some (blake2_256 E data, length data)))
      | Quantity _ \<Rightarrow> (if unique \<noteq> None then Inl ParamsNotValid else Inr None))"

text \<open>
  The units left in a sale, or the supply left without one; a sale does not look at the
  supply. The result has the units of the sale reduced.
\<close>

definition take_units :: "('b, 'c, 'p, 'x) fragments_state_scheme \<Rightarrow> hash128
    \<Rightarrow> publishing_data option \<Rightarrow> unit_id option \<Rightarrow> u64
    \<Rightarrow> fragments_error + ('b, 'c, 'p, 'x) fragments_state_scheme" where
  "take_units s fragment_hash sale max_supply quantity =
     (case sale of
        Some sale \<Rightarrow>
          (case pd_units_left sale of
             None \<Rightarrow> Inr s
           | Some units_left \<Rightarrow>
               (if quantity > units_left then Inl PublishedQuantityReached
                else Inr (s\<lparr>Publishing := storage_mutate (Publishing s) fragment_hash
                       (\<lambda>sale. sale\<lparr>pd_units_left := Some (units_left - quantity)\<rparr>)\<rparr>)))
      | None \<Rightarrow>
          (case max_supply of
             None \<Rightarrow> Inr s
           | Some supply \<Rightarrow>
               (if quantity > sat_sub supply (editions_count s fragment_hash) then Inl MaxSupplyReached
                else Inr s)))"

definition mint_one :: "account_id \<Rightarrow> hash128 \<Rightarrow> 'p \<Rightarrow> block_num \<Rightarrow> hash256 option \<Rightarrow> block_num option
    \<Rightarrow> unit_id option \<Rightarrow> unit_id \<Rightarrow> ('b, 'c, 'p, 'x) fragments_state_scheme
    \<Rightarrow> ('b, 'c, 'p, 'x) fragments_state_scheme" where
  "mint_one who fragment_hash permissions current_block_number data_hash expiring_at amount i s =
     (let id = i + 1 in
      s\<lparr>Fragments := (Fragments s)((fragment_hash, id, 1) \<mapsto>
          \<lparr>fi_permissions = permissions, fi_created_at = current_block_number, fi_custom_data = data_hash,
           fi_expiring_at = expiring_at, fi_amount = amount\<rparr>),
        CopiesCount := (CopiesCount s)((fragment_hash, id) \<mapsto> 1),
        Inventory := storage_append (Inventory s) (who, fragment_hash) (id, 1),
        Owners := storage_append (Owners s) (fragment_hash, who) (id, 1),
        Expirations := (case expiring_at of None \<Rightarrow> Expirations s
          | Some n \<Rightarrow> storage_append (Expirations s) n (fragment_hash, id, 1)),
        fragments_events := fragments_events s @ [InventoryAdded who fragment_hash (id, 1)]\<rparr>)"

text \<open>
  The range \<open>existing..(existing + quantity)\<close>; it is empty when the sum wraps around.
\<close>

definition edition_range :: "unit_id \<Rightarrow> u64 \<Rightarrow> unit_id list" where
  "edition_range existing quantity =
     map (\<lambda>i. existing + of_nat i) [0..<unat (existing + quantity) - unat existing]"

definition mint_fragments :: "('b, 'p, 'y) fragments_ext_scheme \<Rightarrow> account_id \<Rightarrow> hash128
    \<Rightarrow> publishing_data option \<Rightarrow> fragment_buy_options \<Rightarrow> u64 \<Rightarrow> block_num \<Rightarrow> block_num option
    \<Rightarrow> unit_id option \<Rightarrow> ('b, 'c, 'p, 'x) fragments_state_scheme
    \<Rightarrow> fragments_error dispatch_error outcome \<times> ('b, 'c, 'p, 'x) fragments_state_scheme" where
  "mint_fragments E who fragment_hash sale options quantity current_block_number expiring_at amount s =
     (if (case expiring_at of None \<Rightarrow> False | Some n \<Rightarrow> \<not> n > current_block_number)
      then (Err (Module ParamsNotValid), s)
      else (case Definitions s fragment_hash of None \<Rightarrow> (Err (Module NotFound), s)
      | Some fragment_data \<Rightarrow>
     (case extrinsic_index s of None \<Rightarrow> (Err (Module Fragments_SystematicFailure), s)
      | Some ei \<Rightarrow>
     (case check_options E s fragment_hash (fd_unique fragment_data) options quantity of
        Inl e \<Rightarrow> (Err (Module e), s)
      | Inr data \<Rightarrow>
     (let existing = editions_count s fragment_hash in
     (case take_units s fragment_hash sale (fd_max_supply fragment_data) quantity of
        Inl e \<Rightarrow> (Err (Module e), s)
      | Inr s1 \<Rightarrow>
          (let s2 = fold (mint_one who fragment_hash (fd_permissions fragment_data)
                            current_block_number (map_option fst data) expiring_at amount)
                      (edition_range existing quantity) s1;
               s3 = (case data of None \<Rightarrow> s2
                     | Some (data_hash, data_len) \<Rightarrow>
                         index_data ei data_len data_hash
                           (s2\<lparr>UniqueData2Edition := (UniqueData2Edition s2)
                                 ((fragment_hash, data_hash) \<mapsto> existing)\<rparr>))
           in (Ok, s3\<lparr>EditionsCount := (EditionsCount s3)(fragment_hash \<mapsto> existing + quantity)\<rparr>))))))))"

fun quantity_of :: "fragment_buy_options \<Rightarrow> u64" where
  "quantity_of (Quantity amount) = amount"
| "quantity_of (UniqueData _) = 1"

definition mint :: "('b, 'p, 'y) fragments_ext_scheme \<Rightarrow> account_id origin \<Rightarrow> hash128
    \<Rightarrow> fragment_buy_options \<Rightarrow> unit_id option \<Rightarrow> ('b, 'c, 'p, 'x) fragments_state_scheme
    \<Rightarrow> fragments_error dispatch_error outcome \<times> ('b, 'c, 'p, 'x) fragments_state_scheme" where
  "mint E og fragment_hash options amount s =
     (case ensure_signed og of None \<Rightarrow> (Err BadOrigin, s)
      | Some who \<Rightarrow>
     (case ensure_definition_owner s fragment_hash who of
        Ok \<Rightarrow> mint_fragments E who fragment_hash None options (quantity_of options)
                (block_number s) None amount s
      | r \<Rightarrow> (r, s)))"

section \<open>Buying\<close>

text \<open>
  Whether the buyer can pay: the sum of the price and the balance an account needs to exist
  is a wrapping one.
\<close>

definition can_pay :: "('b, 'y) ext_scheme \<Rightarrow> 'b \<Rightarrow> asset_id option \<Rightarrow> account_id \<Rightarrow> u128 \<Rightarrow> bool" where
  "can_pay E b currency who price =
     (case currency of
        Some currency \<Rightarrow> asset_balance E b currency who \<ge> price + asset_minimum_balance E b currency
      | None \<Rightarrow> free_balance E b who \<ge> price + minimum_balance E)"

definition pay :: "('b, 'y) ext_scheme \<Rightarrow> 'b \<Rightarrow> asset_id option \<Rightarrow> account_id \<Rightarrow> account_id \<Rightarrow> u128 \<Rightarrow> 'b option" where
  "pay E b currency who vault price =
     (case currency of
        Some currency \<Rightarrow> asset_transfer E b currency who vault price
      | None \<Rightarrow> transfer_keep_alive E b who vault price)"

definition buy :: "('b, 'p, 'y) fragments_ext_scheme \<Rightarrow> account_id origin \<Rightarrow> hash128
    \<Rightarrow> fragment_buy_options \<Rightarrow> ('b, 'c, 'p, 'x) fragments_state_scheme
    \<Rightarrow> fragments_error dispatch_error outcome \<times> ('b, 'c, 'p, 'x) fragments_state_scheme" where
  "buy E og fragment_hash options s =
     (case ensure_signed og of None \<Rightarrow> (Err BadOrigin, s)
      | Some who \<Rightarrow>
     (case Publishing s fragment_hash of None \<Rightarrow> (Err (Module NotFound), s)
      | Some sale \<Rightarrow>
     (if (case pd_expiration sale of None \<Rightarrow> False | Some n \<Rightarrow> \<not> block_number s < n)
      then (Err (Module Expired_Error), s)
      else if pd_units_left sale = Some 0 then (Err (Module SoldOut), s)
      else (case Definitions s fragment_hash of None \<Rightarrow> (Err (Module NotFound), s)
      | Some fragment_data \<Rightarrow>
     (case get_vault_id E fragment_hash of None \<Rightarrow> (Panic, s)
      | Some vault \<Rightarrow>
     (let quantity = quantity_of options;
          price = sat_mul (pd_price sale) (ucast quantity);
          currency = fm_currency (fd_metadata fragment_data)
      in
      if \<not> can_pay E (balances s) currency who price then (Err (Module Fragments_InsufficientBalance), s)
      else
     (case mint_fragments E who fragment_hash (Some sale) options quantity (block_number s) None
             (pd_amount sale) s of
        (Ok, s1) \<Rightarrow>
          (case pay E (balances s1) currency who vault price of
             None \<Rightarrow> (Err (Module Fragments_InsufficientBalance), s1)
           | Some b \<Rightarrow> (Ok, s1\<lparr>balances := b\<rparr>))
      | (r, s1) \<Rightarrow> (r, s1))))))))"

section \<open>Giving\<close>

text \<open>The new permissions may lack flags of the old ones but not add any.\<close>

definition perms_allowed :: "('b, 'p, 'y) fragments_ext_scheme \<Rightarrow> 'p \<Rightarrow> 'p \<Rightarrow> bool" where
  "perms_allowed E old new \<longleftrightarrow>
     (\<not> has_perm E old (EDIT E) \<longrightarrow> \<not> has_perm E new (EDIT E)) \<and>
     (\<not> has_perm E old (COPY E) \<longrightarrow> \<not> has_perm E new (COPY E)) \<and>
     (\<not> has_perm E old (TRANSFER E) \<longrightarrow> \<not> has_perm E new (TRANSFER E))"

text \<open>The earlier of the two expirations, as far as there are any.\<close>

definition copy_expiration :: "block_num option \<Rightarrow> block_num option \<Rightarrow> block_num option" where
  "copy_expiration expiring_at expiration =
     (case expiring_at of
        Some n \<Rightarrow> (case expiration of Some m \<Rightarrow> (if m < n then Some m else Some n) | None \<Rightarrow> Some n)
      | None \<Rightarrow> expiration)"

definition give_copy :: "hash128 \<Rightarrow> unit_id \<Rightarrow> account_id \<Rightarrow> 'p \<Rightarrow> block_num option
    \<Rightarrow> 'p fragment_instance \<Rightarrow> unit_id \<Rightarrow> ('b, 'c, 'p, 'x) fragments_state_scheme
    \<Rightarrow> ('b, 'c, 'p, 'x) fragments_state_scheme" where
  "give_copy class edition to perms expiration item_data copy s =
     (let expires = copy_expiration (fi_expiring_at item_data) expiration
      in s\<lparr>CopiesCount := (CopiesCount s)((class, edition) \<mapsto> copy),
           Owners := storage_append (Owners s) (class, to) (edition, copy),
           Inventory := storage_append (Inventory s) (to, class) (edition, copy),
           Expirations := (case expires of None \<Rightarrow> Expirations s
             | Some n \<Rightarrow> storage_append (Expirations s) n (class, edition, copy)),
           Fragments := (Fragments s)((class, edition, copy) \<mapsto>
             item_data\<lparr>fi_permissions := perms, fi_expiring_at := expires\<rparr>),
           fragments_events := fragments_events s @ [InventoryAdded to class (edition, copy)]\<rparr>)"

definition give_original :: "hash128 \<Rightarrow> unit_id \<Rightarrow> unit_id \<Rightarrow> account_id \<Rightarrow> account_id \<Rightarrow> 'p
    \<Rightarrow> ('b, 'c, 'p, 'x) fragments_state_scheme \<Rightarrow> ('b, 'c, 'p, 'x) fragments_state_scheme" where
  "give_original class edition copy who to perms s =
     (let s1 = s\<lparr>Owners := storage_mutate (Owners s) (class, who) (retain_not (edition, copy)),
                Inventory := storage_mutate (Inventory s) (who, class) (retain_not (edition, copy)),
                fragments_events := fragments_events s @ [InventoryRemoved who class (edition, copy)]\<rparr>;
          s2 = s1\<lparr>Owners := storage_append (Owners s1) (class, to) (edition, copy),
                 Inventory := storage_append (Inventory s1) (to, class) (edition, copy),
                 fragments_events := fragments_events s1 @ [InventoryAdded to class (edition, copy)]\<rparr>
      in s2\<lparr>Fragments := storage_mutate (Fragments s2) (class, edition, copy)
              (\<lambda>item_data. item_data\<lparr>fi_permissions := perms\<rparr>)\<rparr>)"

definition give :: "('b, 'p, 'y) fragments_ext_scheme \<Rightarrow> account_id origin \<Rightarrow> hash128 \<Rightarrow> unit_id
    \<Rightarrow> unit_id \<Rightarrow> multi_address \<Rightarrow> 'p option \<Rightarrow> block_num option
    \<Rightarrow> ('b, 'c, 'p, 'x) fragments_state_scheme
    \<Rightarrow> fragments_error dispatch_error outcome \<times> ('b, 'c, 'p, 'x) fragments_state_scheme" where
  "give E og class edition copy dest new_permissions expiration s =
     (case ensure_signed og of None \<Rightarrow> (Err BadOrigin, s)
      | Some who \<Rightarrow>
     (case Fragments s (class, edition, copy) of None \<Rightarrow> (Err (Module NotFound), s)
      | Some item_data \<Rightarrow>
     (if (case fi_expiring_at item_data of None \<Rightarrow> False | Some n \<Rightarrow> \<not> block_number s < n)
      then (Err (Module NotFound), s)
      else if (case expiration of None \<Rightarrow> False | Some n \<Rightarrow> \<not> block_number s < n)
      then (Err (Module ParamsNotValid), s)
      else (case Inventory s (who, class) of None \<Rightarrow> (Err (Module NotFound), s)
      | Some ids \<Rightarrow>
     (if (edition, copy) \<notin> set ids then (Err (Module NoPermission), s)
      else if \<not> has_perm E (fi_permissions item_data) (TRANSFER E) then (Err (Module NoPermission), s)
      else if (case new_permissions of None \<Rightarrow> False
               | Some new_perms \<Rightarrow> \<not> perms_allowed E (fi_permissions item_data) new_perms)
      then (Err (Module NoPermission), s)
      else
       (let perms = (case new_permissions of None \<Rightarrow> fi_permissions item_data | Some new_perms \<Rightarrow> new_perms)
        in
       (case lookup_address E (balances s) dest of None \<Rightarrow> (Err CannotLookup, s)
        | Some to \<Rightarrow>
       (if has_perm E (fi_permissions item_data) (COPY E)
        then (case CopiesCount s (class, edition) of None \<Rightarrow> (Err (Module NotFound), s)
              | Some copies \<Rightarrow>
                  (Ok, give_copy class edition to perms expiration item_data (copies + 1) s))
        else (Ok, give_original class edition copy who to perms s)))))))))"

definition create_account :: "('b, 'p, 'y) fragments_ext_scheme \<Rightarrow> account_id origin \<Rightarrow> hash128
    \<Rightarrow> unit_id \<Rightarrow> unit_id \<Rightarrow> ('b, 'c, 'p, 'x) fragments_state_scheme
    \<Rightarrow> fragments_error dispatch_error outcome \<times> ('b, 'c, 'p, 'x) fragments_state_scheme" where
  "create_account E og class edition copy s =
     (case ensure_signed og of None \<Rightarrow> (Err BadOrigin, s)
      | Some who \<Rightarrow>
     (case Inventory s (who, class) of None \<Rightarrow> (Err (Module NotFound), s)
      | Some ids \<Rightarrow>
     (if (edition, copy) \<notin> set ids then (Err (Module NoPermission), s)
      else (case get_fragment_account_id E class edition copy of None \<Rightarrow> (Panic, s)
      | Some frag_account \<Rightarrow>
     (case reserve E (balances s) frag_account (minimum_balance E) of None \<Rightarrow> (Err CurrencyError, s)
      | Some b \<Rightarrow> (Ok, s\<lparr>balances := b\<rparr>))))))"

section \<open>Expiration\<close>

text \<open>
  The first owner, in the order of the storage, whose list has the instance; only its entry
  is removed.
\<close>

definition find_owner :: "('b, 'p, 'y) fragments_ext_scheme \<Rightarrow> hash128 \<Rightarrow> unit_id \<times> unit_id
    \<Rightarrow> ('b, 'c, 'p, 'x) fragments_state_scheme \<Rightarrow> account_id option" where
  "find_owner E class i s =
     find (\<lambda>owner. position i (listed (Owners s) (class, owner)) \<noteq> None)
       (iter_accounts E {owner. Owners s (class, owner) \<noteq> None})"

definition expire_one :: "('b, 'p, 'y) fragments_ext_scheme \<Rightarrow> hash128 \<times> unit_id \<times> unit_id
    \<Rightarrow> ('b, 'c, 'p, 'x) fragments_state_scheme \<Rightarrow> ('b, 'c, 'p, 'x) fragments_state_scheme" where
  "expire_one E item s =
     (case item of (class, edition, copy) \<Rightarrow>
      let s1 = s\<lparr>Fragments := (Fragments s)((class, edition, copy) := None)\<rparr>
      in (case find_owner E class (edition, copy) s1 of
           None \<Rightarrow> s1
         | Some owner \<Rightarrow>
             s1\<lparr>Owners := storage_mutate (Owners s1) (class, owner) (remove_first (edition, copy)),
                Inventory := storage_mutate (Inventory s1) (owner, class) (remove_first (edition, copy)),
                fragments_events := fragments_events s1 @ [Expired owner class (edition, copy)]\<rparr>))"

definition fragments_on_finalize :: "('b, 'p, 'y) fragments_ext_scheme \<Rightarrow> block_num
    \<Rightarrow> ('b, 'c, 'p, 'x) fragments_state_scheme \<Rightarrow> ('b, 'c, 'p, 'x) fragments_state_scheme" where
  "fragments_on_finalize E n s =
     (let s1 = s\<lparr>Expirations := (Expirations s)(n := None)\<rparr>
      in case Expirations s n of None \<Rightarrow> s1 | Some expiring \<Rightarrow> fold (expire_one E) expiring s1)"

datatype 'p fragments_call =
    Create hash256 fragment_metadata 'p "unique_options option" "unit_id option"
  | Publish hash128 u128 "unit_id option" "block_num option" "unit_id option"
  | Unpublish hash128
  | Mint hash128 fragment_buy_options "unit_id option"
  | Buy hash128 fragment_buy_options
  | Give hash128 unit_id unit_id multi_address "'p option" "block_num option"
  | Create_account hash128 unit_id unit_id

fun fragments_dispatch :: "('b, 'p, 'y) fragments_ext_scheme \<Rightarrow> account_id origin
    \<Rightarrow> 'p fragments_call \<Rightarrow> ('b, 'c, 'p, 'x) fragments_state_scheme
    \<Rightarrow> fragments_error dispatch_error outcome \<times> ('b, 'c, 'p, 'x) fragments_state_scheme" where
  "fragments_dispatch E og (Create h md p u m) s = create E og h md p u m s"
| "fragments_dispatch E og (Publish f price q ex a) s = publish og f price q ex a s"
| "fragments_dispatch E og (Unpublish f) s = unpublish og f s"
| "fragments_dispatch E og (Mint f opt a) s = mint E og f opt a s"
| "fragments_dispatch E og (Buy f opt) s = buy E og f opt s"
| "fragments_dispatch E og (Give f e c dest p ex) s = give E og f e c dest p ex s"
| "fragments_dispatch E og (Create_account f e c) s = create_account E og f e c s"

section \<open>What minting does\<close>

text \<open>The instance that is stored for every edition minted.\<close>

definition minted :: "'p \<Rightarrow> block_num \<Rightarrow> hash256 option \<Rightarrow> block_num option \<Rightarrow> unit_id option \<Rightarrow> 'p fragment_instance" where
  "minted p n h ex a = \<lparr>fi_permissions = p, fi_created_at = n, fi_custom_data = h, fi_expiring_at = ex, fi_amount = a\<rparr>"

lemma edition_range_exact:
  assumes "unat e + unat q < 2 ^ 64"
  shows "edition_range e q = map (\<lambda>i. e + of_nat i) [0..<unat q]"
  using unat_plus_small [of e q] assms by (simp add: edition_range_def)

lemma mint_all_fields:
  "Fragments (fold (mint_one who f p n h x a) is s) y =
    (if \<exists>i \<in> set is. y = (f, i + 1, 1) then Some (minted p n h x a) else Fragments s y)"
  "CopiesCount (fold (mint_one who f p n h x a) is s) z =
    (if \<exists>i \<in> set is. z = (f, i + 1) then Some 1 else CopiesCount s z)"
  "listed (Inventory (fold (mint_one who f p n h x a) is s)) k =
    listed (Inventory s) k @ (if k = (who, f) then map (\<lambda>i. (i + 1, 1)) is else [])"
  "listed (Owners (fold (mint_one who f p n h x a) is s)) l =
    listed (Owners s) l @ (if l = (f, who) then map (\<lambda>i. (i + 1, 1)) is else [])"
proof (induction "is" arbitrary: s)
  case (Cons i "is")
  { case 1 show ?case using Cons(1) [of "mint_one who f p n h x a i s"] by (auto simp: mint_one_def Let_def minted_def)
  next case 2 show ?case using Cons(2) [of "mint_one who f p n h x a i s"] by (auto simp: mint_one_def Let_def)
  next case 3 show ?case using Cons(3) [of "mint_one who f p n h x a i s"] by (auto simp: mint_one_def Let_def storage_simps)
  next case 4 show ?case using Cons(4) [of "mint_one who f p n h x a i s"] by (auto simp: mint_one_def Let_def storage_simps) }
qed simp_all

lemma mint_all_dom:
  "dom (Inventory (fold (mint_one who f p n h x a) is s)) = dom (Inventory s) \<union> (if is = [] then {} else {(who, f)})"
  "dom (Owners (fold (mint_one who f p n h x a) is s)) = dom (Owners s) \<union> (if is = [] then {} else {(f, who)})"
proof (induction "is" arbitrary: s)
  case (Cons i "is")
  { case 1 show ?case using Cons(1) [of "mint_one who f p n h x a i s"] by (auto simp: mint_one_def Let_def storage_simps)
  next case 2 show ?case using Cons(2) [of "mint_one who f p n h x a i s"] by (auto simp: mint_one_def Let_def storage_simps) }
qed simp_all

lemma mint_all_other [simp]:
  "EditionsCount (fold (mint_one who f p n h x a) is s) = EditionsCount s"
  "Definitions (fold (mint_one who f p n h x a) is s) = Definitions s"
  "Publishing (fold (mint_one who f p n h x a) is s) = Publishing s"
  "UniqueData2Edition (fold (mint_one who f p n h x a) is s) = UniqueData2Edition s"
  "Protos (fold (mint_one who f p n h x a) is s) = Protos s"
  "DetachedHashes (fold (mint_one who f p n h x a) is s) = DetachedHashes s"
  "balances (fold (mint_one who f p n h x a) is s) = balances s"
  "block_number (fold (mint_one who f p n h x a) is s) = block_number s"
  "extrinsic_index (fold (mint_one who f p n h x a) is s) = extrinsic_index s"
  "Proto2Fragments (fold (mint_one who f p n h x a) is s) = Proto2Fragments s"
  by (induction "is" arbitrary: s) (simp_all add: mint_one_def Let_def)

lemma mint_all_expirations [simp]:
  "Expirations (fold (mint_one who f p n h None a) is s) = Expirations s"
  by (induction "is" arbitrary: s) (simp_all add: mint_one_def Let_def)

text \<open>What \<open>take_units\<close> may change: the units of the sale.\<close>

lemma take_units_Inr:
  assumes "take_units s f sale supply q = Inr s1"
  obtains "s1 = s" | sd left where "sale = Some sd" and "pd_units_left sd = Some left" and "q \<le> left"
    and "s1 = s\<lparr>Publishing := storage_mutate (Publishing s) f (\<lambda>x. x\<lparr>pd_units_left := Some (left - q)\<rparr>)\<rparr>"
  using assms by (auto simp: take_units_def split: option.splits if_splits)

lemma take_units_frame:
  "take_units s f sale supply q = Inr s1 \<Longrightarrow> \<exists>p. s1 = s\<lparr>Publishing := p\<rparr>"
proof (erule take_units_Inr)
  assume "s1 = s"
  then show ?thesis by (intro exI [of _ "Publishing s"]) simp
qed blast

lemma mint_fragments_Ok:
  assumes "mint_fragments E who f sale opt q n ex a s = (Ok, t)"
  obtains d ei data p where "Definitions s f = Some d" and "extrinsic_index s = Some ei"
    and "check_options E s f (fd_unique d) opt q = Inr data"
    and "take_units s f sale (fd_max_supply d) q = Inr (s\<lparr>Publishing := p\<rparr>)"
    and "\<forall>m. ex = Some m \<longrightarrow> n < m"
    and "t = (let s2 = fold (mint_one who f (fd_permissions d) n (map_option fst data) ex a)
                (edition_range (editions_count s f) q) (s\<lparr>Publishing := p\<rparr>)
       in s2\<lparr>UniqueData2Edition := (case data of None \<Rightarrow> UniqueData2Edition s
                | Some (h, l) \<Rightarrow> (UniqueData2Edition s)((f, h) \<mapsto> editions_count s f)),
             indexed := indexed s2 @ (case data of None \<Rightarrow> [] | Some (h, l) \<Rightarrow> [(ei, of_nat l, h)]),
             EditionsCount := (EditionsCount s)(f \<mapsto> editions_count s f + q)\<rparr>)"
proof -
  from assms obtain d ei data s1 where d: "Definitions s f = Some d" and ei: "extrinsic_index s = Some ei"
    and opt: "check_options E s f (fd_unique d) opt q = Inr data"
    and take: "take_units s f sale (fd_max_supply d) q = Inr s1"
    and ex: "\<forall>m. ex = Some m \<longrightarrow> n < m"
    unfolding mint_fragments_def Let_def by (auto split: option.splits if_splits sum.splits)
  obtain p where p: "s1 = s\<lparr>Publishing := p\<rparr>" using take_units_frame [OF take] by blast
  show ?thesis
    by (rule that [OF d ei opt _ ex, of p])
      (use assms d ei opt take ex p in \<open>auto simp: mint_fragments_def Let_def index_data_def editions_count_def
         split: option.splits if_splits\<close>)
qed

lemma mint_fragments_failure: "mint_fragments E who f sale opt q n ex a s = (r, t) \<Longrightarrow> r \<noteq> Ok \<Longrightarrow> t = s"
  by (auto simp: mint_fragments_def Let_def split: option.splits if_splits sum.splits)

interpretation mint_fragments: checked_call "mint_fragments E who f sale opt q n ex a" for E who f sale opt q n ex a
  by unfold_locales (rule mint_fragments_failure)

lemma mint_fragments_effect:
  assumes "mint_fragments E who f sale opt q n None a s = (Ok, t)"
  obtains d data p where "Definitions s f = Some d"
    and "check_options E s f (fd_unique d) opt q = Inr data"
    and "take_units s f sale (fd_max_supply d) q = Inr (s\<lparr>Publishing := p\<rparr>)"
    and "\<And>y. Fragments t y = (if \<exists>i \<in> set (edition_range (editions_count s f) q). y = (f, i + 1, 1)
          then Some (minted (fd_permissions d) n (map_option fst data) None a) else Fragments s y)"
    and "\<And>z. CopiesCount t z = (if \<exists>i \<in> set (edition_range (editions_count s f) q). z = (f, i + 1)
          then Some 1 else CopiesCount s z)"
    and "\<And>k. listed (Inventory t) k = listed (Inventory s) k @
          (if k = (who, f) then map (\<lambda>i. (i + 1, 1)) (edition_range (editions_count s f) q) else [])"
    and "\<And>l. listed (Owners t) l = listed (Owners s) l @
          (if l = (f, who) then map (\<lambda>i. (i + 1, 1)) (edition_range (editions_count s f) q) else [])"
    and "dom (Inventory t) = dom (Inventory s) \<union>
          (if edition_range (editions_count s f) q = [] then {} else {(who, f)})"
    and "dom (Owners t) = dom (Owners s) \<union>
          (if edition_range (editions_count s f) q = [] then {} else {(f, who)})"
    and "EditionsCount t = (EditionsCount s)(f \<mapsto> editions_count s f + q)"
    and "UniqueData2Edition t = (case data of None \<Rightarrow> UniqueData2Edition s
                | Some (h, l) \<Rightarrow> (UniqueData2Edition s)((f, h) \<mapsto> editions_count s f))"
    and "Publishing t = p" and "Definitions t = Definitions s" and "Protos t = Protos s"
    and "DetachedHashes t = DetachedHashes s" and "balances t = balances s"
    and "block_number t = block_number s" and "Expirations t = Expirations s"
    and "Proto2Fragments t = Proto2Fragments s"
  using assms
proof (cases rule: mint_fragments_Ok)
  case (1 d ei data p)
  show ?thesis
    by (rule that [OF 1(1,3,4)]) (simp_all add: 1(6) Let_def mint_all_fields mint_all_dom)
qed

section \<open>What the calls do\<close>

lemma ensure_proto_owner_Ok:
  "ensure_proto_owner s h who = Ok \<longleftrightarrow>
   (\<exists>p. Protos s h = Some p \<and> proto_owned_by p = User who) \<and> DetachedHashes s h = None"
  by (auto simp: ensure_proto_owner_def split: option.splits proto_owner.splits)

lemma ensure_definition_owner_Ok:
  "ensure_definition_owner s f who = Ok \<longleftrightarrow>
   (\<exists>d. Definitions s f = Some d \<and> ensure_proto_owner s (fd_proto_hash d) who = Ok)"
  by (auto simp: ensure_definition_owner_def split: option.splits)

lemma create_Ok:
  assumes "create E og h md p u m s = (Ok, t)"
  obtains who b vault where "og = Signed who" and "ensure_proto_owner s h who = Ok"
    and "Definitions s (fragment_id E h md) = None" and "get_vault_id E (fragment_id E h md) = Some vault"
    and "reserve E (balances s) vault (minimum_balance E) = Some b"
    and "t = s\<lparr>balances := b,
           Definitions := (Definitions s)(fragment_id E h md \<mapsto>
             \<lparr>fd_proto_hash = h, fd_metadata = md, fd_permissions = p, fd_unique = u,
              fd_max_supply = m, fd_creator = who, fd_created_at = block_number s\<rparr>),
           Proto2Fragments := storage_append (Proto2Fragments s) h (fragment_id E h md),
           fragments_events := fragments_events s @ [DefinitionCreated (fragment_id E h md)]\<rparr>"
  using assms by (auto simp: create_def Let_def split: option.splits outcome.splits if_splits)

lemma publish_Ok:
  assumes "publish og f price q ex a s = (Ok, t)"
  obtains who d where "og = Signed who" and "ensure_definition_owner s f who = Ok"
    and "Publishing s f = None" and "Definitions s f = Some d"
    and "check_supply s f (fd_max_supply d) q = None"
    and "t = s\<lparr>Publishing := (Publishing s)(f \<mapsto>
             \<lparr>pd_price = price, pd_units_left = q, pd_expiration = ex, pd_amount = a\<rparr>),
           fragments_events := fragments_events s @ [Published f]\<rparr>"
  using assms by (auto simp: publish_def split: option.splits outcome.splits if_splits)

lemma unpublish_Ok:
  assumes "unpublish og f s = (Ok, t)"
  obtains who where "og = Signed who" and "ensure_definition_owner s f who = Ok" and "Publishing s f \<noteq> None"
    and "t = s\<lparr>Publishing := (Publishing s)(f := None),
           fragments_events := fragments_events s @ [Unpublished f]\<rparr>"
  using assms by (auto simp: unpublish_def split: option.splits outcome.splits if_splits)

lemma mint_Ok:
  assumes "mint E og f opt a s = (Ok, t)"
  obtains who where "og = Signed who" and "ensure_definition_owner s f who = Ok"
    and "mint_fragments E who f None opt (quantity_of opt) (block_number s) None a s = (Ok, t)"
  using assms by (auto simp: mint_def split: option.splits outcome.splits)

text \<open>A purchase that got past its checks: the minting went through, the payment may not have.\<close>

lemma buy_cases:
  assumes "buy E og f opt s = (r, t)"
  obtains (refused) "r \<noteq> Ok" and "t = s"
  | (minted) who sale d vault s1 where "og = Signed who" and "Publishing s f = Some sale"
      and "Definitions s f = Some d" and "get_vault_id E f = Some vault"
      and "\<forall>n. pd_expiration sale = Some n \<longrightarrow> block_number s < n" and "pd_units_left sale \<noteq> Some 0"
      and "can_pay E (balances s) (fm_currency (fd_metadata d)) who (sat_mul (pd_price sale) (ucast (quantity_of opt)))"
      and "mint_fragments E who f (Some sale) opt (quantity_of opt) (block_number s) None (pd_amount sale) s = (Ok, s1)"
      and "(case pay E (balances s1) (fm_currency (fd_metadata d)) who vault
              (sat_mul (pd_price sale) (ucast (quantity_of opt))) of
             None \<Rightarrow> r = Err (Module Fragments_InsufficientBalance) \<and> t = s1
           | Some b \<Rightarrow> r = Ok \<and> t = s1\<lparr>balances := b\<rparr>)"
proof (cases "t = s \<and> r \<noteq> Ok")
  case True
  then show ?thesis using refused by blast
next
  case False
  with assms obtain who sale d vault where "og = Signed who" "Publishing s f = Some sale"
      "Definitions s f = Some d" "get_vault_id E f = Some vault"
      "\<forall>n. pd_expiration sale = Some n \<longrightarrow> block_number s < n" "pd_units_left sale \<noteq> Some 0"
      "can_pay E (balances s) (fm_currency (fd_metadata d)) who (sat_mul (pd_price sale) (ucast (quantity_of opt)))"
    unfolding buy_def Let_def by (auto split: option.splits if_splits)
  note b = this
  obtain r1 s1 where m: "mint_fragments E who f (Some sale) opt (quantity_of opt) (block_number s) None (pd_amount sale) s = (r1, s1)"
    by fastforce
  have ok: "r1 = Ok"
    using False assms b m mint_fragments_failure [OF m]
    by (cases r1) (auto simp: buy_def Let_def split: option.splits if_splits)
  show ?thesis
    by (rule minted [OF b, of s1])
      (use assms b m ok in \<open>auto simp: buy_def Let_def split: option.splits if_splits\<close>)
qed

text \<open>What a gift requires.\<close>

definition giveable :: "('b, 'p, 'y) fragments_ext_scheme \<Rightarrow> account_id \<Rightarrow> hash128 \<Rightarrow> unit_id \<Rightarrow> unit_id
    \<Rightarrow> 'p option \<Rightarrow> 'p fragment_instance \<Rightarrow> ('b, 'c, 'p, 'x) fragments_state_scheme \<Rightarrow> bool" where
  "giveable E who cl e k np item s \<longleftrightarrow>
     Fragments s (cl, e, k) = Some item \<and> (e, k) \<in> set (listed (Inventory s) (who, cl)) \<and>
     (\<forall>n. fi_expiring_at item = Some n \<longrightarrow> block_number s < n) \<and>
     has_perm E (fi_permissions item) (TRANSFER E) \<and>
     (\<forall>p. np = Some p \<longrightarrow> perms_allowed E (fi_permissions item) p)"

definition given_perms :: "'p option \<Rightarrow> 'p fragment_instance \<Rightarrow> 'p" where
  "given_perms np item = (case np of None \<Rightarrow> fi_permissions item | Some p \<Rightarrow> p)"

lemma give_Ok:
  assumes "give E og cl e k dest np ex s = (Ok, t)"
  obtains (copied) who item to copies where "og = Signed who" and "giveable E who cl e k np item s"
      and "lookup_address E (balances s) dest = Some to" and "has_perm E (fi_permissions item) (COPY E)"
      and "CopiesCount s (cl, e) = Some copies" and "\<forall>n. ex = Some n \<longrightarrow> block_number s < n"
      and "t = give_copy cl e to (given_perms np item) ex item (copies + 1) s"
  | (moved) who item to where "og = Signed who" and "giveable E who cl e k np item s"
      and "lookup_address E (balances s) dest = Some to" and "\<not> has_perm E (fi_permissions item) (COPY E)"
      and "t = give_original cl e k who to (given_perms np item) s"
proof -
  from assms obtain who item to where og: "og = Signed who" and g: "giveable E who cl e k np item s"
    and to: "lookup_address E (balances s) dest = Some to" and ex: "\<forall>n. ex = Some n \<longrightarrow> block_number s < n"
    unfolding give_def Let_def by (auto simp: giveable_def listed_def split: option.splits if_splits)
  show ?thesis
  proof (cases "has_perm E (fi_permissions item) (COPY E)")
    case True
    moreover obtain copies where "CopiesCount s (cl, e) = Some copies"
      using assms g og to True
      by (cases "CopiesCount s (cl, e)") (auto simp: give_def Let_def giveable_def split: option.splits if_splits)
    ultimately show ?thesis
      using assms og g to ex
      by (intro copied [OF og g to]) (auto simp: give_def Let_def giveable_def given_perms_def split: option.splits if_splits)
  next
    case False
    then show ?thesis
      using assms og g to
      by (intro moved [OF og g to]) (auto simp: give_def Let_def giveable_def given_perms_def split: option.splits if_splits)
  qed
qed

lemma create_account_Ok:
  assumes "create_account E og cl e k s = (Ok, t)"
  obtains who acc b where "og = Signed who" and "(e, k) \<in> set (listed (Inventory s) (who, cl))"
    and "get_fragment_account_id E cl e k = Some acc"
    and "reserve E (balances s) acc (minimum_balance E) = Some b" and "t = s\<lparr>balances := b\<rparr>"
  using assms by (auto simp: create_account_def listed_def split: option.splits if_splits)

section \<open>Failing calls\<close>

interpretation create: checked_call "create E og h md p u m" for E og h md p u m
  by unfold_locales (auto simp: create_def Let_def split: option.splits outcome.splits if_splits)

interpretation publish: checked_call "publish og f price q ex a" for og f price q ex a
  by unfold_locales (auto simp: publish_def split: option.splits outcome.splits if_splits)

interpretation unpublish: checked_call "unpublish og f" for og f
  by unfold_locales (auto simp: unpublish_def split: option.splits outcome.splits if_splits)

interpretation mint: checked_call "mint E og f opt a" for E og f opt a
  by unfold_locales
    (auto simp: mint_def dest: mint_fragments.failure_keeps_state split: option.splits outcome.splits)

interpretation give: checked_call "give E og cl e k dest np ex" for E og cl e k dest np ex
  by unfold_locales (auto simp: give_def Let_def split: option.splits if_splits)

interpretation create_account: checked_call "create_account E og cl e k" for E og cl e k
  by unfold_locales (auto simp: create_account_def split: option.splits if_splits)

lemma fragments_dispatch_failure:
  assumes "fragments_dispatch E og c s = (r, t)" and "r \<noteq> Ok" and "\<nexists>f opt. c = Buy f opt"
  shows "t = s"
  using assms
  by (cases c) (auto dest: create.failure_keeps_state publish.failure_keeps_state
      unpublish.failure_keeps_state mint.failure_keeps_state give.failure_keeps_state
      create_account.failure_keeps_state)

fun fragments_run :: "('b, 'p, 'y) fragments_ext_scheme \<Rightarrow> (account_id origin \<times> 'p fragments_call) list
    \<Rightarrow> ('b, 'c, 'p, 'x) fragments_state_scheme \<Rightarrow> ('b, 'c, 'p, 'x) fragments_state_scheme" where
  "fragments_run E [] s = s"
| "fragments_run E ((og, c) # cs) s = fragments_run E cs (snd (fragments_dispatch E og c s))"

section \<open>Definitions never change\<close>

lemma give_other [simp]:
  "Definitions (give_copy cl e to p ex item k s) = Definitions s"
  "Definitions (give_original cl e k who to p s) = Definitions s"
  "EditionsCount (give_copy cl e to p ex item k s) = EditionsCount s"
  "EditionsCount (give_original cl e k' who to p s) = EditionsCount s"
  "Publishing (give_copy cl e to p ex item k s) = Publishing s"
  "Publishing (give_original cl e k' who to p s) = Publishing s"
  "Protos (give_copy cl e to p ex item k s) = Protos s"
  "Protos (give_original cl e k' who to p s) = Protos s"
  "UniqueData2Edition (give_copy cl e to p ex item k s) = UniqueData2Edition s"
  "UniqueData2Edition (give_original cl e k' who to p s) = UniqueData2Edition s"
  by (simp_all add: give_copy_def give_original_def Let_def)

text \<open>
  A call leaves the definitions alone, except that \<open>create\<close> adds one, for the owner of its
  Proto-Fragment.
\<close>

lemma fragments_dispatch_definitions:
  assumes "fragments_dispatch E og c s = (r, t)"
  shows "Definitions t = Definitions s \<or>
    (\<exists>f d who. og = Signed who \<and> Definitions s f = None \<and> Definitions t = (Definitions s)(f \<mapsto> d) \<and>
       fd_creator d = who \<and> ensure_proto_owner s (fd_proto_hash d) who = Ok)"
proof (cases c)
  case (Create h md p u m)
  with assms have "create E og h md p u m s = (r, t)" by simp
  show ?thesis
  proof (cases "r = Ok")
    case True
    with \<open>create E og h md p u m s = (r, t)\<close> have "create E og h md p u m s = (Ok, t)" by simp
    then show ?thesis
    proof (cases rule: create_Ok)
      case (1 who b vault)
      show ?thesis
        by (rule disjI2, rule exI [of _ "fragment_id E h md"],
            rule exI [of _ "the (Definitions t (fragment_id E h md))"], rule exI [of _ who]) (simp add: 1)
    qed
  qed (use \<open>create E og h md p u m s = (r, t)\<close> in \<open>auto dest: create.failure_keeps_state\<close>)
next
  case (Publish f price q ex a)
  with assms have "publish og f price q ex a s = (r, t)" by simp
  then show ?thesis by (cases "r = Ok") (auto elim!: publish_Ok dest: publish.failure_keeps_state)
next
  case (Unpublish f)
  with assms have "unpublish og f s = (r, t)" by simp
  then show ?thesis by (cases "r = Ok") (auto elim!: unpublish_Ok dest: unpublish.failure_keeps_state)
next
  case (Mint f opt a)
  with assms have "mint E og f opt a s = (r, t)" by simp
  then show ?thesis
    by (cases "r = Ok") (auto elim!: mint_Ok mint_fragments_effect dest: mint.failure_keeps_state)
next
  case (Buy f opt)
  with assms have "buy E og f opt s = (r, t)" by simp
  then show ?thesis
  proof (cases rule: buy_cases)
    case (minted who sale d vault s1)
    from minted(8) have "Definitions s1 = Definitions s" by (rule mint_fragments_effect)
    with minted(9) show ?thesis by (auto split: option.splits)
  qed simp
next
  case (Give cl e k dest np ex)
  with assms have "give E og cl e k dest np ex s = (r, t)" by simp
  then show ?thesis
    by (cases "r = Ok") (auto elim!: give_Ok dest: give.failure_keeps_state)
next
  case (Create_account cl e k)
  with assms have "create_account E og cl e k s = (r, t)" by simp
  then show ?thesis by (cases "r = Ok") (auto elim!: create_account_Ok dest: create_account.failure_keeps_state)
qed

lemma fragments_run_definitions:
  "Definitions s f = Some d \<Longrightarrow> Definitions (fragments_run E cs s) f = Some d"
proof (induction cs arbitrary: s)
  case (Cons oc cs)
  obtain og c where oc: "oc = (og, c)" by (cases oc)
  obtain r t where d: "fragments_dispatch E og c s = (r, t)" by fastforce
  have "Definitions t f = Some d" using fragments_dispatch_definitions [OF d] Cons.prems by auto
  then show ?case using Cons.IH by (simp add: oc d)
qed simp

end
