(* ===== verification/Fragments_Instances.thy ===== *)
theory Fragments_Instances
  imports Fragments
begin

text \<open>
  The instances of the pallet \<open>fragments\<close>: the numbers of the editions, the invariant that
  ties instances to the two inventories and the counters, its preservation by every call
  and by the hook that removes expired instances, and the steps of the chain.
\<close>

section \<open>Instances and their owners\<close>

lemma edition_range_unat:
  assumes "unat e + unat q < 2 ^ 64"
  shows "map unat (edition_range e q) = [unat e..<unat e + unat q]"
proof -
  have "unat (e + of_nat j) = unat e + j" if "j < unat q" for j
  proof -
    have "unat (of_nat j :: u64) = j"
      using that unsigned_less [of q] by (intro unat_of_nat_small) (rule less_trans, assumption, simp)
    then show ?thesis using that assms unat_plus_small [of e "of_nat j"] by simp
  qed
  then show ?thesis
    by (simp add: edition_range_exact [OF assms] comp_def list_eq_iff_nth_eq)
qed

lemma edition_range_bounds:
  assumes "unat e + unat q < 2 ^ 64" and "i \<in> set (edition_range e q)"
  shows "e < i + 1" and "i + 1 \<le> e + q" and "unat (i + 1) = Suc (unat i)"
proof -
  have "unat i \<in> set (map unat (edition_range e q))" using assms(2) by simp
  then have i: "unat e \<le> unat i" "unat i < unat e + unat q"
    unfolding edition_range_unat [OF assms(1)] by simp_all
  then have s: "unat (i + 1) = Suc (unat i)"
    using assms(1) unat_plus_small [of i 1] by simp
  then show "unat (i + 1) = Suc (unat i)" .
  show "e < i + 1" using i s by (simp add: word_less_nat_alt)
  show "i + 1 \<le> e + q" using i s unat_plus_small [of e q] assms(1) by (simp add: word_le_nat_alt)
qed

lemma edition_range_distinct:
  assumes "unat e + unat q < 2 ^ 64" shows "distinct (map (\<lambda>i. i + 1) (edition_range e q))"
proof -
  have "distinct (map unat (edition_range e q))" by (simp add: edition_range_unat [OF assms])
  then have "distinct (edition_range e q)" by (simp add: distinct_map)
  then show ?thesis by (simp add: distinct_map inj_on_def)
qed

lemma edition_range_length:
  "unat e + unat q < 2 ^ 64 \<Longrightarrow> length (edition_range e q) = unat q"
  by (simp add: edition_range_exact)

definition holds :: "('b, 'c, 'p, 'x) fragments_state_scheme \<Rightarrow> account_id \<Rightarrow> hash128 \<Rightarrow> unit_id \<times> unit_id \<Rightarrow> bool" where
  "holds s a cl i \<longleftrightarrow> i \<in> set (listed (Owners s) (cl, a))"

text \<open>
  The two inventories are mirror images, every instance is listed by exactly one owner, and
  the counters are at least the numbers in use.
\<close>

definition instances_inv :: "('b, 'c, 'p, 'x) fragments_state_scheme \<Rightarrow> bool" where
  "instances_inv s \<longleftrightarrow>
     (\<forall>a cl. listed (Inventory s) (a, cl) = listed (Owners s) (cl, a)) \<and>
     finite (dom (Owners s)) \<and>
     (\<forall>a cl. distinct (listed (Owners s) (cl, a))) \<and>
     (\<forall>a b cl i. holds s a cl i \<longrightarrow> holds s b cl i \<longrightarrow> a = b) \<and>
     (\<forall>cl e k. Fragments s (cl, e, k) \<noteq> None \<longleftrightarrow> (\<exists>a. holds s a cl (e, k))) \<and>
     (\<forall>cl e k. Fragments s (cl, e, k) \<noteq> None \<longrightarrow> e \<le> editions_count s cl \<and>
        (\<exists>n. CopiesCount s (cl, e) = Some n \<and> k \<le> n))"

lemma instances_invI:
  assumes "\<And>a cl. listed (Inventory s) (a, cl) = listed (Owners s) (cl, a)"
    and "finite (dom (Owners s))"
    and "\<And>a cl. distinct (listed (Owners s) (cl, a))"
    and "\<And>a b cl i. holds s a cl i \<Longrightarrow> holds s b cl i \<Longrightarrow> a = b"
    and "\<And>cl e k. Fragments s (cl, e, k) \<noteq> None \<longleftrightarrow> (\<exists>a. holds s a cl (e, k))"
    and "\<And>cl e k. Fragments s (cl, e, k) \<noteq> None \<Longrightarrow> e \<le> editions_count s cl \<and>
        (\<exists>n. CopiesCount s (cl, e) = Some n \<and> k \<le> n)"
  shows "instances_inv s"
  using assms unfolding instances_inv_def by simp

lemma instances_inv_simps:
  assumes "instances_inv s"
  shows "listed (Inventory s) (a, cl) = listed (Owners s) (cl, a)"
    and "finite (dom (Owners s))"
    and "distinct (listed (Owners s) (cl, a))"
    and "holds s a cl i \<Longrightarrow> holds s b cl i \<Longrightarrow> a = b"
    and "Fragments s (cl, e, k) \<noteq> None \<longleftrightarrow> (\<exists>a. holds s a cl (e, k))"
    and "Fragments s (cl, e, k) \<noteq> None \<Longrightarrow> e \<le> editions_count s cl"
    and "Fragments s (cl, e, k) \<noteq> None \<Longrightarrow> \<exists>n. CopiesCount s (cl, e) = Some n \<and> k \<le> n"
  using assms unfolding instances_inv_def by blast+

text \<open>Two states with the same instances, inventories, counters and expirations.\<close>

definition same_instances :: "('b, 'c, 'p, 'x) fragments_state_scheme
    \<Rightarrow> ('b, 'c, 'p, 'x) fragments_state_scheme \<Rightarrow> bool" where
  "same_instances s t \<longleftrightarrow>
     Fragments t = Fragments s \<and> Owners t = Owners s \<and> Inventory t = Inventory s \<and>
     EditionsCount t = EditionsCount s \<and> CopiesCount t = CopiesCount s \<and>
     UniqueData2Edition t = UniqueData2Edition s \<and> Expirations t = Expirations s"

lemma instances_inv_same: "instances_inv s \<Longrightarrow> same_instances s t \<Longrightarrow> instances_inv t"
  by (simp add: instances_inv_def holds_def editions_count_def same_instances_def)

text \<open>The overflow of a counter is excluded: it takes \<open>2 ^ 64\<close> instances.\<close>

fun call_fits :: "('b, 'c, 'p, 'x) fragments_state_scheme \<Rightarrow> 'p fragments_call \<Rightarrow> bool" where
  "call_fits s (Mint f opt a) \<longleftrightarrow> unat (editions_count s f) + unat (quantity_of opt) < 2 ^ 64"
| "call_fits s (Buy f opt) \<longleftrightarrow> unat (editions_count s f) + unat (quantity_of opt) < 2 ^ 64"
| "call_fits s (Give cl e k dest np ex) \<longleftrightarrow> CopiesCount s (cl, e) \<noteq> Some (- 1)"
| "call_fits s _ \<longleftrightarrow> True"

lemma instances_inv_mint:
  assumes "instances_inv s" and "mint_fragments E who f sale opt q n None a s = (Ok, t)"
    and "unat (editions_count s f) + unat q < 2 ^ 64"
  shows "instances_inv t"
  using assms(2)
proof (cases rule: mint_fragments_effect)
  case (1 d data p)
  let ?r = "edition_range (editions_count s f) q"
  note inv = instances_inv_simps [OF assms(1)]
  note bounds = edition_range_bounds [OF assms(3)]
  have holds: "holds t b cl i \<longleftrightarrow> holds s b cl i \<or> (b = who \<and> cl = f \<and> (\<exists>j \<in> set ?r. i = (j + 1, 1)))" for b cl i
    by (auto simp: holds_def 1(7))
  have old: "Fragments s (f, j + 1, 1) = None" if "j \<in> set ?r" for j
  proof (rule ccontr)
    assume "Fragments s (f, j + 1, 1) \<noteq> None"
    from inv(6) [OF this] bounds(1) [OF that] show False by simp
  qed
  have new: "\<not> holds s b f (j + 1, 1)" if "j \<in> set ?r" for b j
    using inv(5) old [OF that] by blast
  have count: "editions_count t cl = (if cl = f then editions_count s f + q else editions_count s cl)" for cl
    by (simp add: editions_count_def 1(10))
  have grow: "editions_count s f \<le> editions_count s f + q"
    using unat_plus_small [of "editions_count s f" q] assms(3) by (simp add: word_le_nat_alt)
  show ?thesis
  proof (rule instances_invI)
    show "listed (Inventory t) (b, cl) = listed (Owners t) (cl, b)" for b cl
      using inv(1) by (simp add: 1(6,7))
    show "finite (dom (Owners t))" using inv(2) by (simp add: 1(9))
    have "distinct (map (\<lambda>i. (i + 1, 1 :: u64)) ?r)"
      using edition_range_distinct [OF assms(3)] by (auto simp: distinct_map inj_on_def)
    then show "distinct (listed (Owners t) (cl, b))" for b cl
      using inv(3) new by (auto simp: 1(7) holds_def)
    show "b = b'" if "holds t b cl i" "holds t b' cl i" for b b' cl i
      using that inv(4) [of b cl i b'] new by (auto simp: holds)
    show "Fragments t (cl, e, k) \<noteq> None \<longleftrightarrow> (\<exists>b. holds t b cl (e, k))" for cl e k
      using inv(5) [of cl e k] by (auto simp: 1(4) holds)
    show "e \<le> editions_count t cl \<and> (\<exists>m. CopiesCount t (cl, e) = Some m \<and> k \<le> m)"
      if "Fragments t (cl, e, k) \<noteq> None" for cl e k
    proof (cases "\<exists>j \<in> set ?r. (cl, e) = (f, j + 1)")
      case True
      then obtain j where j: "j \<in> set ?r" "cl = f" "e = j + 1" by blast
      have "k = 1"
      proof (rule ccontr)
        assume "k \<noteq> 1"
        then have "Fragments s (f, j + 1, k) \<noteq> None" using that j by (simp add: 1(4))
        from inv(6) [OF this] bounds(1) [OF j(1)] show False by simp
      qed
      then show ?thesis using j bounds(2) by (auto simp: count 1(5))
    next
      case False
      then have "Fragments s (cl, e, k) \<noteq> None" using that by (auto simp: 1(4) split: if_splits)
      from inv(6,7) [OF this] show ?thesis
        using False grow by (auto simp: count 1(5) intro: order_trans)
    qed
  qed
qed


lemma instances_inv_give_copy:
  assumes "instances_inv s" and "CopiesCount s (cl, e) = Some n" and "n \<noteq> - 1"
    and "Fragments s (cl, e, k) \<noteq> None"
  shows "instances_inv (give_copy cl e to p ex item (n + 1) s)"
proof (rule instances_invI)
  let ?t = "give_copy cl e to p ex item (n + 1) s"
  note inv = instances_inv_simps [OF assms(1)]
  have n: "n < n + 1" using assms(3) by (rule less_plus_1)
  have fresh: "Fragments s (cl, e, n + 1) = None"
  proof (rule ccontr)
    assume "Fragments s (cl, e, n + 1) \<noteq> None"
    from inv(7) [OF this] n assms(2) show False by simp
  qed
  then have new: "\<not> holds s b cl (e, n + 1)" for b using inv(5) by blast
  have holds: "holds ?t b c i \<longleftrightarrow> holds s b c i \<or> (b = to \<and> c = cl \<and> i = (e, n + 1))" for b c i
    by (auto simp: holds_def give_copy_def Let_def storage_simps)
  show "listed (Inventory ?t) (b, c) = listed (Owners ?t) (c, b)" for b c
    using inv(1) by (simp add: give_copy_def Let_def storage_simps)
  show "finite (dom (Owners ?t))"
    using inv(2) by (simp add: give_copy_def Let_def dom_storage_append)
  show "distinct (listed (Owners ?t) (c, b))" for b c
    using inv(3) new by (simp add: give_copy_def Let_def storage_simps holds_def)
  show "b = b'" if "holds ?t b c i" "holds ?t b' c i" for b b' c i
    using that inv(4) [of b c i b'] new by (auto simp: holds)
  have frag: "Fragments ?t x \<noteq> None \<longleftrightarrow> x = (cl, e, n + 1) \<or> Fragments s x \<noteq> None" for x
    by (simp add: give_copy_def Let_def)
  show "Fragments ?t (c, e', k') \<noteq> None \<longleftrightarrow> (\<exists>b. holds ?t b c (e', k'))" for c e' k'
    unfolding frag inv(5) holds by auto
  show "e' \<le> editions_count ?t c \<and> (\<exists>m. CopiesCount ?t (c, e') = Some m \<and> k' \<le> m)"
    if "Fragments ?t (c, e', k') \<noteq> None" for c e' k'
  proof (cases "(c, e', k') = (cl, e, n + 1)")
    case True
    then show ?thesis using inv(6) [OF assms(4)] by (simp add: give_copy_def Let_def editions_count_def)
  next
    case False
    then have "Fragments s (c, e', k') \<noteq> None" using that by (auto simp: give_copy_def Let_def split: if_splits)
    from inv(6,7) [OF this] show ?thesis
      using assms(2) n by (auto simp: give_copy_def Let_def editions_count_def)
  qed
qed

lemma instances_inv_give_original:
  assumes "instances_inv s" and "holds s who cl (e, k)"
  shows "instances_inv (give_original cl e k who to p s)"
proof (rule instances_invI)
  let ?t = "give_original cl e k who to p s"
  note inv = instances_inv_simps [OF assms(1)]
  have sole: "b = who" if "holds s b cl (e, k)" for b using inv(4) that assms(2) by blast
  have holds: "holds ?t b c i \<longleftrightarrow> (if (c, i) = (cl, e, k) then b = to else holds s b c i)" for b c i
    using sole by (auto simp: holds_def give_original_def Let_def storage_simps)
  have frag: "Fragments ?t x \<noteq> None \<longleftrightarrow> Fragments s x \<noteq> None" for x
    by (simp add: give_original_def Let_def storage_mutate_def split: option.split)
  show "listed (Inventory ?t) (b, c) = listed (Owners ?t) (c, b)" for b c
    using inv(1) by (simp add: give_original_def Let_def storage_simps)
  show "finite (dom (Owners ?t))"
    using inv(2) by (simp add: give_original_def Let_def dom_storage_append dom_storage_mutate)
  show "distinct (listed (Owners ?t) (c, b))" for b c
    using inv(3) sole by (auto simp: give_original_def Let_def storage_simps holds_def)
  show "b = b'" if "holds ?t b c i" "holds ?t b' c i" for b b' c i
    using that inv(4) [of b c i b'] by (auto simp: holds split: if_splits)
  show "Fragments ?t (c, e', k') \<noteq> None \<longleftrightarrow> (\<exists>b. holds ?t b c (e', k'))" for c e' k'
    unfolding frag using inv(5) [of c e' k'] assms(2) by (auto simp: holds)
  show "e' \<le> editions_count ?t c \<and> (\<exists>m. CopiesCount ?t (c, e') = Some m \<and> k' \<le> m)"
    if "Fragments ?t (c, e', k') \<noteq> None" for c e' k'
    using inv(6,7) [of c e' k'] that unfolding frag
    by (simp add: give_original_def Let_def editions_count_def)
qed

lemma holds_give_copy:
  "holds (give_copy cl e to p ex item n s) b c i \<longleftrightarrow> holds s b c i \<or> (b, c, i) = (to, cl, (e, n))"
  by (auto simp: holds_def give_copy_def Let_def storage_simps)

lemma holds_give_original:
  assumes "instances_inv s" and "holds s who cl (e, k)"
  shows "holds (give_original cl e k who to p s) b c i \<longleftrightarrow>
    (if (c, i) = (cl, (e, k)) then b = to else holds s b c i)"
  using assms(2) instances_inv_simps(4) [OF assms(1)]
  by (auto simp: holds_def give_original_def Let_def storage_simps)

text \<open>The invariant holds after every call whose counters do not overflow.\<close>

lemma instances_inv_give:
  assumes "instances_inv s" and "give E og cl e k dest np ex s = (Ok, t)" and "CopiesCount s (cl, e) \<noteq> Some (- 1)"
  shows "instances_inv t"
  using assms(2)
proof (cases rule: give_Ok)
  case (copied who item to copies)
  have "copies \<noteq> - 1" using copied(5) assms(3) by auto
  moreover have "Fragments s (cl, e, k) \<noteq> None" using copied(2) by (simp add: giveable_def)
  ultimately show ?thesis
    unfolding copied(7) by (intro instances_inv_give_copy [OF assms(1) copied(5)])
next
  case (moved who item to)
  have "holds s who cl (e, k)"
    using moved(2) by (simp add: giveable_def holds_def instances_inv_simps(1) [OF assms(1)])
  then show ?thesis unfolding moved(5) by (rule instances_inv_give_original [OF assms(1)])
qed

text \<open>What a call does to the instances: nothing, a minting, or a gift.\<close>

lemma fragments_dispatch_cases:
  assumes call: "fragments_dispatch E og c s = (r, t)"
  obtains (same) "same_instances s t"
  | (minted) who f sale opt a s1
      where "mint_fragments E who f sale opt (quantity_of opt) (block_number s) None a s = (Ok, s1)"
        and "same_instances s1 t"
        and "call_fits s c \<Longrightarrow> unat (editions_count s f) + unat (quantity_of opt) < 2 ^ 64"
        and "og = Signed who" and "(\<exists>m. c = Mint f opt m) \<or> c = Buy f opt"
  | (given) cl e k dest np ex where "c = Give cl e k dest np ex" and "give E og cl e k dest np ex s = (Ok, t)"
proof (cases "t = s")
  case True
  then show ?thesis using same by (simp add: same_instances_def)
next
  case False
  show ?thesis
  proof (cases c)
    case (Create h md p u m)
    with call False have "create E og h md p u m s = (Ok, t)"
      by (cases r) (auto dest: create.failure_keeps_state)
    then show ?thesis by (cases rule: create_Ok) (rule same, simp add: same_instances_def)
  next
    case (Publish f price q ex a)
    with call False have "publish og f price q ex a s = (Ok, t)"
      by (cases r) (auto dest: publish.failure_keeps_state)
    then show ?thesis by (cases rule: publish_Ok) (rule same, simp add: same_instances_def)
  next
    case (Unpublish f)
    with call False have "unpublish og f s = (Ok, t)"
      by (cases r) (auto dest: unpublish.failure_keeps_state)
    then show ?thesis by (cases rule: unpublish_Ok) (rule same, simp add: same_instances_def)
  next
    case (Mint f opt a)
    with call False have "mint E og f opt a s = (Ok, t)" by (cases r) (auto dest: mint.failure_keeps_state)
    then show ?thesis
      by (cases rule: mint_Ok) (rule minted, assumption, simp_all add: same_instances_def Mint)
  next
    case (Buy f opt)
    with call have "buy E og f opt s = (r, t)" by simp
    then show ?thesis
    proof (cases rule: buy_cases)
      case (minted who sale d vault s1)
      from minted(9) have "same_instances s1 t" by (auto simp: same_instances_def split: option.splits)
      with minted(8) show ?thesis using that(2) Buy minted(1) by simp
    qed (use False in simp)
  next
    case (Give cl e k dest np ex)
    with call False have "give E og cl e k dest np ex s = (Ok, t)"
      by (cases r) (auto dest: give.failure_keeps_state)
    then show ?thesis using given Give by blast
  next
    case (Create_account cl e k)
    with call False have "create_account E og cl e k s = (Ok, t)"
      by (cases r) (auto dest: create_account.failure_keeps_state)
    then show ?thesis by (cases rule: create_account_Ok) (rule same, simp add: same_instances_def)
  qed
qed

lemma instances_inv_dispatch:
  assumes inv: "instances_inv s" and call: "fragments_dispatch E og c s = (r, t)" and fits: "call_fits s c"
  shows "instances_inv t"
  using call
proof (cases rule: fragments_dispatch_cases)
  case same
  then show ?thesis by (rule instances_inv_same [OF inv])
next
  case (minted who f sale opt a s1)
  show ?thesis by (rule instances_inv_same [OF instances_inv_mint [OF inv minted(1) minted(3) [OF fits]] minted(2)])
next
  case (given cl e k dest np ex)
  show ?thesis by (rule instances_inv_give [OF inv given(2)]) (use fits given(1) in simp)
qed

section \<open>Expiration\<close>

text \<open>Iterating over the storage visits every account that has an entry.\<close>

definition iterates :: "('b, 'p, 'y) fragments_ext_scheme \<Rightarrow> bool" where
  "iterates E \<longleftrightarrow> (\<forall>S. finite S \<longrightarrow> set (iter_accounts E S) = S)"

lemma find_owner_Some:
  assumes "find_owner E cl i s = Some a" shows "i \<in> set (listed (Owners s) (cl, a))"
proof -
  from assms obtain n where "position i (listed (Owners s) (cl, a)) \<noteq> None"
    unfolding find_owner_def find_Some_iff by auto
  then show ?thesis by (simp only: position_None_iff) simp
qed

lemma find_owner_None:
  assumes "find_owner E cl i s = None" and "iterates E" and "finite (dom (Owners s))"
  shows "i \<notin> set (listed (Owners s) (cl, a))"
proof
  assume i: "i \<in> set (listed (Owners s) (cl, a))"
  have "finite {owner. Owners s (cl, owner) \<noteq> None}"
    by (rule finite_subset [OF _ finite_imageI [OF assms(3), of snd]]) (force simp: dom_def image_iff)
  then have "set (iter_accounts E {owner. Owners s (cl, owner) \<noteq> None}) = {owner. Owners s (cl, owner) \<noteq> None}"
    using assms(2) by (simp add: iterates_def)
  moreover have "Owners s (cl, a) \<noteq> None" using i by (cases "Owners s (cl, a)") (auto simp: listed_def)
  ultimately have "position i (listed (Owners s) (cl, a)) = None"
    using assms(1) unfolding find_owner_def find_None_iff by blast
  then show False using i by simp
qed

lemma expire_one_absent:
  assumes "instances_inv s" and "iterates E" and "Fragments s (cl, e, k) = None"
  shows "expire_one E (cl, e, k) s = s"
proof -
  note inv = instances_inv_simps [OF assms(1)]
  have "find_owner E cl (e, k) s = None"
  proof (cases "find_owner E cl (e, k) s")
    case (Some a)
    then have "holds s a cl (e, k)" unfolding holds_def by (rule find_owner_Some)
    with inv(5) [of cl e k] assms(3) show ?thesis by blast
  qed
  moreover have "(Fragments s)((cl, e, k) := None) = Fragments s" using assms(3) by (simp add: fun_upd_idem)
  ultimately show ?thesis by (simp add: expire_one_def)
qed

lemma expire_one_present:
  assumes "instances_inv s" and "iterates E" and "holds s a cl (e, k)"
  shows "expire_one E (cl, e, k) s = s\<lparr>Fragments := (Fragments s)((cl, e, k) := None),
      Owners := storage_mutate (Owners s) (cl, a) (remove_first (e, k)),
      Inventory := storage_mutate (Inventory s) (a, cl) (remove_first (e, k)),
      fragments_events := fragments_events s @ [Expired a cl (e, k)]\<rparr>"
proof -
  note inv = instances_inv_simps [OF assms(1)]
  let ?s1 = "s\<lparr>Fragments := (Fragments s)((cl, e, k) := None)\<rparr>"
  have "find_owner E cl (e, k) ?s1 = Some a"
  proof (cases "find_owner E cl (e, k) ?s1")
    case None
    from find_owner_None [OF None assms(2), of a] inv(2) assms(3) show ?thesis by (simp add: holds_def)
  next
    case (Some b)
    then have "holds s b cl (e, k)" using find_owner_Some [OF Some] by (simp add: holds_def)
    with inv(4) assms(3) Some show ?thesis by blast
  qed
  then show ?thesis by (simp add: expire_one_def)
qed

lemma instances_inv_expire:
  assumes "instances_inv s" and "iterates E" shows "instances_inv (expire_one E (cl, e, k) s)"
proof (cases "Fragments s (cl, e, k)")
  case None
  then show ?thesis using expire_one_absent [OF assms] assms(1) by simp
next
  case (Some item)
  note inv = instances_inv_simps [OF assms(1)]
  obtain a where a: "holds s a cl (e, k)" using inv(5) [of cl e k] Some by auto
  let ?t = "expire_one E (cl, e, k) s"
  note t = expire_one_present [OF assms a]
  have holds: "holds ?t b c i \<longleftrightarrow> holds s b c i \<and> (c, i) \<noteq> (cl, e, k)" for b c i
    using inv(3,4) a by (auto simp: t holds_def storage_simps)
  have frag: "Fragments ?t x \<noteq> None \<longleftrightarrow> x \<noteq> (cl, e, k) \<and> Fragments s x \<noteq> None" for x
    by (simp add: t)
  show ?thesis
  proof (rule instances_invI)
    show "listed (Inventory ?t) (b, c) = listed (Owners ?t) (c, b)" for b c
      using inv(1) by (simp add: t storage_simps)
    show "finite (dom (Owners ?t))" using inv(2) by (simp add: t dom_storage_mutate)
    show "distinct (listed (Owners ?t) (c, b))" for b c
      using inv(3) by (simp add: t storage_simps)
    show "b = b'" if "holds ?t b c i" "holds ?t b' c i" for b b' c i
      using that inv(4) [of b c i b'] by (simp add: holds)
    show "Fragments ?t (c, e', k') \<noteq> None \<longleftrightarrow> (\<exists>b. holds ?t b c (e', k'))" for c e' k'
      unfolding frag inv(5) holds by auto
    show "e' \<le> editions_count ?t c \<and> (\<exists>m. CopiesCount ?t (c, e') = Some m \<and> k' \<le> m)"
      if "Fragments ?t (c, e', k') \<noteq> None" for c e' k'
      using inv(6,7) [of c e' k'] that unfolding frag by (simp add: t editions_count_def)
  qed
qed

lemma instances_inv_expire_all:
  "instances_inv s \<Longrightarrow> iterates E \<Longrightarrow> instances_inv (fold (expire_one E) xs s)"
  by (induction xs arbitrary: s) (auto simp: instances_inv_expire)

lemma fragments_on_finalize_eq:
  "fragments_on_finalize E n s =
   fold (expire_one E) (listed (Expirations s) n) (s\<lparr>Expirations := (Expirations s)(n := None)\<rparr>)"
  by (simp add: fragments_on_finalize_def listed_def split: option.split)

lemma instances_inv_Expirations [simp]: "instances_inv (s\<lparr>Expirations := ex\<rparr>) = instances_inv s"
  by (simp add: instances_inv_def holds_def editions_count_def)

lemma instances_inv_on_finalize:
  "instances_inv s \<Longrightarrow> iterates E \<Longrightarrow> instances_inv (fragments_on_finalize E n s)"
  by (simp add: fragments_on_finalize_eq instances_inv_expire_all)

text \<open>What the hook removes: the instances on the list of the block, with their owners' entries.\<close>

lemma expire_one_Expirations [simp]: "Expirations (expire_one E x s) = Expirations s"
  by (cases x) (simp add: expire_one_def Let_def split: option.split)

lemma expire_one_Fragments: "Fragments (expire_one E x s) = (Fragments s)(x := None)"
  by (cases x) (simp add: expire_one_def Let_def split: option.split)

lemma expire_all_Fragments:
  "Fragments (fold (expire_one E) xs s) x = (if x \<in> set xs then None else Fragments s x)"
  by (induction xs arbitrary: s) (auto simp: expire_one_Fragments)

lemma expire_all_holds:
  assumes "instances_inv s" and "iterates E"
  shows "holds (fold (expire_one E) xs s) a cl i \<longleftrightarrow> holds s a cl i \<and> (cl, i) \<notin> set xs"
  using assms(1)
proof (induction xs arbitrary: s)
  case (Cons x xs)
  obtain c e k where x: "x = (c, e, k)" by (cases x)
  have "holds (expire_one E x s) a cl i \<longleftrightarrow> holds s a cl i \<and> (cl, i) \<noteq> x"
  proof (cases "Fragments s x")
    case None
    then have "\<not> holds s a c (e, k)" using instances_inv_simps(5) [OF Cons.prems, of c e k] x by auto
    then show ?thesis using None expire_one_absent [OF Cons.prems assms(2)] x by auto
  next
    case (Some item)
    then obtain b where b: "holds s b c (e, k)" using instances_inv_simps(5) [OF Cons.prems, of c e k] x by auto
    then show ?thesis
      using instances_inv_simps(3,4) [OF Cons.prems] expire_one_present [OF Cons.prems assms(2) b] x
      by (auto simp: holds_def storage_simps)
  qed
  moreover have "instances_inv (expire_one E x s)" unfolding x by (rule instances_inv_expire [OF Cons.prems assms(2)])
  ultimately show ?case using Cons.IH by auto
qed simp

lemma expire_one_other [simp]:
  "EditionsCount (expire_one E x s) = EditionsCount s" "CopiesCount (expire_one E x s) = CopiesCount s"
  "UniqueData2Edition (expire_one E x s) = UniqueData2Edition s" "Definitions (expire_one E x s) = Definitions s"
  by (cases x, simp add: expire_one_def Let_def split: option.split)+

lemma expire_all_other [simp]:
  "Expirations (fold (expire_one E) xs s) = Expirations s"
  "EditionsCount (fold (expire_one E) xs s) = EditionsCount s"
  "CopiesCount (fold (expire_one E) xs s) = CopiesCount s"
  "UniqueData2Edition (fold (expire_one E) xs s) = UniqueData2Edition s"
  "Definitions (fold (expire_one E) xs s) = Definitions s"
  by (induction xs arbitrary: s) simp_all

lemma on_finalize_fields:
  "Fragments (fragments_on_finalize E n s) x =
     (if x \<in> set (listed (Expirations s) n) then None else Fragments s x)"
  "Expirations (fragments_on_finalize E n s) = (Expirations s)(n := None)"
  "EditionsCount (fragments_on_finalize E n s) = EditionsCount s"
  "CopiesCount (fragments_on_finalize E n s) = CopiesCount s"
  "UniqueData2Edition (fragments_on_finalize E n s) = UniqueData2Edition s"
  "Definitions (fragments_on_finalize E n s) = Definitions s"
  by (simp_all add: fragments_on_finalize_eq expire_all_Fragments)

lemma on_finalize_holds:
  assumes "instances_inv s" and "iterates E"
  shows "holds (fragments_on_finalize E n s) a cl i \<longleftrightarrow>
     holds s a cl i \<and> (cl, i) \<notin> set (listed (Expirations s) n)"
  using assms by (simp add: fragments_on_finalize_eq expire_all_holds) (simp add: holds_def)

text \<open>A step of another pallet, or the start of a block: the storage of this pallet stays.\<close>

definition same_fragments :: "('b, 'c, 'p, 'x) fragments_state_scheme
    \<Rightarrow> ('b, 'c, 'p, 'x) fragments_state_scheme \<Rightarrow> bool" where
  "same_fragments s t \<longleftrightarrow>
     Proto2Fragments t = Proto2Fragments s \<and> Definitions t = Definitions s \<and>
     Publishing t = Publishing s \<and> EditionsCount t = EditionsCount s \<and>
     CopiesCount t = CopiesCount s \<and> Fragments t = Fragments s \<and>
     UniqueData2Edition t = UniqueData2Edition s \<and> Owners t = Owners s \<and>
     Inventory t = Inventory s \<and> Expirations t = Expirations s"

text \<open>
  The chain between two states of the pallet: a call whose counters fit, the hook at the
  end of a block, or a step elsewhere.
\<close>

inductive fragments_step :: "('b, 'p, 'y) fragments_ext_scheme \<Rightarrow> ('b, 'c, 'p, 'x) fragments_state_scheme
    \<Rightarrow> ('b, 'c, 'p, 'x) fragments_state_scheme \<Rightarrow> bool" for E where
  call: "fragments_dispatch E og c s = (r, t) \<Longrightarrow> call_fits s c \<Longrightarrow> fragments_step E s t"
| end_of_block: "fragments_step E s (fragments_on_finalize E (block_number s) s)"
| elsewhere: "same_fragments s t \<Longrightarrow> fragments_step E s t"

inductive_cases fragments_stepE: "fragments_step E s t"

lemma instances_inv_step:
  assumes "fragments_step E s t" and "instances_inv s" and "iterates E" shows "instances_inv t"
  using assms(1)
proof cases
  case (call og c r)
  then show ?thesis using instances_inv_dispatch [OF assms(2)] by blast
next
  case end_of_block
  then show ?thesis using instances_inv_on_finalize [OF assms(2,3)] by simp
next
  case elsewhere
  then show ?thesis
    by (auto simp: same_fragments_def same_instances_def intro: instances_inv_same [OF assms(2)])
qed

lemma instances_inv_steps:
  "(fragments_step E)\<^sup>*\<^sup>* s t \<Longrightarrow> instances_inv s \<Longrightarrow> iterates E \<Longrightarrow> instances_inv t"
  by (induction rule: rtranclp_induct) (auto intro: instances_inv_step)

section \<open>Lists of expirations\<close>

text \<open>
  Every instance that expires is on the list of its block, and on no other list; the lists
  name numbers in use only.
\<close>

definition numbers_used :: "('b, 'c, 'p, 'x) fragments_state_scheme \<Rightarrow> hash128 \<times> unit_id \<times> unit_id \<Rightarrow> bool" where
  "numbers_used s x \<longleftrightarrow> (case x of (cl, e, k) \<Rightarrow>
     e \<le> editions_count s cl \<and> (\<exists>n. CopiesCount s (cl, e) = Some n \<and> k \<le> n))"

definition expiry_inv :: "('b, 'c, 'p, 'x) fragments_state_scheme \<Rightarrow> bool" where
  "expiry_inv s \<longleftrightarrow>
     (\<forall>x item. Fragments s x = Some item \<longrightarrow>
        (\<forall>n. x \<in> set (listed (Expirations s) n) \<longleftrightarrow> fi_expiring_at item = Some n)) \<and>
     (\<forall>x n. x \<in> set (listed (Expirations s) n) \<longrightarrow> numbers_used s x)"

lemma expiry_invD:
  assumes "expiry_inv s"
  shows "Fragments s x = Some item \<Longrightarrow> x \<in> set (listed (Expirations s) n) \<longleftrightarrow> fi_expiring_at item = Some n"
    and "x \<in> set (listed (Expirations s) n) \<Longrightarrow> numbers_used s x"
  using assms unfolding expiry_inv_def by blast+

lemma expiry_inv_same: "expiry_inv s \<Longrightarrow> same_instances s t \<Longrightarrow> expiry_inv t"
  by (simp add: expiry_inv_def same_instances_def numbers_used_def editions_count_def)

lemma numbers_used_mint:
  assumes "numbers_used s x" and "mint_fragments E who f sale opt q n None a s = (Ok, t)"
    and "unat (editions_count s f) + unat q < 2 ^ 64"
  shows "numbers_used t x" and "i \<in> set (edition_range (editions_count s f) q) \<Longrightarrow> x \<noteq> (f, i + 1, 1)"
proof -
  note bounds = edition_range_bounds [OF assms(3)]
  obtain cl e k where x: "x = (cl, e, k)" by (cases x)
  show ne: "x \<noteq> (f, i + 1, 1)" if "i \<in> set (edition_range (editions_count s f) q)" for i
    using assms(1) bounds(1) [OF that] by (auto simp: numbers_used_def)
  have grow: "editions_count s f \<le> editions_count s f + q"
    using unat_plus_small [of "editions_count s f" q] assms(3) by (simp add: word_le_nat_alt)
  have fresh: "\<not> (\<exists>i \<in> set (edition_range (editions_count s f) q). (cl, e) = (f, i + 1))"
    using assms(1) bounds(1) by (fastforce simp: numbers_used_def x not_le)
  from assms(2) show "numbers_used t x"
  proof (cases rule: mint_fragments_effect)
    case (1 d data p)
    have "editions_count s cl \<le> editions_count t cl"
      using grow by (simp add: editions_count_def 1(10))
    then show ?thesis using assms(1) fresh by (auto simp: numbers_used_def x 1(5))
  qed
qed

lemma expiry_inv_mint:
  assumes "expiry_inv s" and "mint_fragments E who f sale opt q n None a s = (Ok, t)"
    and "unat (editions_count s f) + unat q < 2 ^ 64"
  shows "expiry_inv t"
  using assms(2)
proof (cases rule: mint_fragments_effect)
  case (1 d data p)
  have used: "numbers_used s x" if "x \<in> set (listed (Expirations s) m)" for x m
    by (rule expiry_invD(2) [OF assms(1) that])
  note keep = numbers_used_mint [OF used assms(2,3)]
  show ?thesis
    unfolding expiry_inv_def 1(18)
  proof (intro conjI allI impI)
    fix x item m assume item: "Fragments t x = Some item"
    show "x \<in> set (listed (Expirations s) m) \<longleftrightarrow> fi_expiring_at item = Some m"
    proof (cases "\<exists>i \<in> set (edition_range (editions_count s f) q). x = (f, i + 1, 1)")
      case True
      then have "x \<notin> set (listed (Expirations s) m)" using keep(2) by blast
      then show ?thesis using True item by (auto simp: 1(4) minted_def)
    next
      case False
      then show ?thesis using item expiry_invD(1) [OF assms(1), of x item] by (auto simp: 1(4))
    qed
  qed (rule keep(1))
qed

lemma numbers_used_give_copy:
  assumes "numbers_used s x" and "CopiesCount s (cl, e) = Some n" and "n < n + 1"
  shows "numbers_used (give_copy cl e to p ex item (n + 1) s) x" and "x \<noteq> (cl, e, n + 1)"
  using assms by (auto simp: numbers_used_def give_copy_def Let_def editions_count_def)

lemma expiry_inv_give:
  assumes inv: "expiry_inv s" and "instances_inv s" and "give E og cl e k dest np ex s = (Ok, t)"
    and "CopiesCount s (cl, e) \<noteq> Some (- 1)"
  shows "expiry_inv t"
  using assms(3)
proof (cases rule: give_Ok)
  case (copied who item to copies)
  have lt: "copies < copies + 1" using copied(5) assms(4) by (intro less_plus_1) auto
  have used: "numbers_used s x" if "x \<in> set (listed (Expirations s) m)" for x m
    by (rule expiry_invD(2) [OF inv that])
  note keep = numbers_used_give_copy [OF used copied(5) lt]
  have old: "e \<le> editions_count s cl"
    using instances_inv_simps(6) [OF assms(2)] copied(2) by (auto simp: giveable_def)
  let ?x = "(cl, e, copies + 1)" and ?ex = "copy_expiration (fi_expiring_at item) ex"
  have lists: "x \<in> set (listed (Expirations t) m) \<longleftrightarrow>
      x \<in> set (listed (Expirations s) m) \<or> (x = ?x \<and> ?ex = Some m)" for x m
    by (auto simp: copied(7) give_copy_def Let_def storage_simps split: option.split)
  have frags: "Fragments t x = (if x = ?x then Some (item\<lparr>fi_permissions := given_perms np item, fi_expiring_at := ?ex\<rparr>)
      else Fragments s x)" for x
    by (simp add: copied(7) give_copy_def Let_def)
  have new: "numbers_used t ?x"
    using old by (simp add: copied(7) numbers_used_def give_copy_def Let_def editions_count_def)
  show ?thesis
    unfolding expiry_inv_def lists frags
  proof (intro conjI allI impI)
    fix x it m assume it: "(if x = ?x then Some (item\<lparr>fi_permissions := given_perms np item, fi_expiring_at := ?ex\<rparr>)
      else Fragments s x) = Some it"
    have "?x \<notin> set (listed (Expirations s) m)" using keep(2) by blast
    then show "x \<in> set (listed (Expirations s) m) \<or> x = ?x \<and> ?ex = Some m \<longleftrightarrow> fi_expiring_at it = Some m"
      using it expiry_invD(1) [OF inv, of x it] by (auto split: if_splits)
  next
    fix x m assume "x \<in> set (listed (Expirations s) m) \<or> x = ?x \<and> ?ex = Some m"
    then show "numbers_used t x" using keep(1) new copied(7) by blast
  qed
next
  case (moved who item to)
  have lists: "Expirations t = Expirations s" and count: "numbers_used t x = numbers_used s x" for x
    by (simp_all add: moved(5) give_original_def Let_def numbers_used_def editions_count_def)
  have frags: "Fragments t x = Some it \<Longrightarrow> \<exists>it'. Fragments s x = Some it' \<and> fi_expiring_at it' = fi_expiring_at it" for x it
    by (auto simp: moved(5) give_original_def Let_def storage_mutate_def split: option.splits if_splits)
  show ?thesis
    using inv frags unfolding expiry_inv_def lists count by fastforce
qed

lemma expiry_inv_on_finalize:
  assumes "expiry_inv s" shows "expiry_inv (fragments_on_finalize E n s)"
proof -
  have used: "numbers_used (fragments_on_finalize E n s) x = numbers_used s x" for x
    by (simp add: numbers_used_def editions_count_def on_finalize_fields)
  show ?thesis
    unfolding expiry_inv_def used
    using expiry_invD [OF assms] by (simp add: on_finalize_fields storage_simps split: if_splits) blast
qed

lemma expiry_inv_step:
  assumes "fragments_step E s t" and inv: "expiry_inv s" "instances_inv s" shows "expiry_inv t"
  using assms(1)
proof cases
  case (call og c r)
  from call(1) show ?thesis
  proof (cases rule: fragments_dispatch_cases)
    case same
    then show ?thesis by (rule expiry_inv_same [OF inv(1)])
  next
    case (minted who f sale opt a s1)
    show ?thesis
      by (rule expiry_inv_same [OF expiry_inv_mint [OF inv(1) minted(1) minted(3) [OF call(2)]] minted(2)])
  next
    case (given cl e k dest np ex)
    show ?thesis by (rule expiry_inv_give [OF inv given(2)]) (use call(2) given(1) in simp)
  qed
next
  case end_of_block
  then show ?thesis using expiry_inv_on_finalize [OF inv(1)] by simp
next
  case elsewhere
  then show ?thesis
    by (auto simp: same_fragments_def same_instances_def intro: expiry_inv_same [OF inv(1)])
qed

lemma fragments_invs_steps:
  "(fragments_step E)\<^sup>*\<^sup>* s t \<Longrightarrow> instances_inv s \<Longrightarrow> expiry_inv s \<Longrightarrow> iterates E \<Longrightarrow>
   instances_inv t \<and> expiry_inv t"
  by (induction rule: rtranclp_induct) (auto intro: instances_inv_step expiry_inv_step)

section \<open>What is never undone\<close>

text \<open>Unique data stays taken, and a definition stays as it was created.\<close>

lemma unique_data_step:
  assumes "fragments_step E s t" and "UniqueData2Edition s x = Some e" and "UniqueData2Edition t x \<noteq> Some e"
  shows False
  using assms(1)
proof cases
  case (call og c r)
  from call(1) show ?thesis
  proof (cases rule: fragments_dispatch_cases)
    case same
    then show ?thesis using assms(2,3) by (simp add: same_instances_def)
  next
    case (minted who f sale opt a s1)
    from minted(1) show ?thesis
    proof (cases rule: mint_fragments_effect)
      case (1 d data p)
      have "UniqueData2Edition t x = UniqueData2Edition s1 x" using minted(2) by (simp add: same_instances_def)
      with 1(2) show ?thesis
        using assms(2,3) by (auto simp: 1(11) check_options_def split: option.splits fragment_buy_options.splits if_splits)
    qed
  next
    case (given cl e k dest np ex)
    from given(2) show ?thesis using assms(2,3) by (cases rule: give_Ok) simp_all
  qed
next
  case end_of_block
  then show ?thesis using assms(2,3) by (simp add: on_finalize_fields)
next
  case elsewhere
  then show ?thesis using assms(2,3) by (simp add: same_fragments_def)
qed

lemma unique_data_steps:
  "(fragments_step E)\<^sup>*\<^sup>* s t \<Longrightarrow> UniqueData2Edition s x = Some e \<Longrightarrow> UniqueData2Edition t x = Some e"
  by (induction rule: rtranclp_induct) (auto dest: unique_data_step)

lemma definition_step:
  assumes "fragments_step E s t" and "Definitions s f = Some d" shows "Definitions t f = Some d"
  using assms(1)
proof cases
  case (call og c r)
  from fragments_dispatch_definitions [OF call(1)] assms(2) show ?thesis by auto
qed (use assms(2) in \<open>simp_all add: on_finalize_fields same_fragments_def\<close>)

lemma definition_steps:
  "(fragments_step E)\<^sup>*\<^sup>* s t \<Longrightarrow> Definitions s f = Some d \<Longrightarrow> Definitions t f = Some d"
  by (induction rule: rtranclp_induct) (auto intro: definition_step)

end
