(* ===== verification/Clamor_Runtime.thy ===== *)
theory Clamor_Runtime
  imports Fragments_Instances Runtime_Config Detach_Worker
begin

text \<open>
  The four pallets in one runtime (\<open>runtime/src/lib.rs\<close>): the calls and errors that
  \<open>construct_runtime!\<close> puts together, the admission of extrinsics, the hooks at the end of a
  block, and the chain as the sequence of blocks.
\<close>

section \<open>Calls\<close>

datatype ('c, 'p) runtime_call =
    Protos_Call "'c protos_call" | Fragments_Call "'p fragments_call"
  | Detach_Call detach_call | Accounts_Call accounts_call

datatype runtime_error =
    Protos_Error protos_error | Fragments_Error fragments_error
  | Detach_Error detach_error | Accounts_Error accounts_error

definition in_pallet :: "('e \<Rightarrow> runtime_error) \<Rightarrow> 'e dispatch_error outcome \<times> 's
    \<Rightarrow> runtime_error dispatch_error outcome \<times> 's" where
  "in_pallet pallet r = (map_outcome (map_dispatch_error pallet) (fst r), snd r)"

fun runtime_dispatch :: "'z protos_config_scheme \<Rightarrow> ('b, 'p, 'y) fragments_ext_scheme \<Rightarrow> account_id origin
    \<Rightarrow> ('c, 'p) runtime_call \<Rightarrow> ('b, 'c, 'p, 'x) fragments_state_scheme
    \<Rightarrow> runtime_error dispatch_error outcome \<times> ('b, 'c, 'p, 'x) fragments_state_scheme" where
  "runtime_dispatch C E og (Protos_Call c) s = in_pallet Protos_Error (protos_dispatch C E og c s)"
| "runtime_dispatch C E og (Fragments_Call c) s = in_pallet Fragments_Error (fragments_dispatch E og c s)"
| "runtime_dispatch C E og (Detach_Call c) s = in_pallet Detach_Error (detach_dispatch og c s)"
| "runtime_dispatch C E og (Accounts_Call c) s = in_pallet Accounts_Error (accounts_dispatch C E og c s)"

section \<open>Extrinsics\<close>

text \<open>
  An extrinsic is signed by an account, unsigned, or a call as root that the sudo pallet
  passes on. Two pallets check unsigned calls; no other call is valid without a signature.
\<close>

datatype ('c, 'p) extrinsic =
    Signed_Extrinsic account_id "('c, 'p) runtime_call"
  | Unsigned_Extrinsic "('c, 'p) runtime_call"
  | Sudo_Extrinsic "('c, 'p) runtime_call"

definition runtime_validate_unsigned :: "('b, 'p, 'y) fragments_ext_scheme \<Rightarrow> transaction_source
    \<Rightarrow> ('c, 'p) runtime_call \<Rightarrow> ('b, 'c, 'p, 'x) fragments_state_scheme \<Rightarrow> bool" where
  "runtime_validate_unsigned E source call s =
     (case call of
        Detach_Call c \<Rightarrow> (case detach_validate_unsigned E source c s of Valid _ _ _ \<Rightarrow> True | Invalid _ \<Rightarrow> False)
      | Accounts_Call c \<Rightarrow> (case accounts_validate_unsigned E source c s of Valid _ _ _ \<Rightarrow> True | Invalid _ \<Rightarrow> False)
      | _ \<Rightarrow> False)"

fun extrinsic_call :: "('c, 'p) extrinsic \<Rightarrow> account_id origin \<times> ('c, 'p) runtime_call" where
  "extrinsic_call (Signed_Extrinsic who call) = (Signed who, call)"
| "extrinsic_call (Unsigned_Extrinsic call) = (NoOrigin, call)"
| "extrinsic_call (Sudo_Extrinsic call) = (Root, call)"

text \<open>
  Applying an extrinsic to the block under construction: \<open>None\<close> when the block cannot hold it,
  because the check of an unsigned call fails or the call panics.
\<close>

definition apply_extrinsic :: "'z protos_config_scheme \<Rightarrow> ('b, 'p, 'y) fragments_ext_scheme \<Rightarrow> bool
    \<Rightarrow> ('c, 'p) extrinsic \<Rightarrow> ('b, 'c, 'p, 'x) fragments_state_scheme
    \<Rightarrow> (runtime_error dispatch_error outcome \<times> ('b, 'c, 'p, 'x) fragments_state_scheme) option" where
  "apply_extrinsic C E transactional x s =
     (case extrinsic_call x of (og, call) \<Rightarrow>
       if og = NoOrigin \<and> \<not> runtime_validate_unsigned E InBlock call s then None
       else (case dispatch transactional (runtime_dispatch C E og call) s of
               (Panic, _) \<Rightarrow> None
             | (r, t) \<Rightarrow> Some (r, t)))"

section \<open>Blocks\<close>

text \<open>The hooks \<open>on_finalize\<close>, in the order of \<open>construct_runtime!\<close>.\<close>

definition runtime_on_finalize :: "('b, 'p, 'y) fragments_ext_scheme
    \<Rightarrow> ('b, 'c, 'p, 'x) fragments_state_scheme \<Rightarrow> ('b, 'c, 'p, 'x) fragments_state_scheme" where
  "runtime_on_finalize E s =
     detach_on_finalize (fragments_on_finalize E (block_number s) (protos_on_finalize s))"

text \<open>
  What the pallets of FRAME do between the calls: balances, the time, the extrinsic's index,
  the proxies and the indexed data may change, the storage of the four pallets does not.
\<close>

definition same_protos :: "('b, 'c, 'x) protos_state_scheme \<Rightarrow> ('b, 'c, 'x) protos_state_scheme \<Rightarrow> bool" where
  "same_protos s t \<longleftrightarrow>
     Tags t = Tags s \<and> TagsIndex t = TagsIndex s \<and> MetaKeys t = MetaKeys s \<and>
     MetaKeysIndex t = MetaKeysIndex s \<and> Protos t = Protos s \<and>
     ProtosByCategory t = ProtosByCategory s \<and> ProtosByOwner t = ProtosByOwner s \<and>
     ProtoStakes t = ProtoStakes s \<and> AccountStakes t = AccountStakes s"

definition same_accounts :: "('b, 'x) accounts_state_scheme \<Rightarrow> ('b, 'x) accounts_state_scheme \<Rightarrow> bool" where
  "same_accounts s t \<longleftrightarrow>
     EthLockedFrag t = EthLockedFrag s \<and> EVMLinks t = EVMLinks s \<and>
     EVMLinksReverse t = EVMLinksReverse s \<and> FragUsage t = FragUsage s \<and>
     EVMLinkVoting t = EVMLinkVoting s \<and> EVMLinkVotingClosed t = EVMLinkVotingClosed s \<and>
     PendingUnlinks t = PendingUnlinks s \<and> accounts_FragKeys t = accounts_FragKeys s \<and>
     ExternalID2Account t = ExternalID2Account s"

definition same_detach :: "('b, 'x) detach_state_scheme \<Rightarrow> ('b, 'x) detach_state_scheme \<Rightarrow> bool" where
  "same_detach s t \<longleftrightarrow>
     DetachNonces t = DetachNonces s \<and> DetachedHashes t = DetachedHashes s \<and>
     EthereumAuthorities t = EthereumAuthorities s \<and> detach_FragKeys t = detach_FragKeys s \<and>
     offchain_requests t = offchain_requests s"

definition foreign_change :: "('b, 'c, 'p, 'x) fragments_state_scheme
    \<Rightarrow> ('b, 'c, 'p, 'x) fragments_state_scheme \<Rightarrow> bool" where
  "foreign_change s t \<longleftrightarrow> same_protos s t \<and> same_accounts s t \<and> same_detach s t \<and> same_fragments s t \<and>
     DetachRequests t = DetachRequests s \<and> block_number t = block_number s"

text \<open>The counters of a call to \<open>fragments\<close> stay below \<open>2 ^ 64\<close>.\<close>

definition extrinsic_fits :: "('b, 'c, 'p, 'x) fragments_state_scheme \<Rightarrow> ('c, 'p) extrinsic \<Rightarrow> bool" where
  "extrinsic_fits s x \<longleftrightarrow> (case snd (extrinsic_call x) of Fragments_Call c \<Rightarrow> call_fits s c | _ \<Rightarrow> True)"

inductive in_block :: "'z protos_config_scheme \<Rightarrow> ('b, 'p, 'y) fragments_ext_scheme \<Rightarrow> bool
    \<Rightarrow> ('b, 'c, 'p, 'x) fragments_state_scheme \<Rightarrow> ('b, 'c, 'p, 'x) fragments_state_scheme \<Rightarrow> bool"
  for C E transactional where
  extrinsic: "apply_extrinsic C E transactional x s = Some (r, t) \<Longrightarrow> extrinsic_fits s x
    \<Longrightarrow> in_block C E transactional s t"
| frame: "foreign_change s t \<Longrightarrow> in_block C E transactional s t"

inductive block :: "'z protos_config_scheme \<Rightarrow> ('b, 'p, 'y) fragments_ext_scheme \<Rightarrow> bool
    \<Rightarrow> ('b, 'c, 'p, 'x) fragments_state_scheme \<Rightarrow> ('b, 'c, 'p, 'x) fragments_state_scheme \<Rightarrow> bool"
  for C E transactional where
  block: "(in_block C E transactional)\<^sup>*\<^sup>* (s\<lparr>block_number := block_number s + 1\<rparr>) t
    \<Longrightarrow> block C E transactional s (runtime_on_finalize E t)"

text \<open>The same chain in single steps, from the start of one block to the start of the next.\<close>

inductive chain_step :: "'z protos_config_scheme \<Rightarrow> ('b, 'p, 'y) fragments_ext_scheme \<Rightarrow> bool
    \<Rightarrow> ('b, 'c, 'p, 'x) fragments_state_scheme \<Rightarrow> ('b, 'c, 'p, 'x) fragments_state_scheme \<Rightarrow> bool"
  for C E transactional where
  inside: "in_block C E transactional s t \<Longrightarrow> chain_step C E transactional s t"
| next_block: "t = runtime_on_finalize E s
    \<Longrightarrow> chain_step C E transactional s (t\<lparr>block_number := block_number t + 1\<rparr>)"

inductive_cases chain_stepE: "chain_step C E transactional s t"
inductive_cases in_blockE: "in_block C E transactional s t"
inductive_cases blockE: "block C E transactional s t"

section \<open>Each pallet keeps to its own storage\<close>

lemmas same_defs = same_protos_def same_accounts_def same_detach_def same_fragments_def

lemma same_refl [simp]: "same_protos s s" "same_accounts s s" "same_detach s s" "same_fragments s s"
  by (simp_all add: same_defs)

lemma protos_dispatch_frame:
  fixes s :: "('b, 'c, 'p, 'x) fragments_state_scheme"
  assumes "protos_dispatch C E og c s = (r, t)"
  shows "same_accounts s t" "same_detach s t" "same_fragments s t" "block_number t = block_number s"
proof -
  have "same_accounts s t \<and> same_detach s t \<and> same_fragments s t \<and> block_number t = block_number s"
  proof (cases "r = Ok")
    case True
    then show ?thesis
      using assms by (cases c) (auto elim!: upload_Ok patch_Ok transfer_Ok set_metadata_Ok detach_Ok stake_Ok unstake_Ok
          simp: same_defs)
  qed (use protos_dispatch.failure_keeps_state [OF assms] in simp)
  then show "same_accounts s t" "same_detach s t" "same_fragments s t" "block_number t = block_number s" by simp_all
qed

lemma detach_dispatch_frame:
  fixes s :: "('b, 'c, 'p, 'x) fragments_state_scheme"
  assumes "detach_dispatch og c s = (r, t)"
  shows "same_protos s t" "same_accounts s t" "same_fragments s t" "block_number t = block_number s"
    "DetachRequests t = DetachRequests s"
  using assms by (cases c; auto simp: detach_call_defs Let_def same_defs split: if_splits)+

text \<open>The storage that a call to \<open>accounts\<close> leaves alone.\<close>

definition beside_accounts :: "('b, 'c, 'p, 'x) fragments_state_scheme
    \<Rightarrow> ('b, 'c, 'p, 'x) fragments_state_scheme \<Rightarrow> bool" where
  "beside_accounts s t \<longleftrightarrow> same_protos s t \<and> same_detach s t \<and> same_fragments s t \<and>
     DetachRequests t = DetachRequests s \<and> block_number t = block_number s"

lemma beside_accounts_refl [simp]: "beside_accounts s s"
  by (simp add: beside_accounts_def)

lemma beside_accounts_update [simp]:
  "beside_accounts s (EthLockedFrag_update f0 t) = beside_accounts s t"
  "beside_accounts s (EVMLinks_update f1 t) = beside_accounts s t"
  "beside_accounts s (EVMLinksReverse_update f2 t) = beside_accounts s t"
  "beside_accounts s (FragUsage_update f3 t) = beside_accounts s t"
  "beside_accounts s (EVMLinkVoting_update f4 t) = beside_accounts s t"
  "beside_accounts s (EVMLinkVotingClosed_update f5 t) = beside_accounts s t"
  "beside_accounts s (PendingUnlinks_update f6 t) = beside_accounts s t"
  "beside_accounts s (accounts_FragKeys_update f7 t) = beside_accounts s t"
  "beside_accounts s (ExternalID2Account_update f8 t) = beside_accounts s t"
  "beside_accounts s (Proxies_update f9 t) = beside_accounts s t"
  "beside_accounts s (accounts_events_update f10 t) = beside_accounts s t"
  "beside_accounts s (balances_update f11 t) = beside_accounts s t"
  by (simp_all add: beside_accounts_def same_defs)

lemma beside_accounts_unlink [simp]:
  "beside_accounts s (snd (unlink_account a k t)) = beside_accounts s t"
  by (simp add: unlink_account_def split: option.split)

lemma beside_accounts_lock [simp]: "beside_accounts s (apply_lock k amount t) = beside_accounts s t"
  by (simp add: apply_lock_def Let_def split: option.split)

lemma beside_accounts_unlock [simp]:
  "beside_accounts s (snd (apply_unlock k amount t)) = beside_accounts s t"
proof (cases "EVMLinksReverse t k")
  case (Some a)
  obtain r u where "unlink_account a k t = (r, u)" by fastforce
  then show ?thesis
    using beside_accounts_unlink [of s a k t] by (simp add: apply_unlock_def Some split: outcome.split)
qed (simp add: apply_unlock_def)

lemma beside_accounts_settle [simp]:
  "beside_accounts s (snd (settle_lock d h amount t)) = beside_accounts s t"
proof -
  obtain r u where r: "(if elu_lock d then (Ok, apply_lock (elu_sender d) amount t)
    else apply_unlock (elu_sender d) amount t) = (r, u)" by fastforce
  moreover have "beside_accounts s (snd (if elu_lock d then (Ok, apply_lock (elu_sender d) amount t)
    else apply_unlock (elu_sender d) amount t)) = beside_accounts s t" by simp
  ultimately have "beside_accounts s u = beside_accounts s t" by (simp only: snd_conv)
  then show ?thesis by (simp add: settle_lock_def r split: outcome.split)
qed

lemma beside_accounts_count: "count_vote n h t = (b, u) \<Longrightarrow> beside_accounts s u = beside_accounts s t"
  by (auto simp: count_vote_def split: option.splits if_splits)

lemma beside_accounts_dispatch:
  assumes "accounts_dispatch C E og c s = (r, t)" shows "beside_accounts s t"
proof -
  have "beside_accounts s (snd (accounts_dispatch C E og c s))"
  proof (cases c)
    case (Internal_lock_update d sig)
    obtain b u where u: "count_vote (Threshold C) (lock_data_hash E d) s = (b, u)" by fastforce
    then show ?thesis
      using beside_accounts_count [OF u, of s]
      by (simp add: Internal_lock_update internal_lock_update_def Let_def split: option.split bool.split)
  qed (simp_all add: accounts_add_key_def accounts_del_key_def link_def unlink_def sponsor_account_def Let_def
      split: option.split)
  then show ?thesis by (simp add: assms)
qed

text \<open>The storage that a call to \<open>fragments\<close> leaves alone.\<close>

definition beneath :: "('b, 'c, 'p, 'x) fragments_state_scheme
    \<Rightarrow> ('b, 'c, 'p, 'x) fragments_state_scheme \<Rightarrow> bool" where
  "beneath s t \<longleftrightarrow> same_protos s t \<and> same_accounts s t \<and> same_detach s t \<and>
     DetachRequests t = DetachRequests s \<and> block_number t = block_number s"

lemma beneath_refl [simp]: "beneath s s"
  by (simp add: beneath_def)

lemma beneath_update [simp]:
  "beneath s (Proto2Fragments_update f0 t) = beneath s t"
  "beneath s (Definitions_update f1 t) = beneath s t"
  "beneath s (Publishing_update f2 t) = beneath s t"
  "beneath s (EditionsCount_update f3 t) = beneath s t"
  "beneath s (CopiesCount_update f4 t) = beneath s t"
  "beneath s (Fragments_update f5 t) = beneath s t"
  "beneath s (UniqueData2Edition_update f6 t) = beneath s t"
  "beneath s (Owners_update f7 t) = beneath s t"
  "beneath s (Inventory_update f8 t) = beneath s t"
  "beneath s (Expirations_update f9 t) = beneath s t"
  "beneath s (fragments_events_update f10 t) = beneath s t"
  "beneath s (balances_update f11 t) = beneath s t"
  "beneath s (indexed_update f12 t) = beneath s t"
  by (simp_all add: beneath_def same_defs)

lemma beneath_mint_all [simp]:
  "beneath s (fold (mint_one who f p n h x a) is t) = beneath s t"
  by (induction "is" arbitrary: t) (simp_all add: mint_one_def Let_def)

lemma beneath_mint: "mint_fragments E who f sale opt q n None a s = (Ok, t) \<Longrightarrow> beneath s t"
  by (erule mint_fragments_Ok) (simp add: Let_def)

lemma beneath_give [simp]:
  "beneath s (give_copy cl e to p ex item k t) = beneath s t"
  "beneath s (give_original cl e k who to p t) = beneath s t"
  by (simp_all add: give_copy_def give_original_def Let_def)

lemma beneath_dispatch:
  assumes "fragments_dispatch E og c s = (r, t)" shows "beneath s t"
proof (cases "r = Ok")
  case True
  show ?thesis
  proof (cases c)
    case (Buy f opt)
    with assms have "buy E og f opt s = (r, t)" by simp
    then show ?thesis
    proof (cases rule: buy_cases)
      case (minted who sale d vault s1)
      from beneath_mint [OF minted(8)] minted(9) show ?thesis by (auto split: option.splits)
    qed simp
  qed (use assms True beneath_mint in \<open>auto elim!: create_Ok publish_Ok unpublish_Ok mint_Ok give_Ok create_account_Ok\<close>)
next
  case False
  show ?thesis
  proof (cases "\<exists>f opt. c = Buy f opt")
    case True
    then obtain f opt where "buy E og f opt s = (r, t)" using assms by auto
    then show ?thesis
    proof (cases rule: buy_cases)
      case (minted who sale d vault s1)
      from beneath_mint [OF minted(8)] minted(9) show ?thesis by (auto split: option.splits)
    qed simp
  qed (use fragments_dispatch_failure [OF assms False] in auto)
qed

section \<open>Extrinsics, case by case\<close>

lemma apply_extrinsic_Some:
  assumes "apply_extrinsic C E tr x s = Some (r, t)"
  obtains og call u where "extrinsic_call x = (og, call)" and "runtime_dispatch C E og call s = (r, u)"
    and "r \<noteq> Panic" and "og = NoOrigin \<Longrightarrow> runtime_validate_unsigned E InBlock call s"
    and "t = (if tr \<and> r \<noteq> Ok then s else u)"
proof -
  obtain og call where x: "extrinsic_call x = (og, call)" by fastforce
  obtain r' u where d: "runtime_dispatch C E og call s = (r', u)" by fastforce
  show ?thesis
    using assms by (intro that [OF x, of u]) (auto simp: apply_extrinsic_def x d dispatch_def split: if_splits outcome.splits)
qed

lemma map_outcome_Ok [simp]: "map_outcome f x = Ok \<longleftrightarrow> x = Ok"
  by (cases x) simp_all

lemma runtime_dispatch_cases:
  assumes "runtime_dispatch C E og call s = (r, t)"
  obtains (protos) c r' where "call = Protos_Call c" and "protos_dispatch C E og c s = (r', t)" and "r = Ok \<longleftrightarrow> r' = Ok"
  | (fragments) c r' where "call = Fragments_Call c" and "fragments_dispatch E og c s = (r', t)" and "r = Ok \<longleftrightarrow> r' = Ok"
  | (detach) c r' where "call = Detach_Call c" and "detach_dispatch og c s = (r', t)" and "r = Ok \<longleftrightarrow> r' = Ok"
  | (accounts) c r' where "call = Accounts_Call c" and "accounts_dispatch C E og c s = (r', t)" and "r = Ok \<longleftrightarrow> r' = Ok"
proof (cases call)
  case (Protos_Call c)
  obtain r' u where "protos_dispatch C E og c s = (r', u)" by fastforce
  then show ?thesis using assms Protos_Call by (intro protos) (auto simp: in_pallet_def)
next
  case (Fragments_Call c)
  obtain r' u where "fragments_dispatch E og c s = (r', u)" by fastforce
  then show ?thesis using assms Fragments_Call by (intro fragments) (auto simp: in_pallet_def)
next
  case (Detach_Call c)
  obtain r' u where "detach_dispatch og c s = (r', u)" by fastforce
  then show ?thesis using assms Detach_Call by (intro detach) (auto simp: in_pallet_def)
next
  case (Accounts_Call c)
  obtain r' u where "accounts_dispatch C E og c s = (r', u)" by fastforce
  then show ?thesis using assms Accounts_Call by (intro accounts) (auto simp: in_pallet_def)
qed

lemma chain_steps_in_block: "(in_block C E tr)\<^sup>*\<^sup>* s t \<Longrightarrow> (chain_step C E tr)\<^sup>*\<^sup>* s t"
  by (induction rule: rtranclp_induct) (auto intro: chain_step.inside rtranclp.rtrancl_into_rtrancl)

lemma chain_steps_block:
  assumes "block C E tr s t"
  shows "(chain_step C E tr)\<^sup>*\<^sup>* (s\<lparr>block_number := block_number s + 1\<rparr>) (t\<lparr>block_number := block_number t + 1\<rparr>)"
  using assms
proof cases
  case (block u)
  show ?thesis
    using chain_steps_in_block [OF block(2)] chain_step.next_block [OF block(1), of C tr] by simp
qed

end
