(* ===== verification/Runtime_Invariant.thy ===== *)
theory Runtime_Invariant
  imports Clamor_Runtime Protos_Query
begin

text \<open>
  The invariant of the whole chain: what each pallet keeps of its own storage, what holds
  between the pallets, its preservation by every extrinsic and by the end of a block, and
  the order of the hooks, which does not matter.
\<close>

section \<open>The invariant of the chain\<close>

text \<open>
  Across pallets: only accounts with a usage counter have stakes, apart from those whose
  stakes are dropped at the end of the block; every definition is of a stored
  Proto-Fragment, and every instance and sale of a stored definition.
\<close>

definition stake_holders :: "('b, 'x) accounts_state_scheme \<Rightarrow> account_id set" where
  "stake_holders s = dom (FragUsage s) \<union> set (PendingUnlinks s)"

definition stakes_linked :: "('b, 'c, 'x) protos_state_scheme \<Rightarrow> bool" where
  "stakes_linked s \<longleftrightarrow> snd ` dom (ProtoStakes s) \<subseteq> stake_holders s"

definition grounded :: "('b, 'c, 'p, 'x) fragments_state_scheme \<Rightarrow> bool" where
  "grounded s \<longleftrightarrow>
     (\<forall>f d. Definitions s f = Some d \<longrightarrow> fd_proto_hash d \<in> dom (Protos s)) \<and>
     (\<forall>f i x. Fragments s (f, i) = Some x \<longrightarrow> f \<in> dom (Definitions s)) \<and>
     (\<forall>f x. Publishing s f = Some x \<longrightarrow> f \<in> dom (Definitions s))"

lemma groundedI:
  assumes "\<And>f d. Definitions s f = Some d \<Longrightarrow> fd_proto_hash d \<in> dom (Protos s)"
    and "\<And>f i x. Fragments s (f, i) = Some x \<Longrightarrow> f \<in> dom (Definitions s)"
    and "\<And>f x. Publishing s f = Some x \<Longrightarrow> f \<in> dom (Definitions s)"
  shows "grounded s"
  unfolding grounded_def using assms by blast

lemma groundedD:
  assumes "grounded s"
  shows "Definitions s f = Some d \<Longrightarrow> fd_proto_hash d \<in> dom (Protos s)"
    and "Fragments s (f, i) = Some x \<Longrightarrow> f \<in> dom (Definitions s)"
    and "Publishing s f = Some y \<Longrightarrow> f \<in> dom (Definitions s)"
  using assms unfolding grounded_def by blast+

definition clamor_inv :: "('b, 'c, 'p, 'x) fragments_state_scheme \<Rightarrow> bool" where
  "clamor_inv s \<longleftrightarrow> accounts_inv s \<and> index_inv s \<and> stakes_inv s \<and> hashes_sized s \<and> stakes_linked s \<and>
     instances_inv s \<and> expiry_inv s \<and> grounded s"

text \<open>A step of one pallet keeps what only concerns another.\<close>

lemma accounts_inv_same: "same_accounts s t \<Longrightarrow> accounts_inv t = accounts_inv s"
  by (simp add: same_accounts_def accounts_inv_def links_inv_def usage_inv_def)

lemma protos_inv_same:
  assumes "same_protos s t"
  shows "index_inv t = index_inv s" "stakes_inv t = stakes_inv s" "hashes_sized t = hashes_sized s"
  using assms by (simp_all add: same_protos_def index_inv_def stakes_inv_def hashes_sized_def owner_of_def [abs_def]
      category_of_def [abs_def])

lemma stakes_linked_same: "same_protos s t \<Longrightarrow> same_accounts s t \<Longrightarrow> stakes_linked t = stakes_linked s"
  by (simp add: same_protos_def same_accounts_def stakes_linked_def stake_holders_def)

lemma fragments_inv_same:
  assumes "same_fragments s t"
  shows "instances_inv s \<Longrightarrow> instances_inv t" "expiry_inv s \<Longrightarrow> expiry_inv t"
  using assms instances_inv_same [of s t] expiry_inv_same [of s t]
  by (auto simp: same_fragments_def same_instances_def)

lemma grounded_same: "same_protos s t \<Longrightarrow> same_fragments s t \<Longrightarrow> grounded t = grounded s"
  by (simp add: same_protos_def same_fragments_def grounded_def)

lemma stakes_linked_protos:
  assumes "stakes_linked s" and "protos_dispatch C E og c s = (r, t)" and "stake_holders t = stake_holders s"
  shows "stakes_linked t"
  using protos_dispatch_stakes [OF assms(2)]
proof (elim disjE exE conjE)
  fix h amount assume "stake E og h amount s = (Ok, t)"
  then show ?thesis using assms(1,3) by (cases rule: stake_Ok) (auto simp: stakes_linked_def stake_holders_def)
next
  fix h assume "unstake C og h s = (Ok, t)"
  then show ?thesis
    using assms(1,3) by (cases rule: unstake_Ok) (auto simp: stakes_linked_def stake_holders_def split: if_splits)
qed (use assms(1,3) in \<open>simp add: stakes_linked_def\<close>)

lemma grounded_grow:
  assumes "grounded s" and "dom (Protos s) \<subseteq> dom (Protos t)" and "same_fragments s t" shows "grounded t"
  using assms(2,3) groundedD [OF assms(1)]
  by (intro groundedI) (unfold same_fragments_def, metis subsetD, metis+)

lemma clamor_inv_protos:
  assumes inv: "clamor_inv s" and call: "protos_dispatch C E og c s = (r, t)"
    and hash: "\<And>b. length (blake2_256 E b) = 32"
  shows "clamor_inv t"
proof -
  note frame = protos_dispatch_frame [OF call]
  have "stakes_linked t"
    by (rule stakes_linked_protos [OF _ call]) (use inv frame(1) in \<open>simp_all add: clamor_inv_def same_accounts_def stake_holders_def\<close>)
  moreover have "dom (Protos s) \<subseteq> dom (Protos t)" using protos_dispatch_change [OF call] by fastforce
  then have "grounded t" using grounded_grow [of s t] inv frame(3) by (simp add: clamor_inv_def)
  ultimately show ?thesis
    using inv index_inv_dispatch [of s C E og c] stakes_inv_dispatch [of s C E og c] hashes_sized_dispatch [OF _ call hash]
      accounts_inv_same [OF frame(1)] fragments_inv_same [OF frame(3)]
    by (simp add: clamor_inv_def call)
qed

lemma clamor_inv_detach:
  assumes "clamor_inv s" and "detach_dispatch og c s = (r, t)" shows "clamor_inv t"
proof -
  note frame = detach_dispatch_frame [OF assms(2)]
  show ?thesis
    using assms(1) accounts_inv_same [OF frame(2)] protos_inv_same [OF frame(1)] stakes_linked_same [OF frame(1,2)]
      fragments_inv_same [OF frame(3)] grounded_same [OF frame(1,3)]
    by (simp add: clamor_inv_def)
qed

text \<open>
  No call to \<open>accounts\<close> takes an account out of \<open>stake_holders\<close>: one that loses its usage counter
  is queued for dropping its stakes.
\<close>

lemma stake_holders_update [simp]:
  "stake_holders (EthLockedFrag_update f1 t) = stake_holders t"
  "stake_holders (EVMLinks_update f2 t) = stake_holders t"
  "stake_holders (EVMLinksReverse_update f3 t) = stake_holders t"
  "stake_holders (EVMLinkVoting_update f4 t) = stake_holders t"
  "stake_holders (EVMLinkVotingClosed_update f5 t) = stake_holders t"
  "stake_holders (accounts_FragKeys_update f6 t) = stake_holders t"
  "stake_holders (ExternalID2Account_update f7 t) = stake_holders t"
  "stake_holders (Proxies_update f8 t) = stake_holders t"
  "stake_holders (accounts_events_update f9 t) = stake_holders t"
  "stake_holders (balances_update f10 t) = stake_holders t"
  by (simp_all add: stake_holders_def)

lemma stake_holders_unlink: "stake_holders t \<subseteq> stake_holders (snd (unlink_account a k t))"
  by (auto simp: unlink_account_def stake_holders_def split: option.split)

lemma stake_holders_lock: "stake_holders t \<subseteq> stake_holders (apply_lock k amount t)"
  by (auto simp: apply_lock_def Let_def stake_holders_def split: option.split)

lemma stake_holders_unlock: "stake_holders t \<subseteq> stake_holders (snd (apply_unlock k amount t))"
proof (cases "EVMLinksReverse t k")
  case (Some a)
  obtain r u where u: "unlink_account a k t = (r, u)" by fastforce
  then have "stake_holders t \<subseteq> stake_holders u" using stake_holders_unlink [of t a k] by simp
  then show ?thesis by (simp add: apply_unlock_def Some u split: outcome.split)
qed (simp add: apply_unlock_def)

lemma stake_holders_settle: "stake_holders t \<subseteq> stake_holders (snd (settle_lock d h amount t))"
proof -
  obtain r u where r: "(if elu_lock d then (Ok, apply_lock (elu_sender d) amount t)
    else apply_unlock (elu_sender d) amount t) = (r, u)" by fastforce
  moreover have "stake_holders t \<subseteq> stake_holders (snd (if elu_lock d then (Ok, apply_lock (elu_sender d) amount t)
    else apply_unlock (elu_sender d) amount t))" using stake_holders_lock [of t] stake_holders_unlock [of t] by simp
  ultimately have "stake_holders t \<subseteq> stake_holders u" by (simp only: snd_conv)
  then show ?thesis by (simp add: settle_lock_def r split: outcome.split)
qed

lemma stake_holders_dispatch:
  assumes "accounts_dispatch C E og c s = (r, t)" shows "stake_holders s \<subseteq> stake_holders t"
proof -
  have "stake_holders s \<subseteq> stake_holders (snd (accounts_dispatch C E og c s))"
  proof (cases c)
    case (Internal_lock_update d sig)
    obtain b u where u: "count_vote (Threshold C) (lock_data_hash E d) s = (b, u)" by fastforce
    then have "stake_holders u = stake_holders s" by (auto simp: count_vote_def split: option.splits if_splits)
    then show ?thesis
      using stake_holders_settle [of u]
      by (simp add: Internal_lock_update internal_lock_update_def Let_def u split: option.split bool.split)
  next
    case (Link sig)
    then show ?thesis by (auto simp: link_def stake_holders_def split: option.split)
  next
    case (Unlink k)
    then show ?thesis using stake_holders_unlink [of s] by (simp add: unlink_def split: option.split)
  qed (simp_all add: accounts_add_key_def accounts_del_key_def sponsor_account_def Let_def split: option.split)
  then show ?thesis by (simp add: assms)
qed

lemma clamor_inv_accounts:
  assumes inv: "clamor_inv s" and call: "accounts_dispatch C E og c s = (r, t)" shows "clamor_inv t"
proof -
  have frame: "same_protos s t" "same_fragments s t"
    using beside_accounts_dispatch [OF call] by (simp_all add: beside_accounts_def)
  have "ProtoStakes t = ProtoStakes s" using frame by (simp add: same_protos_def)
  then have "stakes_linked t"
    using inv stake_holders_dispatch [OF call] by (auto simp: clamor_inv_def stakes_linked_def)
  then show ?thesis
    using inv accounts_inv_dispatch [of s C E og c] protos_inv_same [OF frame(1)] fragments_inv_same [OF frame(2)]
      grounded_same [OF frame]
    by (simp add: clamor_inv_def call)
qed

lemma take_units_Publishing:
  "take_units s f sale m q = Inr u \<Longrightarrow> Publishing u x = Some y \<Longrightarrow> \<exists>y. Publishing s x = Some y"
  by (auto simp: take_units_def storage_mutate_def split: option.splits if_splits)

lemma grounded_mint:
  assumes "grounded s" and "mint_fragments E who f sale opt q n None a s = (Ok, t)" shows "grounded t"
  using assms(2)
proof (cases rule: mint_fragments_effect)
  case (1 d data p)
  note old = groundedD [OF assms(1)]
  show ?thesis
  proof (rule groundedI)
    fix f' i x assume "Fragments t (f', i) = Some x"
    then consider "f' = f" | "Fragments s (f', i) = Some x" unfolding 1(4) by (metis prod.inject)
    then show "f' \<in> dom (Definitions t)" using old(2) 1(1) by cases (auto simp: 1(13))
  next
    fix x y assume "Publishing t x = Some y"
    then obtain y' where "Publishing s x = Some y'" using take_units_Publishing [OF 1(3), of x y] by (auto simp: 1(12))
    then show "x \<in> dom (Definitions t)" using old(3) by (simp add: 1(13))
  qed (use old(1) in \<open>simp add: 1(13,14)\<close>)
qed

lemma grounded_update [simp]:
  "grounded (balances_update f0 s) = grounded s"
  "grounded (Proto2Fragments_update f1 s) = grounded s"
  "grounded (EditionsCount_update f2 s) = grounded s"
  "grounded (CopiesCount_update f3 s) = grounded s"
  "grounded (UniqueData2Edition_update f4 s) = grounded s"
  "grounded (Owners_update f5 s) = grounded s"
  "grounded (Inventory_update f6 s) = grounded s"
  "grounded (Expirations_update f7 s) = grounded s"
  "grounded (fragments_events_update f8 s) = grounded s"
  "grounded (indexed_update f9 s) = grounded s"
  by (simp_all add: grounded_def)

lemma grounded_give:
  assumes "grounded s" and "give E og cl e k dest np ex s = (Ok, t)" shows "grounded t"
proof -
  note old = groundedD [OF assms(1)]
  from assms(2) show ?thesis
  proof (cases rule: give_Ok)
    case (copied who item to copies)
    then have "Fragments s (cl, e, k) = Some item" by (simp add: giveable_def)
    then have "cl \<in> dom (Definitions s)" by (rule old(2))
    then show ?thesis
      by (intro groundedI) (auto simp: copied(7) give_copy_def Let_def dest: old split: if_splits)
  next
    case (moved who item to)
    show ?thesis
      by (rule groundedI)
        (auto simp: moved(5) give_original_def Let_def storage_mutate_def dest: old split: option.splits if_splits)
  qed
qed

lemma grounded_dispatch:
  assumes g: "grounded s" and call: "fragments_dispatch E og c s = (r, t)" shows "grounded t"
proof (cases "t = s")
  case False
  show ?thesis
  proof (cases c)
    case (Buy f opt)
    with call have "buy E og f opt s = (r, t)" by simp
    then show ?thesis
    proof (cases rule: buy_cases)
      case (minted who sale d vault s1)
      from grounded_mint [OF g minted(8)] minted(9) show ?thesis by (auto split: option.splits)
    qed (use g in simp)
  next
    case (Create h md p u m)
    with False call have "create E og h md p u m s = (Ok, t)"
      by (cases r) (auto dest: create.failure_keeps_state)
    then show ?thesis
    proof (cases rule: create_Ok)
      case (1 who b vault)
      from 1(2) have "h \<in> dom (Protos s)" by (auto simp: ensure_proto_owner_Ok)
      then show ?thesis by (intro groundedI) (auto simp: 1(6) dest: groundedD [OF g] split: if_splits)
    qed
  next
    case (Publish f price q ex a)
    with False call have "publish og f price q ex a s = (Ok, t)"
      by (cases r) (auto dest: publish.failure_keeps_state)
    then show ?thesis
      by (cases rule: publish_Ok) (auto intro!: groundedI dest: groundedD [OF g] split: if_splits)
  next
    case (Unpublish f)
    with False call have "unpublish og f s = (Ok, t)"
      by (cases r) (auto dest: unpublish.failure_keeps_state)
    then show ?thesis
      by (cases rule: unpublish_Ok) (auto intro!: groundedI dest: groundedD [OF g] split: if_splits)
  next
    case (Mint f opt a)
    with False call have "mint E og f opt a s = (Ok, t)"
      by (cases r) (auto dest: mint.failure_keeps_state)
    then show ?thesis by (cases rule: mint_Ok) (rule grounded_mint [OF g])
  next
    case (Give cl e k dest np ex)
    with False call have "give E og cl e k dest np ex s = (Ok, t)"
      by (cases r) (auto dest: give.failure_keeps_state)
    then show ?thesis by (rule grounded_give [OF g])
  next
    case (Create_account cl e k)
    with False call have "create_account E og cl e k s = (Ok, t)"
      by (cases r) (auto dest: create_account.failure_keeps_state)
    then show ?thesis by (cases rule: create_account_Ok) (simp add: g)
  qed
qed (use g in simp)

lemma clamor_inv_fragments:
  assumes inv: "clamor_inv s" and call: "fragments_dispatch E og c s = (r, t)" and fits: "call_fits s c"
    and "iterates E"
  shows "clamor_inv t"
proof -
  have frame: "same_protos s t" "same_accounts s t" using beneath_dispatch [OF call] by (simp_all add: beneath_def)
  have step: "fragments_step E s t" by (rule fragments_step.call [OF call fits])
  show ?thesis
    using inv accounts_inv_same [OF frame(2)] protos_inv_same [OF frame(1)] stakes_linked_same [OF frame]
      grounded_dispatch [OF _ call] instances_inv_step [OF step _ \<open>iterates E\<close>] expiry_inv_step [OF step]
    by (simp add: clamor_inv_def)
qed

text \<open>The parameters behave as documented: 32-byte hashes, and every key is iterated over.\<close>

definition documented :: "('b, 'p, 'y) fragments_ext_scheme \<Rightarrow> bool" where
  "documented E \<longleftrightarrow> iterates E \<and> (\<forall>b. length (blake2_256 E b) = 32)"

lemma clamor_inv_extrinsic:
  assumes "clamor_inv s" and "apply_extrinsic C E tr x s = Some (r, t)" and "extrinsic_fits s x" and "documented E"
  shows "clamor_inv t"
  using assms(2)
proof (cases rule: apply_extrinsic_Some)
  case (1 og call u)
  from 1(2) have "clamor_inv u"
  proof (cases rule: runtime_dispatch_cases)
    case (protos c r')
    show ?thesis by (rule clamor_inv_protos [OF assms(1) protos(2)]) (use assms(4) in \<open>simp add: documented_def\<close>)
  next
    case (fragments c r')
    then have "call_fits s c" using assms(3) by (simp add: extrinsic_fits_def 1(1))
    then show ?thesis using clamor_inv_fragments [OF assms(1) fragments(2)] assms(4) by (simp add: documented_def)
  next
    case (detach c r')
    show ?thesis by (rule clamor_inv_detach [OF assms(1) detach(2)])
  next
    case (accounts c r')
    show ?thesis by (rule clamor_inv_accounts [OF assms(1) accounts(2)])
  qed
  then show ?thesis using assms(1) 1(5) by simp
qed

section \<open>The end of a block\<close>

lemma protos_on_finalize_same:
  "same_detach s (protos_on_finalize s)" "same_fragments s (protos_on_finalize s)"
  "block_number (protos_on_finalize s) = block_number s"
proof -
  obtain ps as where "protos_on_finalize s = s\<lparr>PendingUnlinks := [], ProtoStakes := ps, AccountStakes := as\<rparr>"
    using protos_on_finalize_frame by blast
  then show "same_detach s (protos_on_finalize s)" "same_fragments s (protos_on_finalize s)"
    "block_number (protos_on_finalize s) = block_number s" by (simp_all add: same_defs)
qed

lemma beneath_expire_one [simp]: "beneath s (expire_one E x t) = beneath s t"
  by (cases x) (simp add: expire_one_def Let_def split: option.split)

lemma beneath_expire_all [simp]: "beneath s (fold (expire_one E) xs t) = beneath s t"
  by (induction xs arbitrary: t) simp_all

lemma beneath_on_finalize [simp]: "beneath s (fragments_on_finalize E n s)"
  by (simp add: fragments_on_finalize_eq)

lemma on_finalize_Publishing [simp]: "Publishing (fragments_on_finalize E n s) = Publishing s"
proof -
  have "Publishing (expire_one E x t) = Publishing t" for x and t :: "('a, 'b, 'c, 'd) fragments_state_scheme"
    by (cases x) (simp add: expire_one_def Let_def split: option.split)
  then have "Publishing (fold (expire_one E) xs t) = Publishing t" for xs and t :: "('a, 'b, 'c, 'd) fragments_state_scheme"
    by (induction xs arbitrary: t) simp_all
  then show ?thesis by (simp add: fragments_on_finalize_eq)
qed

lemma detach_on_finalize_same:
  "same_protos s (detach_on_finalize s)" "same_accounts s (detach_on_finalize s)"
  "same_fragments s (detach_on_finalize s)" "block_number (detach_on_finalize s) = block_number s"
  "DetachRequests (detach_on_finalize s) = []"
  by (simp_all add: detach_on_finalize_def Let_def same_defs)

text \<open>The stakes after the hook of \<open>protos\<close>: those of the accounts with a usage counter.\<close>

lemma stakes_linked_on_finalize:
  assumes "stakes_inv s" and "stakes_linked s"
  shows "stakes_inv (protos_on_finalize s)" and "snd ` dom (ProtoStakes (protos_on_finalize s)) \<subseteq> dom (FragUsage s)"
proof -
  note f = protos_on_finalize_stakes [OF assms(1)]
  show "stakes_inv (protos_on_finalize s)" using f by blast
  show "snd ` dom (ProtoStakes (protos_on_finalize s)) \<subseteq> dom (FragUsage s)"
  proof
    fix a assume "a \<in> snd ` dom (ProtoStakes (protos_on_finalize s))"
    then obtain h where h: "ProtoStakes (protos_on_finalize s) (h, a) \<noteq> None" by force
    have "ProtoStakes (protos_on_finalize s) (h, a) = None" if "a \<in> set (PendingUnlinks s)" using f that by simp
    then have a: "a \<notin> set (PendingUnlinks s)" using h by auto
    then have "ProtoStakes s (h, a) \<noteq> None" using f h by simp
    then have "a \<in> snd ` dom (ProtoStakes s)" by force
    then show "a \<in> dom (FragUsage s)" using assms(2) a by (auto simp: stakes_linked_def stake_holders_def)
  qed
qed

lemma clamor_inv_on_finalize:
  assumes inv: "clamor_inv s" and "documented E"
  shows "clamor_inv (runtime_on_finalize E s)"
    and "PendingUnlinks (runtime_on_finalize E s) = []" and "DetachRequests (runtime_on_finalize E s) = []"
proof -
  let ?s1 = "protos_on_finalize s" let ?s2 = "fragments_on_finalize E (block_number s) ?s1" let ?s3 = "detach_on_finalize ?s2"
  obtain ps as where s1: "?s1 = s\<lparr>PendingUnlinks := [], ProtoStakes := ps, AccountStakes := as\<rparr>"
    using protos_on_finalize_frame by blast
  have "stakes_inv s" "stakes_linked s" using inv by (simp_all add: clamor_inv_def)
  note stakes = stakes_linked_on_finalize [OF this]
  have same: "same_fragments s ?s1" by (rule protos_on_finalize_same)
  have inv1: "clamor_inv ?s1"
    using inv stakes fragments_inv_same [OF same] grounded_grow [OF _ _ same]
    by (simp add: clamor_inv_def stakes_linked_def stake_holders_def hashes_sized_def accounts_inv_def
        links_inv_def usage_inv_def s1)
  have frame2: "beneath ?s1 ?s2" by simp
  have step: "fragments_step E ?s1 ?s2"
    using fragments_step.end_of_block [of E ?s1] by (simp add: protos_on_finalize_same)
  have "grounded ?s2"
    by (rule groundedI) (use inv1 frame2 in \<open>auto simp: clamor_inv_def on_finalize_fields beneath_def same_protos_def
      dest: groundedD split: if_splits\<close>)
  then have inv2: "clamor_inv ?s2"
    using inv1 frame2 accounts_inv_same [of ?s1 ?s2] protos_inv_same [of ?s1 ?s2] stakes_linked_same [of ?s1 ?s2]
      instances_inv_step [OF step] expiry_inv_step [OF step] assms(2)
    by (simp add: clamor_inv_def beneath_def documented_def)
  note frame3 = detach_on_finalize_same [of ?s2]
  show "clamor_inv (runtime_on_finalize E s)"
    using inv2 accounts_inv_same [OF frame3(2)] protos_inv_same [OF frame3(1)] stakes_linked_same [OF frame3(1,2)]
      fragments_inv_same [OF frame3(3)] grounded_same [OF frame3(1,3)]
    by (simp add: runtime_on_finalize_def clamor_inv_def)
  show "DetachRequests (runtime_on_finalize E s) = []" by (simp add: runtime_on_finalize_def frame3)
  show "PendingUnlinks (runtime_on_finalize E s) = []"
    using frame2 frame3(2) by (simp add: runtime_on_finalize_def beneath_def same_accounts_def s1)
qed

section \<open>The chain\<close>

lemma clamor_inv_foreign:
  assumes "clamor_inv s" and "foreign_change s t" shows "clamor_inv t"
  using assms accounts_inv_same [of s t] protos_inv_same [of s t] stakes_linked_same [of s t] fragments_inv_same [of s t]
    grounded_same [of s t]
  by (simp add: clamor_inv_def foreign_change_def)

lemma clamor_inv_in_block:
  "(in_block C E tr)\<^sup>*\<^sup>* s t \<Longrightarrow> clamor_inv s \<Longrightarrow> documented E \<Longrightarrow> clamor_inv t"
  by (induction rule: rtranclp_induct) (auto elim!: in_blockE intro: clamor_inv_extrinsic clamor_inv_foreign)

lemma clamor_inv_start: "clamor_inv (s\<lparr>block_number := n\<rparr>) = clamor_inv s"
proof -
  have "same_protos s (s\<lparr>block_number := n\<rparr>)" "same_accounts s (s\<lparr>block_number := n\<rparr>)" "same_fragments s (s\<lparr>block_number := n\<rparr>)"
    "same_fragments (s\<lparr>block_number := n\<rparr>) s" by (simp_all add: same_defs)
  then show ?thesis
    unfolding clamor_inv_def
    using accounts_inv_same protos_inv_same stakes_linked_same fragments_inv_same grounded_same by metis
qed

text \<open>Between blocks the two queues are empty.\<close>

definition between_blocks :: "('b, 'c, 'p, 'x) fragments_state_scheme \<Rightarrow> bool" where
  "between_blocks s \<longleftrightarrow> clamor_inv s \<and> PendingUnlinks s = [] \<and> DetachRequests s = []"

lemma between_blocks_block:
  assumes "block C E tr s t" and "clamor_inv s" and "documented E" shows "between_blocks t"
  using assms(1)
proof cases
  case (block t')
  have "clamor_inv t'" using clamor_inv_in_block [OF block(2)] assms(2,3) by (simp add: clamor_inv_start)
  then show ?thesis using clamor_inv_on_finalize [OF _ assms(3), of t'] block(1) by (simp add: between_blocks_def)
qed

lemma between_blocks_chain:
  "(block C E tr)\<^sup>*\<^sup>* s t \<Longrightarrow> between_blocks s \<Longrightarrow> documented E \<Longrightarrow> between_blocks t"
  by (induction rule: rtranclp_induct) (auto simp: between_blocks_def dest: between_blocks_block)

section \<open>The order of the hooks\<close>

lemma drop_stakes_commute [simp]:
  "drop_stakes a (DetachRequests_update f1 s) = DetachRequests_update f1 (drop_stakes a s)"
  "drop_stakes a (offchain_requests_update f2 s) = offchain_requests_update f2 (drop_stakes a s)"
  "drop_stakes a (Fragments_update f3 u) = Fragments_update f3 (drop_stakes a u)"
  "drop_stakes a (Owners_update f4 u) = Owners_update f4 (drop_stakes a u)"
  "drop_stakes a (Inventory_update f5 u) = Inventory_update f5 (drop_stakes a u)"
  "drop_stakes a (Expirations_update f6 u) = Expirations_update f6 (drop_stakes a u)"
  "drop_stakes a (fragments_events_update f7 u) = fragments_events_update f7 (drop_stakes a u)"
  by (simp_all add: drop_stakes_def Let_def split: option.split)

lemma drop_stakes_fields [simp]:
  "Fragments (drop_stakes a u) = Fragments u" "Owners (drop_stakes a u) = Owners u"
  "Inventory (drop_stakes a u) = Inventory u" "Expirations (drop_stakes a u) = Expirations u"
  "fragments_events (drop_stakes a u) = fragments_events u" "DetachRequests (drop_stakes a s) = DetachRequests s"
  by (simp_all add: drop_stakes_def Let_def split: option.split)

lemma find_owner_Owners: "Owners t = Owners s \<Longrightarrow> find_owner E cl i t = find_owner E cl i s"
  by (simp add: find_owner_def)

lemma drop_stakes_expire_one: "drop_stakes a (expire_one E x s) = expire_one E x (drop_stakes a s)"
proof -
  obtain cl i where x: "x = (cl, i)" by (cases x)
  have "find_owner E cl i (Fragments_update f (drop_stakes a s)) = find_owner E cl i (Fragments_update f s)" for f
    by (rule find_owner_Owners) simp
  then show ?thesis by (cases i) (simp add: x expire_one_def Let_def split: option.split)
qed

lemma drop_stakes_expire_all: "drop_stakes a (fold (expire_one E) xs s) = fold (expire_one E) xs (drop_stakes a s)"
  by (induction xs arbitrary: s) (simp_all add: drop_stakes_expire_one)

lemma drop_stakes_fragments_hook: "drop_stakes a (fragments_on_finalize E n s) = fragments_on_finalize E n (drop_stakes a s)"
  by (simp add: fragments_on_finalize_eq drop_stakes_expire_all)

lemma PendingUnlinks_fragments_hook:
  "fragments_on_finalize E n (s\<lparr>PendingUnlinks := l\<rparr>) = (fragments_on_finalize E n s)\<lparr>PendingUnlinks := l\<rparr>"
proof -
  have one: "expire_one E x (t\<lparr>PendingUnlinks := l\<rparr>) = (expire_one E x t)\<lparr>PendingUnlinks := l\<rparr>"
    for x and t :: "('a, 'b, 'c, 'd) fragments_state_scheme"
    by (cases x) (simp add: expire_one_def Let_def find_owner_def split: option.split)
  have "fold (expire_one E) xs (t\<lparr>PendingUnlinks := l\<rparr>) = (fold (expire_one E) xs t)\<lparr>PendingUnlinks := l\<rparr>"
    for xs and t :: "('a, 'b, 'c, 'd) fragments_state_scheme"
    by (induction xs arbitrary: t) (simp_all add: one)
  note all = this [of _ "s\<lparr>Expirations := (Expirations s)(n := None)\<rparr>"]
  have swap: "s\<lparr>PendingUnlinks := l, Expirations := x\<rparr> = s\<lparr>Expirations := x, PendingUnlinks := l\<rparr>" for x by simp
  show ?thesis by (simp add: fragments_on_finalize_eq swap all)
qed

lemma hooks_protos_fragments:
  "protos_on_finalize (fragments_on_finalize E n s) = fragments_on_finalize E n (protos_on_finalize s)"
proof -
  have "fold drop_stakes as (fragments_on_finalize E n t) = fragments_on_finalize E n (fold drop_stakes as t)"
    for as and t :: "('a, 'b, 'c, 'd) fragments_state_scheme"
    by (induction as arbitrary: t) (simp_all add: drop_stakes_fragments_hook)
  moreover have "PendingUnlinks (fragments_on_finalize E n s) = PendingUnlinks s"
    using beneath_on_finalize [of s E n] by (simp add: beneath_def same_accounts_def)
  ultimately show ?thesis by (simp add: protos_on_finalize_def PendingUnlinks_fragments_hook [symmetric])
qed

lemma fold_drop_stakes_commute [simp]:
  "fold drop_stakes as (DetachRequests_update f t) = DetachRequests_update f (fold drop_stakes as t)"
  "fold drop_stakes as (offchain_requests_update g t) = offchain_requests_update g (fold drop_stakes as t)"
  "DetachRequests (fold drop_stakes as t) = DetachRequests t"
  by (induction as arbitrary: t) simp_all

lemma hooks_detach_protos: "detach_on_finalize (protos_on_finalize s) = protos_on_finalize (detach_on_finalize s)"
proof -
  have "s\<lparr>DetachRequests := l, PendingUnlinks := m\<rparr> = s\<lparr>PendingUnlinks := m, DetachRequests := l\<rparr>"
    "s\<lparr>DetachRequests := l, offchain_requests := r, PendingUnlinks := m\<rparr> =
     s\<lparr>PendingUnlinks := m, DetachRequests := l, offchain_requests := r\<rparr>" for l m r by simp_all
  note swap = this
  show ?thesis by (simp add: protos_on_finalize_def detach_on_finalize_def Let_def swap)
qed

lemma expire_all_commute [simp]:
  "fold (expire_one E) xs (DetachRequests_update f t) = DetachRequests_update f (fold (expire_one E) xs t)"
  "fold (expire_one E) xs (offchain_requests_update g t) = offchain_requests_update g (fold (expire_one E) xs t)"
  "DetachRequests (fold (expire_one E) xs t) = DetachRequests t"
proof -
  have one: "expire_one E x (DetachRequests_update f t) = DetachRequests_update f (expire_one E x t)"
    "expire_one E x (offchain_requests_update g t) = offchain_requests_update g (expire_one E x t)"
    "DetachRequests (expire_one E x t) = DetachRequests t"
    for x and t :: "('a, 'b, 'c, 'd) fragments_state_scheme"
    by (cases x; simp add: expire_one_def Let_def find_owner_def split: option.split)+
  show "fold (expire_one E) xs (DetachRequests_update f t) = DetachRequests_update f (fold (expire_one E) xs t)"
    "fold (expire_one E) xs (offchain_requests_update g t) = offchain_requests_update g (fold (expire_one E) xs t)"
    "DetachRequests (fold (expire_one E) xs t) = DetachRequests t"
    by (induction xs arbitrary: t) (simp_all add: one)
qed

lemma hooks_detach_fragments:
  "detach_on_finalize (fragments_on_finalize E n s) = fragments_on_finalize E n (detach_on_finalize s)"
proof -
  have "s\<lparr>DetachRequests := l, Expirations := x\<rparr> = s\<lparr>Expirations := x, DetachRequests := l\<rparr>"
    "s\<lparr>DetachRequests := l, offchain_requests := r, Expirations := x\<rparr> =
     s\<lparr>Expirations := x, DetachRequests := l, offchain_requests := r\<rparr>" for l x r by simp_all
  note swap = this
  show ?thesis by (simp add: fragments_on_finalize_eq detach_on_finalize_def Let_def swap)
qed

end
