(* ===== verification/Chain_Spec.thy ===== *)
theory Chain_Spec
  imports Runtime_Invariant
begin

text \<open>
  The chain specifications of \<open>node/src/chain_spec.rs\<close>: keys derived from seeds, the genesis
  configurations of the three networks, and the storage that the four pallets build from
  them. Key pairs are parameters.
\<close>

section \<open>Keys from seeds\<close>

text \<open>
  The pairs of \<open>sp_core\<close>, of any scheme: \<open>from_string\<close> fails for a malformed secret, and
  \<open>from_seed_slice\<close> for a seed of the wrong length.
\<close>

record 'q crypto =
  ed25519_from_string :: "bytes \<Rightarrow> 'q option"
  sr25519_from_string :: "bytes \<Rightarrow> 'q option"
  ecdsa_from_string :: "bytes \<Rightarrow> 'q option"
  ecdsa_from_seed_slice :: "bytes \<Rightarrow> 'q option"
  pair_public :: "'q \<Rightarrow> bytes"
  pair_sign :: "'q \<Rightarrow> bytes \<Rightarrow> bytes"
  into_account :: "bytes \<Rightarrow> account_id"

text \<open>\<open>None\<close> is the panic of \<open>expect\<close> and \<open>unwrap\<close>. The first argument is the scheme.\<close>

definition get_from_seed :: "(bytes \<Rightarrow> 'q option) \<Rightarrow> ('q, 'w) crypto_scheme \<Rightarrow> bytes \<Rightarrow> bytes option" where
  "get_from_seed from_string K seed = map_option (pair_public K) (from_string (ascii ''//'' @ seed))"

definition get_from_seed_to_eth :: "('b, 'y) ext_scheme \<Rightarrow> ('q, 'w) crypto_scheme \<Rightarrow> bytes \<Rightarrow> bytes option" where
  "get_from_seed_to_eth E K seed =
     (case ed25519_from_string K (ascii ''//'' @ seed) of
        None \<Rightarrow> None
      | Some pair \<Rightarrow>
          (let message = ascii ''fragments-frag-ecdsa-keys'' @ pair_public K pair;
               signature = pair_sign K pair message;
               hash = keccak_256 E signature
           in map_option (pair_public K) (ecdsa_from_seed_slice K hash)))"

definition get_account_id_from_seed :: "('q, 'w) crypto_scheme \<Rightarrow> bytes \<Rightarrow> account_id option" where
  "get_account_id_from_seed K seed = map_option (into_account K) (get_from_seed (sr25519_from_string K) K seed)"

record authority =
  aura_id :: bytes
  grandpa_id :: bytes
  upload_id :: bytes
  eth_id :: bytes
  detach_id :: bytes

definition authority_keys_from_seed :: "('b, 'y) ext_scheme \<Rightarrow> ('q, 'w) crypto_scheme \<Rightarrow> bytes \<Rightarrow> authority option" where
  "authority_keys_from_seed E K s =
     (case get_from_seed (sr25519_from_string K) K s of None \<Rightarrow> None
      | Some aura \<Rightarrow>
     (case get_from_seed (ed25519_from_string K) K s of None \<Rightarrow> None
      | Some grandpa \<Rightarrow>
     (case get_from_seed (ecdsa_from_string K) K s of None \<Rightarrow> None
      | Some upload_key \<Rightarrow>
     (case get_from_seed_to_eth E K s of None \<Rightarrow> None
      | Some eth \<Rightarrow>
     (case get_from_seed (ed25519_from_string K) K s of None \<Rightarrow> None
      | Some detach_key \<Rightarrow>
          Some \<lparr>aura_id = aura, grandpa_id = grandpa, upload_id = upload_key, eth_id = eth, detach_id = detach_key\<rparr>)))))"

section \<open>Genesis configurations\<close>

record genesis_config =
  system_code :: bytes
  balances_config :: "(account_id \<times> balance) list"
  aura_authorities :: "bytes list"
  grandpa_authorities :: "(bytes \<times> u64) list"
  sudo_key :: "account_id option"
  detach_eth_authorities :: "bytes list"
  detach_keys :: "bytes list"
  accounts_keys :: "bytes list"

definition testnet_genesis :: "bytes \<Rightarrow> authority list \<Rightarrow> account_id \<Rightarrow> account_id list \<Rightarrow> genesis_config" where
  "testnet_genesis wasm_binary initial_authorities root_key endowed_accounts =
     \<lparr>system_code = wasm_binary,
      balances_config = map (\<lambda>k. (k, 1000000000 * 10 ^ 12)) endowed_accounts,
      aura_authorities = map aura_id initial_authorities,
      grandpa_authorities = map (\<lambda>x. (grandpa_id x, 1)) initial_authorities,
      sudo_key = Some root_key,
      detach_eth_authorities = map eth_id initial_authorities,
      detach_keys = map detach_id initial_authorities,
      accounts_keys = map detach_id initial_authorities\<rparr>"

datatype chain_type = Development | Local_Chain | Live

text \<open>A specification; its genesis is built on demand, and \<open>None\<close> when that panics.\<close>

record chain_spec =
  spec_name :: string
  spec_id :: string
  spec_type :: chain_type
  spec_genesis :: "genesis_config option"

fun all_some :: "'a option list \<Rightarrow> 'a list option" where
  "all_some [] = Some []"
| "all_some (None # xs) = None"
| "all_some (Some x # xs) = map_option ((#) x) (all_some xs)"

definition seeds_genesis :: "('b, 'y) ext_scheme \<Rightarrow> ('q, 'w) crypto_scheme \<Rightarrow> bytes \<Rightarrow> string list \<Rightarrow> string
    \<Rightarrow> string list \<Rightarrow> genesis_config option" where
  "seeds_genesis E K wasm_binary authorities root endowed =
     (case all_some (map (\<lambda>s. authority_keys_from_seed E K (ascii s)) authorities) of None \<Rightarrow> None
      | Some initial_authorities \<Rightarrow>
     (case get_account_id_from_seed K (ascii root) of None \<Rightarrow> None
      | Some root_key \<Rightarrow>
     (case all_some (map (\<lambda>s. get_account_id_from_seed K (ascii s)) endowed) of None \<Rightarrow> None
      | Some endowed_accounts \<Rightarrow> Some (testnet_genesis wasm_binary initial_authorities root_key endowed_accounts))))"

definition development_config :: "('b, 'y) ext_scheme \<Rightarrow> ('q, 'w) crypto_scheme \<Rightarrow> bytes option \<Rightarrow> string + chain_spec" where
  "development_config E K wasm_binary =
     (case wasm_binary of None \<Rightarrow> Inl ''Development wasm not available''
      | Some wasm_binary \<Rightarrow> Inr
          \<lparr>spec_name = ''Development'', spec_id = ''dev'', spec_type = Development,
           spec_genesis = seeds_genesis E K wasm_binary [''Alice'', ''Bob''] ''Alice''
             [''Alice'', ''Bob'', ''Alice//stash'', ''Bob//stash'', ''Dave'']\<rparr>)"

definition local_testnet_config :: "('b, 'y) ext_scheme \<Rightarrow> ('q, 'w) crypto_scheme \<Rightarrow> bytes option \<Rightarrow> string + chain_spec" where
  "local_testnet_config E K wasm_binary =
     (case wasm_binary of None \<Rightarrow> Inl ''Development wasm not available''
      | Some wasm_binary \<Rightarrow> Inr
          \<lparr>spec_name = ''Local Testnet'', spec_id = ''local_testnet'', spec_type = Local_Chain,
           spec_genesis = seeds_genesis E K wasm_binary [''Alice'', ''Bob''] ''Alice''
             [''Alice'', ''Bob'', ''Charlie'', ''Dave'', ''Eve'', ''Ferdie'', ''Alice//stash'', ''Bob//stash'',
              ''Charlie//stash'', ''Dave//stash'', ''Eve//stash'', ''Ferdie//stash'']\<rparr>)"

definition live_config :: "bytes option \<Rightarrow> string + chain_spec" where
  "live_config wasm_binary =
     (case wasm_binary of None \<Rightarrow> Inl ''Development wasm not available''
      | Some wasm_binary \<Rightarrow> Inr
          \<lparr>spec_name = ''Live Network'', spec_id = ''live'', spec_type = Live,
           spec_genesis = Some \<lparr>system_code = wasm_binary, balances_config = [], aura_authorities = [],
             grandpa_authorities = [], sudo_key = None, detach_eth_authorities = [], detach_keys = [],
             accounts_keys = []\<rparr>\<rparr>)"

section \<open>Genesis storage\<close>

text \<open>The storage of the four pallets before genesis; the rest is FRAME's.\<close>

definition blank_state :: "'b \<Rightarrow> ('b, 'c, 'p) fragments_state" where
  "blank_state b = \<lparr>block_number = 0, extrinsic_index = None, now = 0, balances = b, indexed = [],
     DetachRequests = [], DetachNonces = Map.empty, DetachedHashes = Map.empty,
     EthereumAuthorities = {}, detach_FragKeys = {}, detach_events = [], offchain_requests = None,
     EthLockedFrag = Map.empty, EVMLinks = Map.empty, EVMLinksReverse = Map.empty,
     FragUsage = Map.empty, EVMLinkVoting = Map.empty, EVMLinkVotingClosed = Map.empty,
     PendingUnlinks = [], accounts_FragKeys = {}, ExternalID2Account = Map.empty,
     Proxies = Map.empty, accounts_events = [],
     Tags = Map.empty, TagsIndex = 0, MetaKeys = Map.empty, MetaKeysIndex = 0, Protos = Map.empty,
     ProtosByCategory = Map.empty, ProtosByOwner = Map.empty, ProtoStakes = Map.empty,
     AccountStakes = Map.empty, protos_events = [],
     Proto2Fragments = Map.empty, Definitions = Map.empty, Publishing = Map.empty,
     EditionsCount = Map.empty, CopiesCount = Map.empty, Fragments = Map.empty,
     UniqueData2Edition = Map.empty, Owners = Map.empty, Inventory = Map.empty,
     Expirations = Map.empty, fragments_events = []\<rparr>"

text \<open>\<open>GenesisConfig::build_storage\<close>, for the pallets \<open>detach\<close> and \<open>accounts\<close>; the other two have no genesis.\<close>

definition genesis_build :: "genesis_config \<Rightarrow> ('b, 'c, 'p, 'x) fragments_state_scheme
    \<Rightarrow> runtime_error dispatch_error outcome \<times> ('b, 'c, 'p, 'x) fragments_state_scheme" where
  "genesis_build G s =
     (case in_pallet Detach_Error (detach_genesis_build (detach_eth_authorities G) (detach_keys G) s) of
        (Ok, s1) \<Rightarrow> in_pallet Accounts_Error (accounts_initialize_keys (accounts_keys G) s1)
      | (r, s1) \<Rightarrow> (r, s1))"

definition genesis_state :: "genesis_config \<Rightarrow> 'b \<Rightarrow> ('b, 'c, 'p) fragments_state" where
  "genesis_state G b = (blank_state b)
     \<lparr>EthereumAuthorities := set (detach_eth_authorities G), detach_FragKeys := set (detach_keys G),
      accounts_FragKeys := set (accounts_keys G)\<rparr>"

section \<open>The chain starts well\<close>

lemma fold_insert_set: "fold insert xs S = S \<union> set xs"
  by (induction xs arbitrary: S) auto

lemma genesis_build_ok: "genesis_build G (blank_state b) = (Ok, genesis_state G b)"
  by (cases "detach_eth_authorities G"; cases "detach_keys G"; cases "accounts_keys G")
    (simp_all add: genesis_build_def in_pallet_def detach_genesis_build_def initialize_eth_authorities_def
      detach_initialize_keys_def accounts_initialize_keys_def fold_insert_set blank_state_def genesis_state_def)

lemma genesis_between_blocks: "between_blocks (genesis_state G b)"
  by (simp add: between_blocks_def clamor_inv_def accounts_inv_def links_inv_def usage_inv_def index_inv_def
      owner_of_def [abs_def] category_of_def [abs_def] indexes_empty stakes_inv_def hashes_sized_def
      stakes_linked_def instances_inv_def holds_def expiry_inv_def grounded_def genesis_state_def blank_state_def
      listed_def)

end
