(* ===== verification/Http_Client.thy ===== *)
theory Http_Client
  imports Clamor_Text
begin

text \<open>
  The HTTP client of \<open>primitives/clamor/src/lib.rs\<close>: a POST request over the host functions
  of \<open>sp_io::offchain\<close>, which are parameters. The state \<open>'w\<close> is the world outside the
  runtime.
\<close>

datatype 'a run = Value 'a | Error bytes | Crash

datatype http_status = DeadlineReached | IoError | Invalid | Finished "16 word"

text \<open>
  The host: a request is started, gets a header and a body (empty at the end), and is waited
  for; its response is read in pieces that the host puts into a buffer of the given size.
  \<open>None\<close> and \<open>False\<close> are the errors of the host. No deadline is ever set.
\<close>

record 'w http_host =
  http_request_start :: "bytes \<Rightarrow> bytes \<Rightarrow> 'w \<Rightarrow> (16 word) option \<times> 'w"
  http_request_add_header :: "16 word \<Rightarrow> bytes \<Rightarrow> bytes \<Rightarrow> 'w \<Rightarrow> bool \<times> 'w"
  http_request_write_body :: "16 word \<Rightarrow> bytes \<Rightarrow> 'w \<Rightarrow> bool \<times> 'w"
  http_response_wait :: "(16 word) list \<Rightarrow> 'w \<Rightarrow> http_status list \<times> 'w"
  http_response_read_body :: "16 word \<Rightarrow> nat \<Rightarrow> 'w \<Rightarrow> bytes option \<times> 'w"

text \<open>
  The loop over the response. It has no bound of its own: \<open>None\<close> is a loop that goes on
  forever.
\<close>

partial_function (option) read_response :: "('w, 'z) http_host_scheme \<Rightarrow> 16 word \<Rightarrow> bytes \<Rightarrow> 'w
    \<Rightarrow> (bytes run \<times> 'w) option" where
  "read_response H request response_body w =
     (case http_response_read_body H request 1024 w of
        (None, w') \<Rightarrow> Some (Crash, w')
      | (Some buffer, w') \<Rightarrow>
          (if buffer = [] then Some (Value response_body, w')
           else if length buffer > 1024 then Some (Crash, w')
           else read_response H request (response_body @ buffer) w'))"

definition http_json_post :: "('w, 'z) http_host_scheme \<Rightarrow> bytes \<Rightarrow> bytes \<Rightarrow> 'w
    \<Rightarrow> (bytes run \<times> 'w) option" where
  "http_json_post H url body w =
     (case http_request_start H (ascii ''POST'') url w of
        (None, w) \<Rightarrow> Some (Error (ascii ''Failed to start request''), w)
      | (Some request, w) \<Rightarrow>
     (case http_request_add_header H request (ascii ''Content-Type'') (ascii ''application/json'') w of
        (False, w) \<Rightarrow> Some (Error (ascii ''Failed to add header''), w)
      | (True, w) \<Rightarrow>
     (case http_request_write_body H request body w of
        (False, w) \<Rightarrow> Some (Error (ascii ''Failed to write body''), w)
      | (True, w) \<Rightarrow>
     (case http_request_write_body H request [] w of
        (False, w) \<Rightarrow> Some (Crash, w)
      | (True, w) \<Rightarrow>
     (case http_response_wait H [request] w of
        ([], w) \<Rightarrow> Some (Crash, w)
      | (Finished status # _, w) \<Rightarrow>
          (if status = 200 then read_response H request [] w
           else Some (Error (ascii ''request had unexpected status''), w))
      | (_ # _, w) \<Rightarrow> Some (Error (ascii ''request failed''), w))))))"

section \<open>The response\<close>

text \<open>The host delivers these pieces, and then the end.\<close>

fun delivers :: "('w, 'z) http_host_scheme \<Rightarrow> 16 word \<Rightarrow> 'w \<Rightarrow> bytes list \<Rightarrow> 'w \<Rightarrow> bool" where
  "delivers H request w [] w' \<longleftrightarrow> http_response_read_body H request 1024 w = (Some [], w')"
| "delivers H request w (c # cs) w' \<longleftrightarrow> c \<noteq> [] \<and> length c \<le> 1024 \<and>
     (\<exists>w1. http_response_read_body H request 1024 w = (Some c, w1) \<and> delivers H request w1 cs w')"

lemma read_response_delivers:
  "delivers H request w cs w' \<Longrightarrow> read_response H request acc w = Some (Value (acc @ concat cs), w')"
  by (induction cs arbitrary: acc w) (auto simp: read_response.simps)

text \<open>A host whose responses are finite: what is left to read shrinks with every piece.\<close>

definition finite_responses :: "('w, 'z) http_host_scheme \<Rightarrow> ('w \<Rightarrow> nat) \<Rightarrow> bool" where
  "finite_responses H left \<longleftrightarrow> (\<forall>request w c w'.
     http_response_read_body H request 1024 w = (Some c, w') \<longrightarrow> c \<noteq> [] \<longrightarrow> left w' < left w)"

lemma read_response_total:
  assumes "finite_responses H left"
  shows "\<exists>r w'. read_response H request acc w = Some (r, w') \<and>
    (\<forall>b. r = Value b \<longrightarrow> (\<exists>cs. delivers H request w cs w' \<and> b = acc @ concat cs))"
proof (induction "left w" arbitrary: w acc rule: less_induct)
  case less
  obtain r1 w1 where read: "http_response_read_body H request 1024 w = (r1, w1)" by fastforce
  consider "r1 = None" | "r1 = Some []" | c where "r1 = Some c" "c \<noteq> []" "length c > 1024"
    | c where "r1 = Some c" "c \<noteq> []" "length c \<le> 1024"
    by (cases r1) fastforce+
  then show ?case
  proof cases
    case (2)
    then have "delivers H request w [] w1" using read by simp
    then show ?thesis using read 2 by (auto simp: read_response.simps intro: exI [of _ "[]"])
  next
    case (4 c)
    then have "left w1 < left w" using assms read by (simp add: finite_responses_def)
    from less [OF this, of "acc @ c"] obtain r w' where
      r: "read_response H request (acc @ c) w1 = Some (r, w')"
      and d: "\<forall>b. r = Value b \<longrightarrow> (\<exists>cs. delivers H request w1 cs w' \<and> b = (acc @ c) @ concat cs)" by blast
    have "\<exists>cs. delivers H request w cs w' \<and> b = acc @ concat cs" if "r = Value b" for b
    proof -
      from d that obtain cs where "delivers H request w1 cs w'" "b = (acc @ c) @ concat cs" by blast
      then show ?thesis using 4 read by (intro exI [of _ "c # cs"]) simp
    qed
    then show ?thesis using r 4 read by (simp add: read_response.simps [of _ _ acc])
  qed (use read in \<open>simp_all add: read_response.simps\<close>)
qed

lemma http_json_post_total:
  assumes "finite_responses H left"
  obtains r w' where "http_json_post H url body w = Some (r, w')"
    and "\<And>b. r = Value b \<Longrightarrow> \<exists>request v w1 st cs. http_response_wait H [request] v = (Finished 200 # st, w1) \<and>
           delivers H request w1 cs w' \<and> b = concat cs"
proof -
  have "\<exists>r w'. http_json_post H url body w = Some (r, w') \<and>
    (\<forall>b. r = Value b \<longrightarrow> (\<exists>request v w1 st cs. http_response_wait H [request] v = (Finished 200 # st, w1) \<and>
           delivers H request w1 cs w' \<and> b = concat cs))"
    using read_response_total [OF assms, of _ "[]"]
    by (simp add: http_json_post_def split: prod.split option.split bool.split list.split http_status.split) blast
  then show ?thesis using that by blast
qed

end
