(* ===== verification/Accounts_Sync.thy ===== *)
theory Accounts_Sync
  imports Http_Client Accounts
begin

text \<open>
  The off-chain worker of \<open>pallets/accounts/src/lib.rs\<close>: after every block it asks an
  Ethereum node for the \<open>Lock\<close> and \<open>Unlock\<close> events of the FRAG contract since the last
  time, and submits an unsigned \<open>internal_lock_update\<close> for each of them. JSON text, the ABI
  decoder and the submission of transactions are parameters.
\<close>

section \<open>The node's side\<close>

definition LOCK_EVENT :: bytes where
  "LOCK_EVENT = ascii ''0x83a932dce34e6748d366fededbe6d22c5c1272c439426f8620148e8215160b3f''"

definition UNLOCK_EVENT :: bytes where
  "UNLOCK_EVENT = ascii ''0xf9480f9ead9b82690f56cdb4730f12763ca2f50ce1792a255141b71789dca7fe''"

text \<open>Tokens of \<open>ethabi\<close>: the two kinds the events use, and the rest.\<close>

datatype abi_token = Token_Bytes bytes | Token_Uint u256 | Token_Other

text \<open>
  The environment: the host's HTTP, JSON text both ways, \<open>hex::decode\<close>, \<open>ethabi::decode\<close> for
  the parameters \<open>(bytes, uint256)\<close>, and \<open>Signer::any_account().send_unsigned_transaction\<close>,
  which is given the payload for every account: \<open>None\<close> without an account, \<open>Some None\<close> when
  sending fails, and otherwise what was sent.
\<close>

record 'w sync_ext = "'w http_host" +
  json_to_string :: "json \<Rightarrow> bytes option"
  json_from_str :: "bytes \<Rightarrow> json option"
  sync_hex_decode :: "bytes \<Rightarrow> bytes option"
  abi_decode_lock :: "bytes \<Rightarrow> abi_token list option"
  send_unsigned_lock :: "'w \<Rightarrow> (multi_signer \<Rightarrow> eth_lock_update) \<Rightarrow> (eth_lock_update \<times> bytes) option option"

text \<open>
  The state of the worker: the world outside, the URL of the Ethereum node (\<open>GETH_URL\<close> of
  \<open>primitives/clamor\<close>), the local database entry \<open>frag_sync_last_block\<close>, and the
  transactions submitted so far.
\<close>

record 'w sync_world =
  outside :: 'w
  GETH_URL :: "bytes option"
  frag_sync_last_block :: "bytes option"
  submitted_locks :: "(eth_lock_update \<times> bytes) list"

definition clamor_init :: "bytes option \<Rightarrow> ('w, 'v) sync_world_scheme \<Rightarrow> ('w, 'v) sync_world_scheme" where
  "clamor_init geth_url w = (case geth_url of None \<Rightarrow> w | Some url \<Rightarrow> w\<lparr>GETH_URL := Some url\<rparr>)"

definition get_geth_url :: "('w, 'v) sync_world_scheme \<Rightarrow> bytes option" where
  "get_geth_url w = GETH_URL w"

section \<open>Reading JSON\<close>

text \<open>\<open>v["key"]\<close>, \<open>as_str\<close> and \<open>as_array\<close>: what is missing is \<open>Null\<close>.\<close>

definition json_get :: "json \<Rightarrow> bytes \<Rightarrow> json" where
  "json_get v key = (case v of JObject m \<Rightarrow> (case map_of m key of Some x \<Rightarrow> x | None \<Rightarrow> JNull) | _ \<Rightarrow> JNull)"

definition json_as_str :: "json \<Rightarrow> bytes option" where
  "json_as_str v = (case v of JString s \<Rightarrow> Some s | _ \<Rightarrow> None)"

definition json_as_array :: "json \<Rightarrow> json list option" where
  "json_as_array v = (case v of JArray vs \<Rightarrow> Some vs | _ \<Rightarrow> None)"

text \<open>The number in a field like \<open>"0x1f"\<close>: \<open>u64::from_str_radix(&s[2..], 16)\<close>.\<close>

definition hex_field :: "bytes \<Rightarrow> bytes \<Rightarrow> u64 run" where
  "hex_field e s =
     (case str_from 2 s of None \<Rightarrow> Crash
      | Some digits \<Rightarrow> (case u64_from_hex digits of None \<Rightarrow> Error e | Some n \<Rightarrow> Value n))"

text \<open>The bytes in a field like \<open>"0xab"\<close>: \<open>hex::decode(&s[2..])\<close>.\<close>

definition bytes_field :: "('w, 'z) sync_ext_scheme \<Rightarrow> bytes \<Rightarrow> bytes \<Rightarrow> bytes run" where
  "bytes_field W e s =
     (case str_from 2 s of None \<Rightarrow> Crash
      | Some digits \<Rightarrow> (case sync_hex_decode W digits of None \<Rightarrow> Error e | Some b \<Rightarrow> Value b))"

section \<open>Requests\<close>

text \<open>One JSON-RPC call of the Ethereum node: request text, POST, UTF-8, JSON.\<close>

definition geth_request :: "('w, 'z) sync_ext_scheme \<Rightarrow> bytes \<Rightarrow> json \<Rightarrow> 'w \<Rightarrow> (json run \<times> 'w) option" where
  "geth_request W geth_uri req w =
     (case json_to_string W req of None \<Rightarrow> Some (Error (ascii ''Invalid request''), w)
      | Some req \<Rightarrow>
     (case http_json_post W geth_uri req w of
        None \<Rightarrow> None
      | Some (Crash, w) \<Rightarrow> Some (Crash, w)
      | Some (Error _, w) \<Rightarrow> Some (Error (ascii ''Failed to get response from geth''), w)
      | Some (Value response, w) \<Rightarrow>
          (if \<not> utf8 response then Some (Error (ascii ''Invalid response''), w)
           else case json_from_str W response of
             None \<Rightarrow> Some (Error (ascii ''Invalid response - json parse''), w)
           | Some v \<Rightarrow> Some (Value v, w))))"

definition block_number_request :: json where
  "block_number_request = JObject (btree_insert (ascii ''jsonrpc'') (JString (ascii ''2.0''))
     (btree_insert (ascii ''method'') (JString (ascii ''eth_blockNumber''))
     (btree_insert (ascii ''id'') (JNumber 1) [])))"

definition logs_request :: "bytes \<Rightarrow> bytes \<Rightarrow> bytes \<Rightarrow> json" where
  "logs_request last_block to_block contract = JObject
     (btree_insert (ascii ''jsonrpc'') (JString (ascii ''2.0''))
     (btree_insert (ascii ''method'') (JString (ascii ''eth_getLogs''))
     (btree_insert (ascii ''id'') (JString (ascii ''0''))
     (btree_insert (ascii ''params'') (JArray [JObject
        (btree_insert (ascii ''fromBlock'') (JString last_block)
        (btree_insert (ascii ''toBlock'') (JString to_block)
        (btree_insert (ascii ''address'') (JString contract)
        (btree_insert (ascii ''topics'') (JArray [JArray [JString LOCK_EVENT, JString UNLOCK_EVENT]]) []))))]) []))))"

section \<open>One event\<close>

text \<open>
  The fields of an event, in the order the code reads them: block number, whether it is a
  lock, sender, signature and amount.
\<close>

record lock_log =
  log_block_number :: u64
  log_locked :: bool
  log_sender :: h160
  log_signature :: bytes
  log_amount :: u256

definition log_data :: "('w, 'z) sync_ext_scheme \<Rightarrow> json \<Rightarrow> abi_token list run" where
  "log_data W v =
     (case json_as_str (json_get v (ascii ''data'')) of
        None \<Rightarrow> Error (ascii ''Invalid response - no data'')
      | Some s \<Rightarrow>
     (case bytes_field W (ascii ''Invalid response - invalid data'') s of
        Value b \<Rightarrow> (case abi_decode_lock W b of
            None \<Rightarrow> Error (ascii ''Invalid response - invalid eth data'') | Some data \<Rightarrow> Value data)
      | Error e \<Rightarrow> Error e | Crash \<Rightarrow> Crash))"

text \<open>\<open>&sender[12..]\<close> and \<open>H160::from_slice\<close> panic unless there are 32 bytes.\<close>

definition log_sender_of :: "('w, 'z) sync_ext_scheme \<Rightarrow> json list \<Rightarrow> h160 run" where
  "log_sender_of W topics =
     (case topics of
        _ # t # _ \<Rightarrow>
          (case json_as_str t of None \<Rightarrow> Error (ascii ''Invalid response - no sender'')
           | Some s \<Rightarrow>
          (case bytes_field W (ascii ''Invalid response - invalid sender'') s of
             Value b \<Rightarrow> (if length b = 32 then Value (drop 12 b) else Crash)
           | Error e \<Rightarrow> Error e | Crash \<Rightarrow> Crash))
      | _ \<Rightarrow> Crash)"

text \<open>\<open>data[0]\<close> is a signature of 65 bytes and \<open>data[1]\<close> an amount.\<close>

definition log_payload :: "abi_token list \<Rightarrow> (bytes \<times> u256) run" where
  "log_payload data =
     (case data of [] \<Rightarrow> Crash
      | d0 # ds \<Rightarrow>
     (case d0 of
        Token_Bytes sig \<Rightarrow>
          (if length sig \<noteq> 65 then Error (ascii ''Invalid data'')
           else (case ds of [] \<Rightarrow> Crash
                 | Token_Uint amount # _ \<Rightarrow> Value (sig, amount)
                 | _ # _ \<Rightarrow> Error (ascii ''Invalid data'')))
      | _ \<Rightarrow> Error (ascii ''Invalid data'')))"

definition read_log :: "('w, 'z) sync_ext_scheme \<Rightarrow> json \<Rightarrow> lock_log run" where
  "read_log W v =
     (case json_as_str (json_get v (ascii ''blockNumber'')) of
        None \<Rightarrow> Error (ascii ''Invalid response - no block number'')
      | Some s \<Rightarrow>
     (case hex_field (ascii ''Invalid response - invalid block number'') s of
        Error e \<Rightarrow> Error e | Crash \<Rightarrow> Crash
      | Value number \<Rightarrow>
     (case json_as_array (json_get v (ascii ''topics'')) of
        None \<Rightarrow> Error (ascii ''Invalid response - no topics'')
      | Some [] \<Rightarrow> Crash
      | Some (t # ts) \<Rightarrow>
     (case json_as_str t of None \<Rightarrow> Error (ascii ''Invalid response - no topic'')
      | Some topic \<Rightarrow>
     (case log_data W v of
        Error e \<Rightarrow> Error e | Crash \<Rightarrow> Crash
      | Value data \<Rightarrow>
     (if topic \<noteq> LOCK_EVENT \<and> topic \<noteq> UNLOCK_EVENT then Error (ascii ''Invalid topic'')
      else case log_sender_of W (t # ts) of
        Error e \<Rightarrow> Error e | Crash \<Rightarrow> Crash
      | Value sender \<Rightarrow>
     (case log_payload data of
        Error e \<Rightarrow> Error e | Crash \<Rightarrow> Crash
      | Value (eth_signature, amount) \<Rightarrow>
          Value \<lparr>log_block_number = number, log_locked = (topic = LOCK_EVENT), log_sender = sender,
                 log_signature = eth_signature, log_amount = amount\<rparr>)))))))"

definition lock_update :: "lock_log \<Rightarrow> multi_signer \<Rightarrow> eth_lock_update" where
  "lock_update l public = \<lparr>elu_public = public, elu_amount = log_amount l, elu_sender = log_sender l,
     elu_signature = log_signature l, elu_lock = log_locked l, elu_block_number = log_block_number l\<rparr>"

definition send_log :: "('w, 'z) sync_ext_scheme \<Rightarrow> lock_log \<Rightarrow> ('w, 'v) sync_world_scheme
    \<Rightarrow> unit run \<times> ('w, 'v) sync_world_scheme" where
  "send_log W l w =
     (case send_unsigned_lock W (outside w) (lock_update l) of
        None \<Rightarrow> (Error (ascii ''Failed to sign transaction''), w)
      | Some None \<Rightarrow> (Error (ascii ''Failed to send transaction''), w)
      | Some (Some transaction) \<Rightarrow> (Value (), w\<lparr>submitted_locks := submitted_locks w @ [transaction]\<rparr>))"

text \<open>The loop over the events: the first one that fails ends it, after the earlier ones were sent.\<close>

fun send_logs :: "('w, 'z) sync_ext_scheme \<Rightarrow> json list \<Rightarrow> ('w, 'v) sync_world_scheme
    \<Rightarrow> unit run \<times> ('w, 'v) sync_world_scheme" where
  "send_logs W [] w = (Value (), w)"
| "send_logs W (v # vs) w =
     (case read_log W v of
        Error e \<Rightarrow> (Error e, w) | Crash \<Rightarrow> (Crash, w)
      | Value l \<Rightarrow> (case send_log W l w of (Value _, w) \<Rightarrow> send_logs W vs w | (r, w) \<Rightarrow> (r, w)))"

section \<open>One contract\<close>

text \<open>The block the last run got to, \<open>"0x0"\<close> at first.\<close>

definition last_block :: "('w, 'v) sync_world_scheme \<Rightarrow> bytes run" where
  "last_block w =
     (case frag_sync_last_block w of None \<Rightarrow> Value (ascii ''0x0'')
      | Some b \<Rightarrow> (if utf8 b then Value b else Error (ascii ''Invalid last block'')))"

text \<open>The last block that counts as final, as text.\<close>

definition to_block :: "('c) config_scheme \<Rightarrow> u64 \<Rightarrow> bytes" where
  "to_block C current_block = ascii ''0x'' @ lower_hex (sat_sub current_block (EthConfirmations C))"

definition sync_partner_contract :: "'c config_scheme \<Rightarrow> ('w, 'z) sync_ext_scheme \<Rightarrow> bytes \<Rightarrow> bytes
    \<Rightarrow> ('w, 'v) sync_world_scheme \<Rightarrow> (unit run \<times> ('w, 'v) sync_world_scheme) option" where
  "sync_partner_contract C W contract geth_uri w =
     (case geth_request W geth_uri block_number_request (outside w) of
        None \<Rightarrow> None
      | Some (Error e, o1) \<Rightarrow> Some (Error e, w\<lparr>outside := o1\<rparr>)
      | Some (Crash, o1) \<Rightarrow> Some (Crash, w\<lparr>outside := o1\<rparr>)
      | Some (Value v, o1) \<Rightarrow>
     (case json_as_str (json_get v (ascii ''result'')) of
        None \<Rightarrow> Some (Error (ascii ''Invalid response - no result''), w\<lparr>outside := o1\<rparr>)
      | Some s \<Rightarrow>
     (case hex_field (ascii ''Invalid response - invalid block number'') s of
        Error e \<Rightarrow> Some (Error e, w\<lparr>outside := o1\<rparr>)
      | Crash \<Rightarrow> Some (Crash, w\<lparr>outside := o1\<rparr>)
      | Value current_block \<Rightarrow>
     (case last_block w of
        Error e \<Rightarrow> Some (Error e, w\<lparr>outside := o1\<rparr>)
      | Crash \<Rightarrow> Some (Crash, w\<lparr>outside := o1\<rparr>)
      | Value from_block \<Rightarrow>
     (case geth_request W geth_uri (logs_request from_block (to_block C current_block) contract) o1 of
        None \<Rightarrow> None
      | Some (Error e, o2) \<Rightarrow> Some (Error e, w\<lparr>outside := o2\<rparr>)
      | Some (Crash, o2) \<Rightarrow> Some (Crash, w\<lparr>outside := o2\<rparr>)
      | Some (Value v, o2) \<Rightarrow>
     (case json_as_array (json_get v (ascii ''result'')) of
        None \<Rightarrow> Some (Error (ascii ''Invalid response - no result''), w\<lparr>outside := o2\<rparr>)
      | Some logs \<Rightarrow>
     (case send_logs W logs (w\<lparr>outside := o2\<rparr>) of
        (Value _, w) \<Rightarrow> Some (Value (), w\<lparr>frag_sync_last_block := Some (to_block C current_block)\<rparr>)
      | (r, w) \<Rightarrow> Some (r, w))))))))"

section \<open>All contracts\<close>

text \<open>Errors are logged and the next contract is tried; a panic ends the worker.\<close>

fun sync_contracts :: "'c config_scheme \<Rightarrow> ('w, 'z) sync_ext_scheme \<Rightarrow> bytes \<Rightarrow> bytes list
    \<Rightarrow> ('w, 'v) sync_world_scheme \<Rightarrow> (unit run \<times> ('w, 'v) sync_world_scheme) option" where
  "sync_contracts C W geth_uri [] w = Some (Value (), w)"
| "sync_contracts C W geth_uri (contract # contracts) w =
     (case sync_partner_contract C W contract geth_uri w of
        None \<Rightarrow> None
      | Some (Crash, w) \<Rightarrow> Some (Crash, w)
      | Some (_, w) \<Rightarrow> sync_contracts C W geth_uri contracts w)"

definition sync_partner_contracts :: "'c config_scheme \<Rightarrow> ('w, 'z) sync_ext_scheme \<Rightarrow> bytes list
    \<Rightarrow> ('w, 'v) sync_world_scheme \<Rightarrow> (unit run \<times> ('w, 'v) sync_world_scheme) option" where
  "sync_partner_contracts C W partner_contracts w =
     (case get_geth_url w of
        None \<Rightarrow> Some (Value (), w)
      | Some geth \<Rightarrow> (if \<not> utf8 geth then Some (Crash, w) else sync_contracts C W geth partner_contracts w))"

definition accounts_offchain_worker :: "'c config_scheme \<Rightarrow> ('w, 'z) sync_ext_scheme \<Rightarrow> bytes list
    \<Rightarrow> ('w, 'v) sync_world_scheme \<Rightarrow> (unit run \<times> ('w, 'v) sync_world_scheme) option" where
  "accounts_offchain_worker C W partner_contracts w = sync_partner_contracts C W partner_contracts w"

section \<open>What a run does\<close>

text \<open>The transactions sent for a list of events, one for each, in their order.\<close>

definition sent :: "('w, 'z) sync_ext_scheme \<Rightarrow> 'w \<Rightarrow> json list \<Rightarrow> (eth_lock_update \<times> bytes) list \<Rightarrow> bool" where
  "sent W host logs txs \<longleftrightarrow> list_all2 (\<lambda>v t. \<exists>l. read_log W v = Value l \<and>
     send_unsigned_lock W host (lock_update l) = Some (Some t)) logs txs"

lemma send_logs_sent:
  "send_logs W vs w = (r, w') \<Longrightarrow> \<exists>n txs. w' = w\<lparr>submitted_locks := submitted_locks w @ txs\<rparr> \<and>
     sent W (outside w) (take n vs) txs \<and> (r = Value () \<longrightarrow> length vs \<le> n)"
proof (induction vs arbitrary: w)
  case Nil
  then show ?case by (auto simp: sent_def intro!: exI [of _ "[]"] exI [of _ 0])
next
  case (Cons v vs)
  show ?case
  proof (cases "\<exists>l t. read_log W v = Value l \<and> send_unsigned_lock W (outside w) (lock_update l) = Some (Some t)")
    case True
    then obtain l t where l: "read_log W v = Value l"
      and t: "send_unsigned_lock W (outside w) (lock_update l) = Some (Some t)" by blast
    have "send_logs W vs (w\<lparr>submitted_locks := submitted_locks w @ [t]\<rparr>) = (r, w')"
      using Cons.prems l t by (simp add: send_log_def)
    from Cons.IH [OF this] obtain n txs where
      w': "w' = w\<lparr>submitted_locks := submitted_locks w @ t # txs\<rparr>"
      and s: "sent W (outside w) (take n vs) txs" and r: "r = Value () \<longrightarrow> length vs \<le> n" by auto
    show ?thesis
      using w' s r l t by (intro exI [of _ "Suc n"] exI [of _ "t # txs"]) (auto simp: sent_def)
  next
    case False
    then have "r \<noteq> Value () \<and> w' = w"
      using Cons.prems by (auto simp: send_log_def split: run.splits option.splits)
    then show ?thesis by (auto simp: sent_def intro!: exI [of _ 0] exI [of _ "[]"])
  qed
qed

text \<open>
  A successful run asked for the events from the recorded block to \<open>b\<close>, and sent one
  transaction for each event of the answer.
\<close>

definition synced :: "'c config_scheme \<Rightarrow> ('w, 'z) sync_ext_scheme \<Rightarrow> bytes \<Rightarrow> bytes \<Rightarrow> bytes \<Rightarrow> bytes
    \<Rightarrow> (eth_lock_update \<times> bytes) list \<Rightarrow> bool" where
  "synced C W contract uri from_block b txs \<longleftrightarrow> (\<exists>current v logs host host'.
     b = to_block C current \<and>
     geth_request W uri (logs_request from_block b contract) host = Some (Value v, host') \<and>
     json_as_array (json_get v (ascii ''result'')) = Some logs \<and> sent W host' logs txs)"

lemma utf8_lower_hex: "c \<in> set (lower_hex w) \<Longrightarrow> c \<le> 0x7F"
proof -
  have "c \<in> set (lower_hex_nat m) \<Longrightarrow> c \<le> 0x7F" for m
  proof (induction m rule: lower_hex_nat.induct)
    case (1 m)
    have "hex_digit d \<le> 0x7F" if "d < 16" for d
      using to_digit16_hex_digit [OF that] by (auto simp: to_digit16_def word_le_nat_alt split: if_splits)
    then show ?case using 1 unfolding lower_hex_nat.simps [of m] by (auto split: if_splits)
  qed
  then show "c \<in> set (lower_hex w) \<Longrightarrow> c \<le> 0x7F" by (simp add: lower_hex_def)
qed

lemma utf8_to_block: "utf8 (to_block C n)"
  by (rule utf8_ascii) (auto simp: to_block_def ascii_def utf8_lower_hex)

lemma sync_partner_contract_cases:
  assumes "sync_partner_contract C W contract uri w = Some (r, w')"
  obtains (failed) txs where "r \<noteq> Value ()" and "submitted_locks w' = submitted_locks w @ txs"
      and "frag_sync_last_block w' = frag_sync_last_block w" and "GETH_URL w' = GETH_URL w"
  | (synced) from_block b txs where "r = Value ()" and "last_block w = Value from_block"
      and "synced C W contract uri from_block b txs" and "submitted_locks w' = submitted_locks w @ txs"
      and "frag_sync_last_block w' = Some b" and "GETH_URL w' = GETH_URL w" and "last_block w' = Value b"
proof -
  show ?thesis
  proof (cases "\<exists>v1 o1 s current from_block v o2 logs.
      geth_request W uri block_number_request (outside w) = Some (Value v1, o1) \<and>
      json_as_str (json_get v1 (ascii ''result'')) = Some s \<and>
      hex_field (ascii ''Invalid response - invalid block number'') s = Value current \<and>
      last_block w = Value from_block \<and>
      geth_request W uri (logs_request from_block (to_block C current) contract) o1 = Some (Value v, o2) \<and>
      json_as_array (json_get v (ascii ''result'')) = Some logs")
    case False
    then have "r \<noteq> Value () \<and> (\<exists>o'. w' = w\<lparr>outside := o'\<rparr>)"
      using assms by (auto simp: sync_partner_contract_def split: option.splits run.splits prod.splits)
    then show ?thesis by (intro failed [of "[]"]) auto
  next
    case True
    then obtain v1 o1 s current from_block v o2 logs where
      g: "geth_request W uri block_number_request (outside w) = Some (Value v1, o1)"
        "json_as_str (json_get v1 (ascii ''result'')) = Some s"
        "hex_field (ascii ''Invalid response - invalid block number'') s = Value current"
        "last_block w = Value from_block"
      and req: "geth_request W uri (logs_request from_block (to_block C current) contract) o1 = Some (Value v, o2)"
        "json_as_array (json_get v (ascii ''result'')) = Some logs" by blast
    obtain r1 w1 where send: "send_logs W logs (w\<lparr>outside := o2\<rparr>) = (r1, w1)" by fastforce
    from send_logs_sent [OF send] obtain n txs where
      w1: "w1 = w\<lparr>outside := o2, submitted_locks := submitted_locks w @ txs\<rparr>"
      and s: "sent W o2 (take n logs) txs" "r1 = Value () \<longrightarrow> length logs \<le> n" by auto
    have out: "r = r1 \<and> w' = (if r1 = Value () then w1\<lparr>frag_sync_last_block := Some (to_block C current)\<rparr> else w1)"
      using assms g req send by (auto simp: sync_partner_contract_def split: run.splits)
    show ?thesis
    proof (cases "r1 = Value ()")
      case True
      have "synced C W contract uri from_block (to_block C current) txs"
        unfolding synced_def using req s True by auto
      then show ?thesis using True out w1 g(4) by (intro synced) (auto simp: last_block_def utf8_to_block)
    next
      case False
      then show ?thesis using out w1 by (intro failed) auto
    qed
  qed
qed

section \<open>Termination\<close>

lemma geth_request_total:
  assumes "finite_responses W left" shows "\<exists>r w'. geth_request W uri req w = Some (r, w')"
proof (cases "json_to_string W req")
  case (Some body)
  from http_json_post_total [OF assms, of uri body w] obtain r w' where "http_json_post W uri body w = Some (r, w')"
    by blast
  then show ?thesis using Some by (cases r) (auto simp: geth_request_def split: option.split)
qed (simp add: geth_request_def)

lemma sync_partner_contract_total:
  assumes "finite_responses W left" shows "\<exists>r w'. sync_partner_contract C W contract uri w = Some (r, w')"
proof -
  define g where "g req h = the (geth_request W uri req h)" for req h
  have geth: "geth_request W uri req h = Some (g req h)" for req h
    using geth_request_total [OF assms, of uri req h] by (auto simp: g_def)
  show ?thesis
    by (simp add: sync_partner_contract_def geth split: option.split run.split prod.split)
qed

lemma sync_contracts_total:
  assumes "finite_responses W left" shows "\<exists>r w'. sync_contracts C W uri contracts w = Some (r, w')"
proof (induction contracts arbitrary: w)
  case (Cons c cs)
  obtain r w' where "sync_partner_contract C W c uri w = Some (r, w')"
    using sync_partner_contract_total [OF assms] by blast
  then show ?case using Cons [of w'] by (cases r) auto
qed simp

section \<open>What a run submits\<close>

text \<open>An event in an answer of the Ethereum node for one of the contracts.\<close>

definition answered :: "('w, 'z) sync_ext_scheme \<Rightarrow> bytes list \<Rightarrow> lock_log \<Rightarrow> bool" where
  "answered W contracts l \<longleftrightarrow> (\<exists>contract \<in> set contracts. \<exists>uri from_block until host host' v logs event.
     geth_request W uri (logs_request from_block until contract) host = Some (Value v, host') \<and>
     json_as_array (json_get v (ascii ''result'')) = Some logs \<and> event \<in> set logs \<and> read_log W event = Value l)"

lemma sent_in: "sent W host logs txs \<Longrightarrow> t \<in> set txs \<Longrightarrow>
  \<exists>event \<in> set logs. \<exists>l. read_log W event = Value l \<and> send_unsigned_lock W host (lock_update l) = Some (Some t)"
  unfolding sent_def by (induction rule: list_all2_induct) auto

lemma sync_partner_contract_submitted:
  assumes "sync_partner_contract C W contract uri w = Some (r, w')" and "contract \<in> set contracts"
    and "t \<in> set (submitted_locks w')"
  shows "t \<in> set (submitted_locks w) \<or> (\<exists>l host. answered W contracts l \<and>
    send_unsigned_lock W host (lock_update l) = Some (Some t))"
proof -
  let ?sent = "\<lambda>u. t \<in> set (submitted_locks u) \<longrightarrow> t \<in> set (submitted_locks w) \<or>
    (\<exists>l host. answered W contracts l \<and> send_unsigned_lock W host (lock_update l) = Some (Some t))"
  have "?sent w2" if g: "geth_request W uri (logs_request from_block until contract) host = Some (Value v, o2)"
    and logs: "json_as_array (json_get v (ascii ''result'')) = Some logs"
    and send: "send_logs W logs (w\<lparr>outside := o2\<rparr>) = (r1, w2)" for from_block until host v o2 logs r1 w2
  proof -
    let ?w = "w\<lparr>outside := o2\<rparr>"
    from send_logs_sent [OF send] obtain n txs where "w2 = ?w\<lparr>submitted_locks := submitted_locks ?w @ txs\<rparr>"
      and "sent W (outside ?w) (take n logs) txs" by blast
    then have w2: "submitted_locks w2 = submitted_locks w @ txs" and s: "sent W o2 (take n logs) txs" by simp_all
    have "\<exists>l host. answered W contracts l \<and> send_unsigned_lock W host (lock_update l) = Some (Some t)" if "t \<in> set txs"
    proof -
      from sent_in [OF s that] obtain event l where e: "event \<in> set (take n logs)" "read_log W event = Value l"
        and l: "send_unsigned_lock W o2 (lock_update l) = Some (Some t)" by blast
      have "answered W contracts l"
        unfolding answered_def using g logs e assms(2) by (blast dest: in_set_takeD)
      then show ?thesis using l by blast
    qed
    then show ?thesis using w2 by auto
  qed
  then show ?thesis
    using assms(1,3) by (auto simp: sync_partner_contract_def split: option.splits run.splits prod.splits)
qed

lemma sync_contracts_submitted:
  "sync_contracts C W uri cs w = Some (r, w') \<Longrightarrow> set cs \<subseteq> set contracts \<Longrightarrow> t \<in> set (submitted_locks w') \<Longrightarrow>
    t \<in> set (submitted_locks w) \<or> (\<exists>l host. answered W contracts l \<and>
      send_unsigned_lock W host (lock_update l) = Some (Some t))"
proof (induction cs arbitrary: w)
  case (Cons c cs)
  then obtain r1 w1 where one: "sync_partner_contract C W c uri w = Some (r1, w1)"
    by (auto split: option.splits)
  have rest: "t \<in> set (submitted_locks w1) \<or> (\<exists>l host. answered W contracts l \<and>
      send_unsigned_lock W host (lock_update l) = Some (Some t))"
  proof (cases "r1 = Crash")
    case False
    then have "sync_contracts C W uri cs w1 = Some (r, w')" using Cons.prems(1) one by (cases r1) simp_all
    from Cons.IH [OF this] show ?thesis using Cons.prems by simp
  qed (use Cons.prems one in simp)
  then show ?case using sync_partner_contract_submitted [OF one, of contracts t] Cons.prems(2) by auto
qed simp

lemma accounts_offchain_worker_submitted:
  assumes "accounts_offchain_worker C W contracts w = Some (r, w')" and "t \<in> set (submitted_locks w')"
  shows "t \<in> set (submitted_locks w) \<or> (\<exists>l host. answered W contracts l \<and>
      send_unsigned_lock W host (lock_update l) = Some (Some t))"
  using assms sync_contracts_submitted [of C W _ contracts w r w' contracts t]
  by (auto simp: accounts_offchain_worker_def sync_partner_contracts_def split: option.splits if_splits)

end
