(* ===== verification/Node_Service.thy ===== *)
theory Node_Service
  imports Chain_Spec Accounts_Sync
begin

text \<open>
  The node from its command line to the running service: the choice of a chain specification
  (\<open>node/src/command.rs\<close>) and the steps in which \<open>node/src/service.rs\<close> starts a node. The
  components of Substrate that it puts together are parameters that may fail.
\<close>

section \<open>Starting a service\<close>

datatype 'a startup = Started 'a | Refused bytes | Startup_Panic

datatype service_step =
    Telemetry_Worker | Full_Parts | Grandpa_Block_Import | Aura_Slot_Duration | Aura_Import_Queue
  | Build_Network | Spawn_Tasks | Start_Aura | Run_Grandpa_Voter

datatype service_task = Offchain_Workers | Rpc_And_Pool | Aura_Authoring | Grandpa_Voter

text \<open>
  What the configuration of \<open>sc_service\<close> says, and the outside: the error of a step if it fails,
  the keystore of the new parts, whether the client knows the genesis block, and the keystore's
  \<open>insert_unknown\<close>.
\<close>

record configuration =
  keystore_remote :: "bytes option"
  telemetry_endpoints :: "bytes list option"
  role_is_authority :: bool
  offchain_worker_enabled :: bool
  disable_grandpa :: bool
  conf_chain_spec :: chain_spec

record 'k service_ext =
  step_error :: "service_step \<Rightarrow> bytes option"
  local_keystore :: 'k
  genesis_block_known :: bool
  insert_unknown :: "'k \<Rightarrow> bytes \<Rightarrow> bytes \<Rightarrow> bytes \<Rightarrow> 'k option"

record ('k, 'w) node =
  node_keystore :: 'k
  node_world :: "'w sync_world"
  node_tasks :: "service_task list"

fun steps :: "('k, 'v) service_ext_scheme \<Rightarrow> service_step list \<Rightarrow> 'a startup \<Rightarrow> 'a startup" where
  "steps V [] r = r"
| "steps V (x # xs) r = (case step_error V x of Some e \<Rightarrow> Refused e | None \<Rightarrow> steps V xs r)"

definition new_partial :: "('k, 'v) service_ext_scheme \<Rightarrow> configuration \<Rightarrow> 'k startup" where
  "new_partial V config =
     (if keystore_remote config \<noteq> None then Refused (ascii ''Remote Keystores are not supported.'')
      else
        (let telemetry = (case telemetry_endpoints config of None \<Rightarrow> [] | Some xs \<Rightarrow> if xs = [] then [] else [Telemetry_Worker])
         in steps V (telemetry @ [Full_Parts, Grandpa_Block_Import, Aura_Slot_Duration, Aura_Import_Queue])
              (Started (local_keystore V))))"

definition remote_keystore :: "bytes \<Rightarrow> string + 'k" where
  "remote_keystore url = Inl ''Remote Keystore not supported.''"

text \<open>The test key of a development authority: Bob's, for the workers of both pallets.\<close>

definition FRAG_KEY_TYPE :: bytes where "FRAG_KEY_TYPE = ascii ''frag''"

definition bobs :: bytes where
  "bobs = be_bytes 32 (0xd17c2d7823ebf260fd138f2d7e27d114c0145d968b5ff5006125f2414fadae69 :: u256)"

text \<open>\<open>expect\<close> panics when the key cannot be stored.\<close>

definition add_test_keys :: "('k, 'v) service_ext_scheme \<Rightarrow> configuration \<Rightarrow> 'k \<Rightarrow> 'k option" where
  "add_test_keys V config store =
     (if spec_type (conf_chain_spec config) = Development \<and> role_is_authority config
      then insert_unknown V store FRAG_KEY_TYPE (ascii ''//Bob'') bobs
      else Some store)"

text \<open>The steps and tasks of an authority, and those of the finality voter.\<close>

definition authoring :: "configuration \<Rightarrow> service_step list \<times> service_task list" where
  "authoring config =
     (if role_is_authority config then ([Aura_Slot_Duration, Start_Aura], [Aura_Authoring]) else ([], []))"

definition finality :: "configuration \<Rightarrow> service_step list \<times> service_task list" where
  "finality config =
     (let enable_grandpa = \<not> disable_grandpa config
      in if enable_grandpa then ([Run_Grandpa_Voter], [Grandpa_Voter]) else ([], []))"

definition new_full :: "('k, 'v) service_ext_scheme \<Rightarrow> configuration \<Rightarrow> bytes option \<Rightarrow> 'w sync_world
    \<Rightarrow> ('k, 'w) node startup" where
  "new_full V config geth_url world =
     (case new_partial V config of
        Refused e \<Rightarrow> Refused e
      | Startup_Panic \<Rightarrow> Startup_Panic
      | Started container \<Rightarrow>
     (case (case keystore_remote config of None \<Rightarrow> Inr container | Some url \<Rightarrow> remote_keystore url) of
        Inl e \<Rightarrow> Refused (ascii ''Error hooking up remote keystore for '' @ the (keystore_remote config)
                   @ ascii '': '' @ ascii e)
      | Inr store \<Rightarrow>
     (if \<not> genesis_block_known V then Startup_Panic
      else steps V ([Build_Network, Spawn_Tasks] @ fst (authoring config) @ fst (finality config))
       (let tasks = (if offchain_worker_enabled config then [Offchain_Workers] else []) @ [Rpc_And_Pool]
              @ snd (authoring config) @ snd (finality config);
            world' = clamor_init geth_url world
        in case add_test_keys V config store of
             None \<Rightarrow> Startup_Panic
           | Some store' \<Rightarrow> Started \<lparr>node_keystore = store', node_world = world', node_tasks = tasks\<rparr>))))"

section \<open>The command line\<close>

text \<open>
  \<open>load_spec\<close>: the three built-in specifications, and a JSON file for any other name; reading
  the file is a parameter.
\<close>

definition load_spec :: "('b, 'y) ext_scheme \<Rightarrow> ('q, 'v) crypto_scheme \<Rightarrow> (string \<Rightarrow> string + chain_spec)
    \<Rightarrow> bytes option \<Rightarrow> string \<Rightarrow> string + chain_spec" where
  "load_spec E K from_json_file wasm_binary chain =
     (if chain = ''dev'' then development_config E K wasm_binary
      else if chain = '''' \<or> chain = ''local'' then local_testnet_config E K wasm_binary
      else if chain = ''live'' then live_config wasm_binary
      else from_json_file chain)"

text \<open>
  The command without a subcommand: \<open>create_runner\<close> of \<open>sc_cli\<close> makes the configuration for the
  chain that the command line names, a parameter here, and the node is started with it.
\<close>

definition run_node :: "('b, 'y) ext_scheme \<Rightarrow> ('q, 'v) crypto_scheme \<Rightarrow> ('k, 'u) service_ext_scheme
    \<Rightarrow> (string \<Rightarrow> string + chain_spec) \<Rightarrow> bytes option \<Rightarrow> (chain_spec \<Rightarrow> configuration) \<Rightarrow> string
    \<Rightarrow> bytes option \<Rightarrow> 'w sync_world \<Rightarrow> ('k, 'w) node startup" where
  "run_node E K V from_json_file wasm_binary create_runner chain geth_url world =
     (case load_spec E K from_json_file wasm_binary chain of
        Inl e \<Rightarrow> Refused (ascii e)
      | Inr spec \<Rightarrow> new_full V (create_runner spec) geth_url world)"

text \<open>
  \<open>run\<close>: the subcommands, whose work is Substrate's and a parameter (the error of the command if
  it fails). All but \<open>key\<close> need a configuration, and those that work on the chain's data build the
  parts of a node first. A node that runs is the result \<open>Some\<close> node, a finished command \<open>None\<close>.
\<close>

datatype benchmark_cmd = Bench_Pallet | Bench_Block | Bench_Storage | Bench_Overhead | Bench_Machine

datatype subcommand =
    Key | BuildSpec | CheckBlock | ExportBlocks | ExportState | ImportBlocks | PurgeChain | Revert
  | Benchmark benchmark_cmd

record command_ext =
  key_run :: "bytes option"
  cmd_run :: "subcommand \<Rightarrow> configuration \<Rightarrow> bytes option"
  runtime_benchmarks :: bool

fun finished :: "bytes option \<Rightarrow> 'a option startup" where
  "finished None = Started None"
| "finished (Some e) = Refused e"

definition with_parts :: "('k, 'v) service_ext_scheme \<Rightarrow> configuration \<Rightarrow> 'a startup \<Rightarrow> 'a startup" where
  "with_parts V config r =
     (case new_partial V config of Refused e \<Rightarrow> Refused e | Startup_Panic \<Rightarrow> Startup_Panic | Started _ \<Rightarrow> r)"

fun run_benchmark :: "'r command_ext_scheme \<Rightarrow> ('k, 'v) service_ext_scheme \<Rightarrow> benchmark_cmd \<Rightarrow> configuration
    \<Rightarrow> 'a option startup" where
  "run_benchmark X V Bench_Pallet config =
     (if \<not> runtime_benchmarks X
      then Refused (ascii ''Runtime benchmarking wasn't enabled when building the node. You can enable it with `--features runtime-benchmarks`.'')
      else finished (cmd_run X (Benchmark Bench_Pallet) config))"
| "run_benchmark X V Bench_Overhead config = Startup_Panic"
| "run_benchmark X V Bench_Machine config = finished (cmd_run X (Benchmark Bench_Machine) config)"
| "run_benchmark X V cmd config = with_parts V config (finished (cmd_run X (Benchmark cmd) config))"

fun run_command :: "'r command_ext_scheme \<Rightarrow> ('k, 'v) service_ext_scheme \<Rightarrow> subcommand \<Rightarrow> configuration
    \<Rightarrow> 'a option startup" where
  "run_command X V (Benchmark cmd) config = run_benchmark X V cmd config"
| "run_command X V BuildSpec config = finished (cmd_run X BuildSpec config)"
| "run_command X V PurgeChain config = finished (cmd_run X PurgeChain config)"
| "run_command X V cmd config = with_parts V config (finished (cmd_run X cmd config))"

definition run :: "('b, 'y) ext_scheme \<Rightarrow> ('q, 'v) crypto_scheme \<Rightarrow> 'r command_ext_scheme \<Rightarrow> ('k, 'u) service_ext_scheme
    \<Rightarrow> (string \<Rightarrow> string + chain_spec) \<Rightarrow> bytes option \<Rightarrow> (chain_spec \<Rightarrow> configuration) \<Rightarrow> string
    \<Rightarrow> subcommand option \<Rightarrow> bytes option \<Rightarrow> 'w sync_world \<Rightarrow> ('k, 'w) node option startup" where
  "run E K X V from_json_file wasm_binary create_runner chain subcommand geth_url world =
     (case subcommand of
        Some Key \<Rightarrow> finished (key_run X)
      | Some cmd \<Rightarrow>
         (case load_spec E K from_json_file wasm_binary chain of
            Inl e \<Rightarrow> Refused (ascii e)
          | Inr spec \<Rightarrow> run_command X V cmd (create_runner spec))
      | None \<Rightarrow> map_startup Some (run_node E K V from_json_file wasm_binary create_runner chain geth_url world))"

section \<open>Lemmas\<close>

lemma steps_Started [simp]: "steps V xs r = Started x \<longleftrightarrow> (\<forall>y \<in> set xs. step_error V y = None) \<and> r = Started x"
  by (induction xs) (auto split: option.split)

lemma new_partial_Started: "new_partial V config = Started k \<Longrightarrow> keystore_remote config = None \<and> k = local_keystore V"
  by (auto simp: new_partial_def Let_def split: if_splits)

lemma new_full_Started:
  assumes "new_full V config geth_url world = Started n"
  shows "keystore_remote config = None" and "genesis_block_known V"
    and "add_test_keys V config (local_keystore V) = Some (node_keystore n)"
    and "node_world n = clamor_init geth_url world"
    and "set (node_tasks n) = {Rpc_And_Pool} \<union> (if offchain_worker_enabled config then {Offchain_Workers} else {}) \<union>
      (if role_is_authority config then {Aura_Authoring} else {}) \<union> (if disable_grandpa config then {} else {Grandpa_Voter})"
proof -
  obtain k where k: "new_partial V config = Started k" using assms by (auto simp: new_full_def split: startup.splits)
  note p = new_partial_Started [OF k]
  show "keystore_remote config = None" using p by simp
  show "genesis_block_known V" "add_test_keys V config (local_keystore V) = Some (node_keystore n)"
    "node_world n = clamor_init geth_url world"
    "set (node_tasks n) = {Rpc_And_Pool} \<union> (if offchain_worker_enabled config then {Offchain_Workers} else {}) \<union>
      (if role_is_authority config then {Aura_Authoring} else {}) \<union> (if disable_grandpa config then {} else {Grandpa_Voter})"
    using assms k p by (auto simp: new_full_def authoring_def finality_def Let_def split: if_splits option.splits)
qed

text \<open>
  A command that works on the chain's data finishes only where a node could be built, and no
  command but the missing one leaves a running node.
\<close>

lemma with_parts_Started: "with_parts V config r = Started x \<Longrightarrow> keystore_remote config = None \<and> r = Started x"
  using new_partial_Started by (fastforce simp: with_parts_def split: startup.splits)

lemma finished_Started [simp]: "finished e = Started x \<longleftrightarrow> e = None \<and> x = None"
  by (cases e) auto

lemma run_command_Started:
  assumes "run_command X V cmd config = Started x"
  shows "x = None \<and> cmd_run X cmd config = None \<and> cmd \<noteq> Benchmark Bench_Overhead \<and>
    (keystore_remote config = None \<or> cmd \<in> {BuildSpec, PurgeChain, Benchmark Bench_Pallet, Benchmark Bench_Machine})"
proof (cases cmd)
  case (Benchmark b)
  with assms show ?thesis by (cases b) (auto dest: with_parts_Started split: if_splits)
qed (use assms in \<open>auto dest: with_parts_Started\<close>)

lemma run_running:
  assumes "run E K X V from_json_file wasm_binary runner chain subcommand geth_url world = Started (Some n)"
  shows "subcommand = None \<and> run_node E K V from_json_file wasm_binary runner chain geth_url world = Started n"
proof (cases subcommand)
  case None
  with assms show ?thesis by (cases "run_node E K V from_json_file wasm_binary runner chain geth_url world") (auto simp: run_def)
next
  case (Some cmd)
  have "run_command X V cmd config \<noteq> Started (Some n)" for config using run_command_Started by blast
  with assms Some show ?thesis by (auto simp: run_def simp del: run_command.simps split: subcommand.splits sum.splits)
qed

end
