(* ===== verification/Runtime_History.thy ===== *)
theory Runtime_History
  imports Runtime_Invariant
begin

text \<open>
  What one extrinsic can change, by the call and the origin; what the chain never undoes; and
  the way of a detach request to the node's database.
\<close>

section \<open>What an extrinsic changes\<close>

lemma validated:
  "runtime_validate_unsigned E source call s \<longleftrightarrow> source \<noteq> External \<and>
    ((\<exists>d sig key. call = Detach_Call (Internal_finalize_detach d sig) \<and>
       decode_multi_signer E (encode_public E (det_public d)) = Some (Ed25519 key) \<and>
       key \<in> detach_FragKeys s \<and> verify_detach E d sig) \<or>
     (\<exists>d sig key. call = Accounts_Call (Internal_lock_update d sig) \<and>
       decode_multi_signer E (encode_public E (elu_public d)) = Some (Ed25519 key) \<and>
       key \<in> accounts_FragKeys s \<and> verify_lock E d sig))"
  by (auto simp: runtime_validate_unsigned_def detach_validate_unsigned_def accounts_validate_unsigned_def
      split: runtime_call.split detach_call.split accounts_call.split option.split multi_signer.split)

lemma detach_dispatch_changes:
  assumes "detach_dispatch og c s = (r, t)"
  obtains (same) "same_detach s t"
  | (root) "og = Root" and "DetachedHashes t = DetachedHashes s" and "DetachNonces t = DetachNonces s"
  | (finalized) d sig where "c = Internal_finalize_detach d sig" and "og = NoOrigin"
      and "dom (DetachedHashes s) \<subseteq> dom (DetachedHashes t)"
      and "EthereumAuthorities t = EthereumAuthorities s" and "detach_FragKeys t = detach_FragKeys s"
  using assms
  by (cases c; cases og) (auto simp: detach_call_defs same_detach_def Let_def subset_insertI)

lemma accounts_dispatch_changes:
  assumes "accounts_dispatch C E og c s = (r, t)"
  shows "EthLockedFrag t \<noteq> EthLockedFrag s \<Longrightarrow> og = NoOrigin \<and> (\<exists>d sig. c = Internal_lock_update d sig \<and>
      recover_address E (elu_signature d) (lock_message_hash C E d) = Some (elu_sender d))"
    and "accounts_FragKeys t \<noteq> accounts_FragKeys s \<Longrightarrow> og = Root"
    and "EVMLinks t a = Some k \<Longrightarrow> EVMLinks s a \<noteq> Some k \<Longrightarrow> \<exists>sig. og = Signed a \<and> c = Link sig \<and>
      recover_address E sig (link_message_hash C E a) = Some k"
proof -
  have count: "EthLockedFrag u = EthLockedFrag s \<and> accounts_FragKeys u = accounts_FragKeys s \<and> EVMLinks u = EVMLinks s"
    if "count_vote n h s = (b, u)" for n h b u
    using that by (auto simp: count_vote_def split: option.splits if_splits)
  have settle: "accounts_FragKeys u' = accounts_FragKeys u \<and> (EVMLinks u' a = Some k \<longrightarrow> EVMLinks u a = Some k)"
    if "settle_lock d h amount u = (r', u')" for d h amount r' u' and u :: "('a, 'b) accounts_state_scheme"
    using that by (auto simp: settle_lock_def apply_lock_def apply_unlock_def unlink_account_def Let_def
        split: option.splits prod.splits outcome.splits if_splits)
  have update: "accounts_FragKeys t = accounts_FragKeys s \<and> (EVMLinks t a = Some k \<longrightarrow> EVMLinks s a = Some k) \<and>
      (EthLockedFrag t \<noteq> EthLockedFrag s \<longrightarrow> og = NoOrigin \<and>
        recover_address E (elu_signature d) (lock_message_hash C E d) = Some (elu_sender d))"
    if "internal_lock_update C E og d sig s = (r, t)" for d sig
  proof -
    have og: "og = NoOrigin" if "t \<noteq> s"
      using that \<open>internal_lock_update C E og d sig s = (r, t)\<close>
      by (cases og) (auto simp: internal_lock_update_def)
    from that show ?thesis
    proof (cases rule: internal_lock_update_cases)
      case counted
      then show ?thesis using count by simp
    next
      case (settled s1)
      then show ?thesis using count [OF settled(1)] settle [OF settled(2)] og by (auto simp: lock_event_valid_def)
    qed simp
  qed
  have other: "EthLockedFrag t = EthLockedFrag s \<and> (accounts_FragKeys t = accounts_FragKeys s \<or> og = Root)"
    if "\<nexists>d sig. c = Internal_lock_update d sig"
  proof (cases c)
    case (Link sig)
    then show ?thesis using assms by (auto simp: link_def split: option.splits if_splits)
  next
    case (Unlink k')
    then show ?thesis using assms by (auto simp: unlink_def unlink_account_def split: option.splits if_splits)
  next
    case (Sponsor_account x)
    then show ?thesis using assms by (auto simp: sponsor_account_def Let_def split: option.splits if_splits)
  next
    case (Accounts_Add_key p)
    then show ?thesis using assms by (cases og) (auto simp: accounts_add_key_def)
  next
    case (Accounts_Del_key p)
    then show ?thesis using assms by (cases og) (auto simp: accounts_del_key_def)
  qed (use that in simp)
  show "EthLockedFrag t \<noteq> EthLockedFrag s \<Longrightarrow> og = NoOrigin \<and> (\<exists>d sig. c = Internal_lock_update d sig \<and>
      recover_address E (elu_signature d) (lock_message_hash C E d) = Some (elu_sender d))"
    using other assms update by (cases c) simp_all
  show "accounts_FragKeys t \<noteq> accounts_FragKeys s \<Longrightarrow> og = Root"
    using other assms by (cases c) (auto dest: update)
  show "EVMLinks t a = Some k \<Longrightarrow> EVMLinks s a \<noteq> Some k \<Longrightarrow> \<exists>sig. og = Signed a \<and> c = Link sig \<and>
      recover_address E sig (link_message_hash C E a) = Some k"
  proof (cases c)
    case (Link sig)
    assume "EVMLinks t a = Some k" "EVMLinks s a \<noteq> Some k"
    then show ?thesis using assms by (auto simp: Link link_def split: option.splits if_splits)
  next
    case (Unlink k')
    assume "EVMLinks t a = Some k" "EVMLinks s a \<noteq> Some k"
    then show ?thesis using assms by (auto simp: Unlink unlink_def unlink_account_def split: option.splits if_splits)
  next
    case (Internal_lock_update d sig)
    assume "EVMLinks t a = Some k" "EVMLinks s a \<noteq> Some k"
    then show ?thesis using assms update [of d sig] by (simp add: Internal_lock_update)
  qed (use assms in \<open>auto simp: accounts_add_key_def accounts_del_key_def sponsor_account_def Let_def
      split: option.splits if_splits\<close>)
qed

text \<open>The unsigned calls that pass the check of the runtime, seen from the two pallets.\<close>

lemma detach_changes_signed:
  assumes "detach_dispatch og c s = (r, u)"
    and valid: "og = NoOrigin \<Longrightarrow> runtime_validate_unsigned E InBlock (Detach_Call c) s"
    and "DetachedHashes u \<noteq> DetachedHashes s \<or> DetachNonces u \<noteq> DetachNonces s"
  shows "og = NoOrigin \<and> (\<exists>d sig key. c = Internal_finalize_detach d sig \<and>
    decode_multi_signer E (encode_public E (det_public d)) = Some (Ed25519 key) \<and>
    key \<in> detach_FragKeys s \<and> verify_detach E d sig)"
  using assms(1)
proof (cases rule: detach_dispatch_changes)
  case (finalized d sig)
  then show ?thesis using valid by (auto simp: validated)
qed (use assms(3) in \<open>simp_all add: same_detach_def\<close>)

lemma detach_changes_root:
  assumes "detach_dispatch og c s = (r, u)"
    and "EthereumAuthorities u \<noteq> EthereumAuthorities s \<or> detach_FragKeys u \<noteq> detach_FragKeys s"
  shows "og = Root"
  using assms(1) by (cases rule: detach_dispatch_changes) (use assms(2) in \<open>simp_all add: same_detach_def\<close>)

lemma locked_changes_signed:
  assumes "accounts_dispatch C E og c s = (r, u)"
    and valid: "og = NoOrigin \<Longrightarrow> runtime_validate_unsigned E InBlock (Accounts_Call c) s"
    and "EthLockedFrag u \<noteq> EthLockedFrag s"
  shows "og = NoOrigin \<and> (\<exists>d sig key. c = Internal_lock_update d sig \<and>
    decode_multi_signer E (encode_public E (elu_public d)) = Some (Ed25519 key) \<and>
    key \<in> accounts_FragKeys s \<and> verify_lock E d sig \<and>
    recover_address E (elu_signature d) (lock_message_hash C E d) = Some (elu_sender d))"
  using accounts_dispatch_changes(1) [OF assms(1,3)] valid by (auto simp: validated)

section \<open>What the chain never undoes\<close>

text \<open>
  From one state to a later one: Proto-Fragments stay and only grow, detached ones do not
  change at all, and what is detached stays detached.
\<close>

definition history_kept :: "('b, 'c, 'p, 'x) fragments_state_scheme
    \<Rightarrow> ('b, 'c, 'p, 'x) fragments_state_scheme \<Rightarrow> bool" where
  "history_kept s t \<longleftrightarrow> dom (DetachedHashes s) \<subseteq> dom (DetachedHashes t) \<and>
     (\<forall>h p. Protos s h = Some p \<longrightarrow> (\<exists>q. Protos t h = Some q \<and> evolves p q \<and> (h \<in> dom (DetachedHashes s) \<longrightarrow> q = p)))"

lemma history_kept_same: "DetachedHashes t = DetachedHashes s \<Longrightarrow> Protos t = Protos s \<Longrightarrow> history_kept s t"
  by (simp add: history_kept_def evolves_refl)

lemma history_kept_trans:
  assumes "history_kept s t" and "history_kept t u" shows "history_kept s u"
  unfolding history_kept_def
proof (intro conjI allI impI)
  show "dom (DetachedHashes s) \<subseteq> dom (DetachedHashes u)" using assms unfolding history_kept_def by blast
  fix h p assume "Protos s h = Some p"
  with assms(1) obtain q where q: "Protos t h = Some q" "evolves p q" "h \<in> dom (DetachedHashes s) \<longrightarrow> q = p"
    unfolding history_kept_def by blast
  with assms(2) obtain r where r: "Protos u h = Some r" "evolves q r" "h \<in> dom (DetachedHashes t) \<longrightarrow> r = q"
    unfolding history_kept_def by blast
  have "h \<in> dom (DetachedHashes s) \<longrightarrow> r = p"
    using q(3) r(3) assms(1) unfolding history_kept_def by blast
  then show "\<exists>q. Protos u h = Some q \<and> evolves p q \<and> (h \<in> dom (DetachedHashes s) \<longrightarrow> q = p)"
    using r(1) evolves_trans [OF q(2) r(2)] by blast
qed

lemma history_kept_dispatch:
  assumes "runtime_dispatch C E og call s = (r, t)" shows "history_kept s t"
  using assms
proof (cases rule: runtime_dispatch_cases)
  case (protos c r')
  have same: "DetachedHashes t = DetachedHashes s"
    using protos_dispatch_frame [OF protos(2)] by (simp add: same_detach_def)
  have "\<exists>q. Protos t h = Some q \<and> evolves p q \<and> (h \<in> dom (DetachedHashes s) \<longrightarrow> q = p)" if "Protos s h = Some p" for h p
    using protos_dispatch_change [OF protos(2) that] evolves_refl [of p] by auto
  then show ?thesis by (simp add: history_kept_def same)
next
  case (fragments c r')
  then show ?thesis using beneath_dispatch [OF fragments(2)]
    by (auto simp: beneath_def same_detach_def same_protos_def intro: history_kept_same)
next
  case (detach c r')
  have "Protos t = Protos s" using detach_dispatch_frame [OF detach(2)] by (simp add: same_protos_def)
  moreover from detach(2) have "dom (DetachedHashes s) \<subseteq> dom (DetachedHashes t)"
    by (cases rule: detach_dispatch_changes) (auto simp: same_detach_def)
  ultimately show ?thesis by (simp add: history_kept_def evolves_refl)
next
  case (accounts c r')
  then show ?thesis using beside_accounts_dispatch [OF accounts(2)]
    by (auto simp: beside_accounts_def same_detach_def same_protos_def intro: history_kept_same)
qed

lemma history_kept_extrinsic: "apply_extrinsic C E tr x s = Some (r, t) \<Longrightarrow> history_kept s t"
  by (erule apply_extrinsic_Some) (auto intro: history_kept_same dest: history_kept_dispatch)

lemma history_kept_foreign: "foreign_change s t \<Longrightarrow> history_kept s t"
  by (rule history_kept_same) (simp_all add: foreign_change_def same_detach_def same_protos_def)

lemma history_kept_in_block: "(in_block C E tr)\<^sup>*\<^sup>* s t \<Longrightarrow> history_kept s t"
  by (induction rule: rtranclp_induct)
    (auto elim!: in_blockE intro: history_kept_same history_kept_trans dest: history_kept_extrinsic history_kept_foreign)

lemma runtime_on_finalize_keeps:
  "Protos (runtime_on_finalize E s) = Protos s" "DetachedHashes (runtime_on_finalize E s) = DetachedHashes s"
  "detach_FragKeys (runtime_on_finalize E s) = detach_FragKeys s"
  "offchain_requests (runtime_on_finalize E s) = (if DetachRequests s = [] then offchain_requests s else Some (DetachRequests s))"
proof -
  let ?s1 = "protos_on_finalize s" let ?s2 = "fragments_on_finalize E (block_number s) ?s1"
  obtain ps as where s1: "?s1 = s\<lparr>PendingUnlinks := [], ProtoStakes := ps, AccountStakes := as\<rparr>"
    using protos_on_finalize_frame by blast
  have s2: "beneath ?s1 ?s2" by simp
  show "Protos (runtime_on_finalize E s) = Protos s" "DetachedHashes (runtime_on_finalize E s) = DetachedHashes s"
    "detach_FragKeys (runtime_on_finalize E s) = detach_FragKeys s"
    "offchain_requests (runtime_on_finalize E s) = (if DetachRequests s = [] then offchain_requests s else Some (DetachRequests s))"
    using s2 detach_on_finalize_same [of ?s2]
    by (simp_all add: runtime_on_finalize_def beneath_def same_detach_def same_protos_def s1,
        simp_all add: detach_on_finalize_def Let_def)
qed

lemma history_kept_end: "history_kept s (runtime_on_finalize E s\<lparr>block_number := n\<rparr>)"
  by (rule history_kept_same) (simp_all add: runtime_on_finalize_keeps)

lemma history_kept_steps: "(chain_step C E tr)\<^sup>*\<^sup>* s t \<Longrightarrow> history_kept s t"
proof (induction rule: rtranclp_induct)
  case (step t u)
  from step(2) have "history_kept t u"
    by cases (auto simp: history_kept_end intro: history_kept_in_block)
  then show ?case using history_kept_trans step.IH by blast
qed (simp add: history_kept_same)

section \<open>Detachments\<close>

lemma in_block_requests: "(in_block C E tr)\<^sup>*\<^sup>* s t \<Longrightarrow> set (DetachRequests s) \<subseteq> set (DetachRequests t)"
proof (induction rule: rtranclp_induct)
  case (step t u)
  from step(2) have "set (DetachRequests t) \<subseteq> set (DetachRequests u)"
  proof cases
    case (extrinsic x r)
    from extrinsic(1) show ?thesis
    proof (cases rule: apply_extrinsic_Some)
      case (1 og call u')
      from 1(2) have "set (DetachRequests t) \<subseteq> set (DetachRequests u')"
      proof (cases rule: runtime_dispatch_cases)
        case (protos c r')
        show ?thesis
        proof (cases "r' = Ok")
          case True
          then show ?thesis
            using protos(2) by (cases c) (auto elim!: upload_Ok patch_Ok transfer_Ok set_metadata_Ok detach_Ok stake_Ok unstake_Ok)
        qed (use protos_dispatch.failure_keeps_state [OF protos(2)] in simp)
      next
        case (fragments c r')
        then show ?thesis using beneath_dispatch [OF fragments(2)] by (simp add: beneath_def)
      next
        case (detach c r')
        then show ?thesis using detach_dispatch_frame [OF detach(2)] by simp
      next
        case (accounts c r')
        then show ?thesis using beside_accounts_dispatch [OF accounts(2)] by (simp add: beside_accounts_def)
      qed
      then show ?thesis by (simp add: 1(5))
    qed
  qed (simp add: foreign_change_def)
  then show ?case using step.IH by blast
qed simp

section \<open>Extrinsics as seen by the off-chain workers\<close>

text \<open>The queue grows only by a \<open>detach\<close> call of the owner of the Proto-Fragment.\<close>

lemma protos_dispatch_requests:
  assumes "protos_dispatch C E og c s = (r, t)"
  obtains (same) "DetachRequests t = DetachRequests s"
  | (requested) who h chain target p where "og = Signed who" and "c = Detach h chain target" and "r = Ok"
      and "Protos s h = Some p" and "proto_owned_by p = User who"
      and "DetachRequests t = DetachRequests s @ [\<lparr>req_hash = h, req_target_chain = chain, req_target_account = target\<rparr>]"
proof (cases "r = Ok")
  case True
  show ?thesis
  proof (cases c)
    case (Detach h chain target)
    with assms True have "detach og h chain target s = (Ok, t)" by simp
    then show ?thesis
    proof (cases rule: detach_Ok)
      case (1 who)
      then show ?thesis using True Detach by (auto elim!: ensure_owner_OkE intro: requested)
    qed
  qed (use assms True same in \<open>auto elim!: upload_Ok patch_Ok transfer_Ok set_metadata_Ok stake_Ok unstake_Ok\<close>)
qed (use protos_dispatch.failure_keeps_state [OF assms] same in simp)

lemma extrinsic_requests:
  assumes "apply_extrinsic C E tr x s = Some (r, t)"
  obtains (same) "DetachRequests t = DetachRequests s"
  | (requested) who h chain target p where "x = Signed_Extrinsic who (Protos_Call (Detach h chain target))"
      and "r = Ok" and "Protos s h = Some p" and "proto_owned_by p = User who"
      and "DetachRequests t = DetachRequests s @ [\<lparr>req_hash = h, req_target_chain = chain, req_target_account = target\<rparr>]"
  using assms
proof (cases rule: apply_extrinsic_Some)
  case (1 og call u)
  from 1(2) show ?thesis
  proof (cases rule: runtime_dispatch_cases)
    case (protos c r')
    from protos(2) show ?thesis
    proof (cases rule: protos_dispatch_requests)
      case (requested who h chain target p)
      moreover have "x = Signed_Extrinsic who call" using 1(1) requested(1) by (cases x) auto
      ultimately show ?thesis using that(2) protos 1(5) by auto
    qed (use 1(5) that(1) in auto)
  next
    case (fragments c r')
    then show ?thesis using beneath_dispatch [OF fragments(2)] 1(5) that(1) by (auto simp: beneath_def)
  next
    case (detach c r')
    then show ?thesis using detach_dispatch_frame [OF detach(2)] 1(5) that(1) by auto
  next
    case (accounts c r')
    then show ?thesis using beside_accounts_dispatch [OF accounts(2)] 1(5) that(1) by (auto simp: beside_accounts_def)
  qed
qed

text \<open>What an accepted unsigned transaction carries.\<close>

definition detach_signed :: "('b, 'y) detach_ext_scheme \<Rightarrow> ('b, 'x) detach_state_scheme
    \<Rightarrow> detach_internal_data \<Rightarrow> bytes \<Rightarrow> bool" where
  "detach_signed E s d sig \<longleftrightarrow> (\<exists>key \<in> detach_FragKeys s.
     decode_multi_signer E (encode_public E (det_public d)) = Some (Ed25519 key) \<and> verify_detach E d sig)"

definition lock_signed :: "('b, 'y) accounts_ext_scheme \<Rightarrow> ('b, 'x) accounts_state_scheme
    \<Rightarrow> eth_lock_update \<Rightarrow> bytes \<Rightarrow> bool" where
  "lock_signed E s d sig \<longleftrightarrow> (\<exists>key \<in> accounts_FragKeys s.
     decode_multi_signer E (encode_public E (elu_public d)) = Some (Ed25519 key) \<and> verify_lock E d sig)"

lemma unsigned_signed:
  assumes "apply_extrinsic C E tr (Unsigned_Extrinsic call) s = Some (r, t)"
  shows "call = Detach_Call (Internal_finalize_detach d sig) \<Longrightarrow> detach_signed E s d sig"
    and "call = Accounts_Call (Internal_lock_update e sig) \<Longrightarrow> lock_signed E s e sig"
  using assms by (cases rule: apply_extrinsic_Some; auto simp: validated detach_signed_def lock_signed_def)+

lemma extrinsic_detached:
  assumes "apply_extrinsic C E tr x s = Some (r, t)"
  obtains (same) "DetachedHashes t = DetachedHashes s"
  | (finalized) d sig where "x = Unsigned_Extrinsic (Detach_Call (Internal_finalize_detach d sig))"
      and "DetachedHashes t = (DetachedHashes s)(det_hash d \<mapsto>
        \<lparr>exp_chain = det_target_chain d, exp_owner = det_target_account d, exp_nonce = det_nonce d\<rparr>)"
  using assms
proof (cases rule: apply_extrinsic_Some)
  case (1 og call u)
  from 1(2) show ?thesis
  proof (cases rule: runtime_dispatch_cases)
    case (protos c r')
    then show ?thesis using protos_dispatch_frame [OF protos(2)] 1(5) that(1) by (auto simp: same_detach_def)
  next
    case (fragments c r')
    then show ?thesis using beneath_dispatch [OF fragments(2)] 1(5) that(1) by (auto simp: beneath_def same_detach_def)
  next
    case (detach c r')
    show ?thesis
    proof (cases c)
      case (Internal_finalize_detach d sig)
      show ?thesis
      proof (cases "og = NoOrigin")
        case True
        then have "x = Unsigned_Extrinsic call" using 1(1) by (cases x) auto
        then show ?thesis
          using detach 1(5) True that by (auto simp: Internal_finalize_detach internal_finalize_detach_def Let_def split: if_splits)
      next
        case False
        then show ?thesis
          using detach(2) 1(5) that(1) by (cases og) (auto simp: Internal_finalize_detach internal_finalize_detach_def)
      qed
    qed (use detach(2) 1(5) that(1) in \<open>auto simp: detach_call_defs split: if_splits\<close>)
  next
    case (accounts c r')
    then show ?thesis using beside_accounts_dispatch [OF accounts(2)] 1(5) that(1)
      by (auto simp: beside_accounts_def same_detach_def)
  qed
qed

text \<open>A locked amount is written by an accepted event, with the amount the event carries.\<close>

lemma settle_lock_frag:
  assumes "settle_lock d h amount s = (r, t)"
  shows "EthLockedFrag t = EthLockedFrag s \<or>
    EthLockedFrag t = (EthLockedFrag s)(elu_sender d \<mapsto> \<lparr>lock_amount = amount, lock_block_number = block_number s\<rparr>)"
proof -
  have "EthLockedFrag (apply_lock k a s) = EthLockedFrag s \<and> block_number (apply_lock k a s) = block_number s" for k a
    by (simp add: apply_lock_def Let_def split: option.split)
  moreover have "EthLockedFrag u = EthLockedFrag s \<and> block_number u = block_number s"
    if "apply_unlock k a s = (r', u)" for k a r' u
    using that by (auto simp: apply_unlock_def unlink_account_def split: option.splits prod.splits outcome.splits if_splits)
  ultimately show ?thesis
    using assms by (auto simp: settle_lock_def split: if_splits prod.splits outcome.splits)
qed

lemma internal_lock_update_frag:
  assumes "internal_lock_update C E og d sig s = (r, t)"
  obtains (same) "EthLockedFrag t = EthLockedFrag s"
  | (settled) "og = NoOrigin" and "lock_event_valid C E d"
      and "EthLockedFrag t = (EthLockedFrag s)(elu_sender d \<mapsto>
        \<lparr>lock_amount = ucast (elu_amount d), lock_block_number = block_number s\<rparr>)"
proof -
  have count: "EthLockedFrag u = EthLockedFrag s \<and> block_number u = block_number s" if "count_vote n h s = (b, u)" for n h b u
    using that by (auto simp: count_vote_def split: option.splits if_splits)
  have og: "og = NoOrigin" if "t \<noteq> s"
    using that assms by (cases og) (auto simp: internal_lock_update_def)
  from assms show ?thesis
  proof (cases rule: internal_lock_update_cases)
    case (settled s1)
    then show ?thesis using settle_lock_frag [OF settled(2)] count [OF settled(1)] og that by (cases "t = s") auto
  qed (use count that(1) in auto)
qed

lemma accounts_dispatch_frag:
  assumes "accounts_dispatch C E og c s = (r, t)"
  obtains (same) "EthLockedFrag t = EthLockedFrag s"
  | (settled) d sig where "c = Internal_lock_update d sig" and "og = NoOrigin" and "lock_event_valid C E d"
      and "EthLockedFrag t = (EthLockedFrag s)(elu_sender d \<mapsto>
        \<lparr>lock_amount = ucast (elu_amount d), lock_block_number = block_number s\<rparr>)"
proof (cases c)
  case (Internal_lock_update d sig)
  with assms have "internal_lock_update C E og d sig s = (r, t)" by simp
  then show ?thesis by (cases rule: internal_lock_update_frag) (use that Internal_lock_update in auto)
qed (use assms accounts_dispatch_changes(1) [OF assms] same in auto)

lemma extrinsic_locks:
  assumes "apply_extrinsic C E tr x s = Some (r, t)"
  obtains (same) "EthLockedFrag t = EthLockedFrag s"
  | (settled) d sig where "x = Unsigned_Extrinsic (Accounts_Call (Internal_lock_update d sig))"
      and "lock_event_valid C E d"
      and "EthLockedFrag t = (EthLockedFrag s)(elu_sender d \<mapsto>
        \<lparr>lock_amount = ucast (elu_amount d), lock_block_number = block_number s\<rparr>)"
  using assms
proof (cases rule: apply_extrinsic_Some)
  case (1 og call u)
  from 1(2) show ?thesis
  proof (cases rule: runtime_dispatch_cases)
    case (protos c r')
    then show ?thesis using protos_dispatch_frame [OF protos(2)] 1(5) that(1) by (auto simp: same_accounts_def)
  next
    case (fragments c r')
    then show ?thesis using beneath_dispatch [OF fragments(2)] 1(5) that(1) by (auto simp: beneath_def same_accounts_def)
  next
    case (detach c r')
    then show ?thesis using detach_dispatch_frame [OF detach(2)] 1(5) that(1) by (auto simp: same_accounts_def)
  next
    case (accounts c r')
    from accounts(2) show ?thesis
    proof (cases rule: accounts_dispatch_frag)
      case (settled d sig)
      moreover have "x = Unsigned_Extrinsic call" using 1(1) settled(2) by (cases x) auto
      ultimately show ?thesis using accounts(1) 1(5) that by (cases "tr \<and> r \<noteq> Ok") auto
    qed (use 1(5) that(1) in auto)
  qed
qed

text \<open>Keys are registered by root only.\<close>

lemma extrinsic_keys:
  assumes "apply_extrinsic C E tr x s = Some (r, t)"
  shows "key \<in> detach_FragKeys t \<Longrightarrow> key \<in> detach_FragKeys s \<or> x = Sudo_Extrinsic (Detach_Call (Detach_Add_key key))"
    and "key \<in> accounts_FragKeys t \<Longrightarrow> key \<in> accounts_FragKeys s \<or> x = Sudo_Extrinsic (Accounts_Call (Accounts_Add_key key))"
    and "k \<in> EthereumAuthorities t \<Longrightarrow> k \<in> EthereumAuthorities s \<or> x = Sudo_Extrinsic (Detach_Call (Add_eth_auth k))"
proof -
  have "(key \<in> detach_FragKeys t \<longrightarrow> key \<in> detach_FragKeys s \<or> x = Sudo_Extrinsic (Detach_Call (Detach_Add_key key))) \<and>
    (key \<in> accounts_FragKeys t \<longrightarrow> key \<in> accounts_FragKeys s \<or> x = Sudo_Extrinsic (Accounts_Call (Accounts_Add_key key))) \<and>
    (k \<in> EthereumAuthorities t \<longrightarrow> k \<in> EthereumAuthorities s \<or> x = Sudo_Extrinsic (Detach_Call (Add_eth_auth k)))"
    (is "?goal t")
    using assms
  proof (cases rule: apply_extrinsic_Some)
    case (1 og call u)
    have root: "x = Sudo_Extrinsic call" if "og = Root" using 1(1) that by (cases x) auto
    from 1(2) have "?goal u"
    proof (cases rule: runtime_dispatch_cases)
      case (protos c r')
      then show ?thesis using protos_dispatch_frame [OF protos(2)] by (simp add: same_detach_def same_accounts_def)
    next
      case (fragments c r')
      then show ?thesis using beneath_dispatch [OF fragments(2)] by (simp add: beneath_def same_detach_def same_accounts_def)
    next
      case (detach c r')
      then show ?thesis
        using detach_dispatch_frame(2) [OF detach(2)] root
        by (cases c; cases og) (auto simp: detach_call_defs Let_def same_accounts_def)
    next
      case (accounts c r')
      have "accounts_FragKeys u = accounts_FragKeys s" if "og \<noteq> Root"
        using accounts_dispatch_changes(2) [OF accounts(2)] that by blast
      moreover have "key \<in> accounts_FragKeys u \<longrightarrow> key \<in> accounts_FragKeys s \<or> c = Accounts_Add_key key" if "og = Root"
        using accounts(2) that by (cases c) (auto simp: link_def unlink_def sponsor_account_def
            internal_lock_update_def accounts_add_key_def accounts_del_key_def)
      ultimately show ?thesis using beside_accounts_dispatch [OF accounts(2)] root accounts(1)
        by (cases "og = Root") (auto simp: beside_accounts_def same_detach_def)
    qed
    then show ?thesis by (simp add: 1(5))
  qed
  then show "key \<in> detach_FragKeys t \<Longrightarrow> key \<in> detach_FragKeys s \<or> x = Sudo_Extrinsic (Detach_Call (Detach_Add_key key))"
    and "key \<in> accounts_FragKeys t \<Longrightarrow> key \<in> accounts_FragKeys s \<or> x = Sudo_Extrinsic (Accounts_Call (Accounts_Add_key key))"
    and "k \<in> EthereumAuthorities t \<Longrightarrow> k \<in> EthereumAuthorities s \<or> x = Sudo_Extrinsic (Detach_Call (Add_eth_auth k))"
    by blast+
qed

lemma runtime_on_finalize_more:
  "DetachRequests (runtime_on_finalize E s) = []" "EthLockedFrag (runtime_on_finalize E s) = EthLockedFrag s"
  "accounts_FragKeys (runtime_on_finalize E s) = accounts_FragKeys s"
  "EthereumAuthorities (runtime_on_finalize E s) = EthereumAuthorities s"
  "DetachNonces (runtime_on_finalize E s) = DetachNonces s"
proof -
  let ?s1 = "protos_on_finalize s" let ?s2 = "fragments_on_finalize E (block_number s) ?s1"
  obtain ps as where s1: "?s1 = s\<lparr>PendingUnlinks := [], ProtoStakes := ps, AccountStakes := as\<rparr>"
    using protos_on_finalize_frame by blast
  have "beneath ?s1 ?s2" by simp
  then show "DetachRequests (runtime_on_finalize E s) = []" "EthLockedFrag (runtime_on_finalize E s) = EthLockedFrag s"
    "accounts_FragKeys (runtime_on_finalize E s) = accounts_FragKeys s"
    "EthereumAuthorities (runtime_on_finalize E s) = EthereumAuthorities s"
    "DetachNonces (runtime_on_finalize E s) = DetachNonces s"
    by (simp_all add: runtime_on_finalize_def beneath_def same_detach_def same_accounts_def s1 detach_on_finalize_def Let_def)
qed

end
