(* ===== verification/Fragments_Ledger.thy ===== *)
theory Fragments_Ledger
  imports Fragments_Instances
begin

text \<open>
  The abstract view of the pallet \<open>fragments\<close>: a ledger that says who owns which instance, and
  four events on it. Every step of the pallet is one event of the ledger.
\<close>

section \<open>The ledger\<close>

type_synonym instance_id = "hash128 \<times> unit_id \<times> unit_id"
type_synonym ledger = "instance_id \<rightharpoonup> account_id"

datatype ledger_event =
    Issue account_id "instance_id set"
  | Move instance_id account_id account_id
  | Burn "instance_id set"
  | Idle

text \<open>Only new instances are issued, and only what the giver owns is moved.\<close>

definition ledger_step :: "ledger \<Rightarrow> ledger_event \<Rightarrow> ledger \<Rightarrow> bool" where
  "ledger_step L ev L' \<longleftrightarrow>
     (case ev of
        Issue a xs \<Rightarrow> xs \<inter> dom L = {} \<and> L' = (\<lambda>x. if x \<in> xs then Some a else L x)
      | Move x a b \<Rightarrow> L x = Some a \<and> L' = L(x \<mapsto> b)
      | Burn xs \<Rightarrow> L' = (\<lambda>x. if x \<in> xs then None else L x)
      | Idle \<Rightarrow> L' = L)"

text \<open>Who may cause an event: an issue and a move carry the account that signed the call.\<close>

definition signed_by :: "account_id origin \<Rightarrow> 'p fragments_call \<Rightarrow> ledger_event \<Rightarrow> bool" where
  "signed_by og c ev \<longleftrightarrow>
     (case ev of
        Issue a xs \<Rightarrow> (\<exists>f opt. ((\<exists>m. c = Mint f opt m) \<or> c = Buy f opt) \<and> og = Signed a) \<or>
          (\<exists>cl e k dest np ex. c = Give cl e k dest np ex)
      | Move x a b \<Rightarrow> og = Signed a \<and> (\<exists>cl e k dest np ex. c = Give cl e k dest np ex \<and> x = (cl, e, k))
      | Burn xs \<Rightarrow> False
      | Idle \<Rightarrow> True)"

text \<open>The ledger that a state of the pallet stands for.\<close>

definition represents :: "('b, 'c, 'p, 'x) fragments_state_scheme \<Rightarrow> ledger \<Rightarrow> bool" where
  "represents s L \<longleftrightarrow> (\<forall>cl i a. L (cl, i) = Some a \<longleftrightarrow> holds s a cl i)"

lemma represents_unique: "represents s L \<Longrightarrow> represents s L' \<Longrightarrow> L = L'"
proof (rule ext)
  fix x assume "represents s L" "represents s L'"
  then have "L x = Some a \<longleftrightarrow> L' x = Some a" for a by (cases x) (simp add: represents_def)
  then show "L x = L' x" by (metis option.exhaust)
qed

lemma represents_exists:
  assumes "instances_inv s" shows "\<exists>L. represents s L"
proof
  show "represents s (\<lambda>(cl, i). if \<exists>a. holds s a cl i then Some (SOME a. holds s a cl i) else None)"
    using instances_inv_simps(4) [OF assms] by (auto simp: represents_def intro: someI2)
qed

lemma represents_dom:
  assumes "instances_inv s" and "represents s L" shows "x \<in> dom L \<longleftrightarrow> Fragments s x \<noteq> None"
proof -
  obtain cl e k where x: "x = (cl, e, k)" by (cases x)
  show ?thesis
    using assms(2) instances_inv_simps(5) [OF assms(1), of cl e k] by (auto simp: x represents_def dom_def)
qed

lemma represents_same: "same_instances s t \<Longrightarrow> represents t L = represents s L"
  by (simp add: represents_def holds_def same_instances_def)

section \<open>Minting\<close>

lemma ledger_mint:
  assumes inv: "instances_inv s" and rep: "represents s L"
    and mint: "mint_fragments E who f sale opt q n None a s = (Ok, t)"
    and fits: "unat (editions_count s f) + unat q < 2 ^ 64"
  shows "\<exists>xs L'. ledger_step L (Issue who xs) L' \<and> represents t L'"
  using mint
proof (cases rule: mint_fragments_effect)
  case (1 d data p)
  let ?xs = "(\<lambda>i. (f, i + 1, 1)) ` set (edition_range (editions_count s f) q)"
  have holds: "holds t b cl i \<longleftrightarrow> holds s b cl i \<or> (b = who \<and> (cl, i) \<in> ?xs)" for b cl i
    by (auto simp: holds_def 1(7))
  have "x \<notin> dom L" if x: "x \<in> ?xs" for x
  proof
    assume "x \<in> dom L"
    then have "Fragments s x \<noteq> None" using represents_dom [OF inv rep] by blast
    with x show False
      using instances_inv_simps(6) [OF inv] edition_range_bounds(1) [OF fits] by (auto simp flip: not_le)
  qed
  then have disjoint: "?xs \<inter> dom L = {}" by blast
  let ?L = "\<lambda>x. if x \<in> ?xs then Some who else L x"
  have "represents t ?L"
    unfolding represents_def
  proof (intro allI)
    fix cl i b
    have r: "L (cl, i) = Some b \<longleftrightarrow> holds s b cl i" using rep unfolding represents_def by blast
    show "?L (cl, i) = Some b \<longleftrightarrow> holds t b cl i"
    proof (cases "(cl, i) \<in> ?xs")
      case True
      then have "L (cl, i) = None" using disjoint by blast
      then show ?thesis using r True unfolding holds by auto
    next
      case False
      then show ?thesis using r unfolding holds by (simp only: if_False simp_thms)
    qed
  qed
  then show ?thesis using disjoint by (intro exI [of _ ?xs] exI [of _ ?L]) (simp add: ledger_step_def)
qed

section \<open>Giving\<close>

lemma ledger_give:
  assumes inv: "instances_inv s" and rep: "represents s L"
    and give: "give E og cl e k dest np ex s = (Ok, t)" and fits: "CopiesCount s (cl, e) \<noteq> Some (- 1)"
  shows "\<exists>ev L'. ledger_step L ev L' \<and> represents t L' \<and> signed_by og (Give cl e k dest np ex) ev"
  using give
proof (cases rule: give_Ok)
  case (copied who item to n)
  let ?x = "(cl, e, n + 1)"
  have "n < n + 1" using copied(5) fits by (intro less_plus_1) auto
  then have "Fragments s ?x = None"
    using instances_inv_simps(7) [OF inv, of cl e "n + 1"] copied(5) by fastforce
  then have fresh: "?x \<notin> dom L" by (simp add: represents_dom [OF inv rep])
  have "represents t (\<lambda>x. if x \<in> {?x} then Some to else L x)"
    using rep fresh by (auto simp: represents_def copied(7) holds_give_copy dom_def)
  then show ?thesis
    using fresh by (intro exI [of _ "Issue to {?x}"] exI conjI) (auto simp: ledger_step_def signed_by_def)
next
  case (moved who item to)
  have own: "holds s who cl (e, k)"
    using moved(2) by (simp add: giveable_def holds_def instances_inv_simps(1) [OF inv])
  then have "L (cl, e, k) = Some who" using rep by (simp add: represents_def)
  moreover have "represents t (L((cl, e, k) \<mapsto> to))"
    using rep by (auto simp: represents_def moved(5) holds_give_original [OF inv own])
  ultimately show ?thesis
    using moved(1) by (intro exI [of _ "Move (cl, e, k) who to"] exI conjI) (auto simp: ledger_step_def signed_by_def)
qed

section \<open>Refinement\<close>

lemma ledger_dispatch:
  assumes inv: "instances_inv s" and rep: "represents s L"
    and call: "fragments_dispatch E og c s = (r, t)" and fits: "call_fits s c"
  shows "\<exists>ev L'. ledger_step L ev L' \<and> represents t L' \<and> signed_by og c ev"
  using call
proof (cases rule: fragments_dispatch_cases)
  case same
  then show ?thesis
    using rep by (intro exI [of _ Idle] exI [of _ L]) (simp add: ledger_step_def signed_by_def represents_same)
next
  case (minted who f sale opt a s1)
  obtain xs L' where L': "ledger_step L (Issue who xs) L'" "represents s1 L'"
    using ledger_mint [OF inv rep minted(1) minted(3) [OF fits]] by blast
  have "signed_by og c (Issue who xs)" using minted(4,5) by (auto simp: signed_by_def)
  then show ?thesis using L' represents_same [OF minted(2)] by blast
next
  case (given cl e k dest np ex)
  then show ?thesis using ledger_give [OF inv rep given(2)] fits by auto
qed

lemma ledger_on_finalize:
  assumes "instances_inv s" and "iterates E" and "represents s L"
  shows "\<exists>L'. ledger_step L (Burn (set (listed (Expirations s) n))) L' \<and> represents (fragments_on_finalize E n s) L'"
  using assms(3) by (auto simp: ledger_step_def represents_def on_finalize_holds [OF assms(1,2)])

lemma ledger_fragments_step:
  assumes "fragments_step E s t" and "instances_inv s" and "iterates E" and "represents s L"
  shows "\<exists>ev L'. ledger_step L ev L' \<and> represents t L'"
  using assms(1)
proof cases
  case (call og c r)
  then show ?thesis using ledger_dispatch [OF assms(2,4) call(1,2)] by blast
next
  case end_of_block
  then show ?thesis using ledger_on_finalize [OF assms(2,3,4)] by blast
next
  case elsewhere
  then have "same_instances s t" by (simp add: same_fragments_def same_instances_def)
  then show ?thesis using assms(4) by (intro exI [of _ Idle] exI [of _ L]) (simp add: ledger_step_def represents_same)
qed

lemma ledger_steps:
  assumes "(fragments_step E)\<^sup>*\<^sup>* s t" and "instances_inv s" and "iterates E" and "represents s L"
  shows "\<exists>L'. (\<lambda>L L'. \<exists>ev. ledger_step L ev L')\<^sup>*\<^sup>* L L' \<and> represents t L'"
  using assms(1)
proof (induction rule: rtranclp_induct)
  case base
  then show ?case using assms(4) by blast
next
  case (step t u)
  then obtain L' where L': "(\<lambda>L L'. \<exists>ev. ledger_step L ev L')\<^sup>*\<^sup>* L L'" "represents t L'" by blast
  obtain ev L'' where L'': "ledger_step L' ev L''" "represents u L''"
    using ledger_fragments_step [OF step(2) instances_inv_steps [OF step(1) assms(2,3)] assms(3) L'(2)] by blast
  have "(\<lambda>L L'. \<exists>ev. ledger_step L ev L')\<^sup>*\<^sup>* L L''"
    by (rule rtranclp.rtrancl_into_rtrancl [OF L'(1)]) (use L''(1) in blast)
  then show ?case using L''(2) by blast
qed

end
