(* ===== verification/Fragments_Properties.thy ===== *)
theory Fragments_Properties
  imports Fragments_Ledger Protos_Properties "HOL-Library.List_Lexorder"
begin

text \<open>
  Properties of the pallet \<open>fragments\<close>: one owner per instance, the supply of a definition and
  what a sale does to it, the effects of minting, buying and giving, unique data, expiration,
  failing calls, and the permanence of definitions.
\<close>

unbundle bit_operations_syntax

section \<open>A concrete state\<close>

text \<open>
  The sample environment of the accounts pallet, with permissions as bits of a byte and the
  storage iterating in the order of the keys.
\<close>

definition sample_fragments_ext :: "(unit, u8) fragments_ext" where
  "sample_fragments_ext = accounts_ext.extend sample_ext
     \<lparr>encode_name = (\<lambda>b. b), encode_currency = (\<lambda>c. case c of None \<Rightarrow> [] | Some a \<Rightarrow> be_bytes 8 a),
      encode_unit = be_bytes 8, lookup_address = (\<lambda>_ a. case a of Id who \<Rightarrow> Some who | _ \<Rightarrow> None),
      perms_and = (AND), EDIT = 1, COPY = 4, TRANSFER = 2, iter_accounts = sorted_list_of_set\<rparr>"

lemma sample_fragments_ext_simps [simp]:
  "blake2_256 sample_fragments_ext = (\<lambda>b. b)" "blake2_128 sample_fragments_ext = (\<lambda>b. b)"
  "decode_account sample_fragments_ext = Some" "minimum_balance sample_fragments_ext = 500"
  "free_balance sample_fragments_ext = (\<lambda>_ _. 1000000)" "reserve sample_fragments_ext = (\<lambda>b _ _. Some b)"
  "transfer_keep_alive sample_fragments_ext = (\<lambda>b _ _ _. Some b)"
  "encode_name sample_fragments_ext = (\<lambda>b. b)" "encode_currency sample_fragments_ext None = []"
  "lookup_address sample_fragments_ext b (Id who) = Some who"
  "perms_and sample_fragments_ext = (AND)" "EDIT sample_fragments_ext = 1"
  "COPY sample_fragments_ext = 4" "TRANSFER sample_fragments_ext = 2"
  "iter_accounts sample_fragments_ext = sorted_list_of_set"
  by (simp_all add: sample_fragments_ext_def sample_ext_def accounts_ext.defs)

lemma sample_iterates: "iterates sample_fragments_ext"
  by (simp add: iterates_def)

text \<open>Account \<open>[1]\<close> owns the Proto-Fragment \<open>[7]\<close>; nothing has been made from it.\<close>

definition empty_fragments :: "(unit, nat, u8) fragments_state" where
  "empty_fragments = protos_state.extend (empty_protos\<lparr>Protos := [[7] \<mapsto> sample_proto]\<rparr>)
     \<lparr>Proto2Fragments = Map.empty, Definitions = Map.empty, Publishing = Map.empty,
      EditionsCount = Map.empty, CopiesCount = Map.empty, Fragments = Map.empty,
      UniqueData2Edition = Map.empty, Owners = Map.empty, Inventory = Map.empty,
      Expirations = Map.empty, fragments_events = []\<rparr>"

lemma empty_fragments_simps [simp]:
  "Protos empty_fragments = [[7] \<mapsto> sample_proto]" "DetachedHashes empty_fragments = Map.empty"
  "balances empty_fragments = ()" "block_number empty_fragments = 1" "extrinsic_index empty_fragments = Some 0"
  "Proto2Fragments empty_fragments = Map.empty" "Definitions empty_fragments = Map.empty"
  "Publishing empty_fragments = Map.empty" "EditionsCount empty_fragments = Map.empty"
  "CopiesCount empty_fragments = Map.empty" "Fragments empty_fragments = Map.empty"
  "UniqueData2Edition empty_fragments = Map.empty" "Owners empty_fragments = Map.empty"
  "Inventory empty_fragments = Map.empty" "Expirations empty_fragments = Map.empty"
  "fragments_events empty_fragments = []"
  by (simp_all add: empty_fragments_def empty_protos_def protos_state.defs)

lemma empty_fragments_invs: "instances_inv empty_fragments" "expiry_inv empty_fragments"
  by (simp_all add: instances_inv_def expiry_inv_def holds_def storage_simps)

text \<open>
  A definition of at most two editions, with all permissions, its sale of two units, and the
  owner's minting of two editions.
\<close>

definition sample_metadata :: fragment_metadata where
  "sample_metadata = \<lparr>fm_name = [8], fm_currency = None\<rparr>"

definition sample_create :: "account_id origin \<times> u8 fragments_call" where
  "sample_create = (Signed [1], Create [7] sample_metadata 7 None (Some 2))"

definition sample_publish :: "account_id origin \<times> u8 fragments_call" where
  "sample_publish = (Signed [1], Publish [7, 8] 5 (Some 2) None None)"

definition sample_mint :: "account_id origin \<times> u8 fragments_call" where
  "sample_mint = (Signed [1], Mint [7, 8] (Quantity 2) None)"

definition sample_definition :: "u8 fragment_definition" where
  "sample_definition = \<lparr>fd_proto_hash = [7], fd_metadata = sample_metadata, fd_permissions = 7,
     fd_unique = None, fd_max_supply = Some 2, fd_creator = [1], fd_created_at = 1\<rparr>"

definition sample_sale :: publishing_data where
  "sample_sale = \<lparr>pd_price = 5, pd_units_left = Some 2, pd_expiration = None, pd_amount = None\<rparr>"

definition defined_fragments :: "(unit, nat, u8) fragments_state" where
  "defined_fragments = fragments_run sample_fragments_ext [sample_create, sample_publish] empty_fragments"

lemma sample_id [simp]: "fragment_id sample_fragments_ext [7] sample_metadata = [7, 8]"
  by (simp add: fragment_id_def sample_metadata_def)

lemma sample_vault [simp]: "get_vault_id sample_fragments_ext h = Some (ascii ''fragments-vault'' @ h)"
  by (simp add: get_vault_id_def)

lemma sample_proto_owner [simp]: "proto_owned_by sample_proto = User [1]"
  by (simp add: sample_proto_def)

lemma defined_fragments_eq:
  "defined_fragments = empty_fragments\<lparr>Definitions := [[7, 8] \<mapsto> sample_definition],
     Proto2Fragments := [[7] \<mapsto> [[7, 8]]], Publishing := [[7, 8] \<mapsto> sample_sale],
     fragments_events := [DefinitionCreated [7, 8], Published [7, 8]]\<rparr>"
  by (simp add: defined_fragments_def sample_create_def sample_publish_def create_def publish_def Let_def
      ensure_proto_owner_def ensure_definition_owner_def check_supply_def editions_count_def sat_sub_def
      sample_definition_def sample_sale_def storage_append_def)

text \<open>The state after the owner minted both editions.\<close>

definition minted_fragments :: "(unit, nat, u8) fragments_state" where
  "minted_fragments = fragments_run sample_fragments_ext [sample_mint] defined_fragments"

lemma edition_range_0_2 [simp]: "edition_range 0 2 = [0, 1]"
  by (simp add: edition_range_def upt_rec)

lemma edition_range_1_1 [simp]: "edition_range 1 1 = [1]" "edition_range 0 1 = [0]"
  by (simp_all add: edition_range_def upt_rec)

lemma minted_fragments_eq:
  "minted_fragments = defined_fragments\<lparr>
     Fragments := [([7, 8], 1, 1) \<mapsto> minted 7 1 None None None, ([7, 8], 2, 1) \<mapsto> minted 7 1 None None None],
     CopiesCount := [([7, 8], 1) \<mapsto> 1, ([7, 8], 2) \<mapsto> 1],
     Inventory := [([1], [7, 8]) \<mapsto> [(1, 1), (2, 1)]], Owners := [([7, 8], [1]) \<mapsto> [(1, 1), (2, 1)]],
     EditionsCount := [[7, 8] \<mapsto> 2],
     fragments_events := [DefinitionCreated [7, 8], Published [7, 8],
       InventoryAdded [1] [7, 8] (1, 1), InventoryAdded [1] [7, 8] (2, 1)]\<rparr>"
  by (simp add: minted_fragments_def defined_fragments_eq sample_mint_def mint_def mint_fragments_def Let_def
      ensure_proto_owner_def ensure_definition_owner_def check_options_def take_units_def editions_count_def
      sat_sub_def sample_definition_def mint_one_def storage_append_def minted_def)

section \<open>Properties\<close>


lemma minted_reachable: "(fragments_step sample_fragments_ext)\<^sup>*\<^sup>* defined_fragments minted_fragments"
proof (rule r_into_rtranclp, rule fragments_step.call)
  show "fragments_dispatch sample_fragments_ext (Signed [1]) (Mint [7, 8] (Quantity 2) None) defined_fragments =
    (fst (fragments_dispatch sample_fragments_ext (Signed [1]) (Mint [7, 8] (Quantity 2) None) defined_fragments),
     minted_fragments)"
    by (simp add: minted_fragments_def sample_mint_def)
qed (simp add: defined_fragments_eq editions_count_def)

lemma defined_fragments_inv: "instances_inv defined_fragments" "expiry_inv defined_fragments"
  by (simp_all add: defined_fragments_eq instances_inv_def expiry_inv_def holds_def storage_simps)


text \<open>
  C14. What the owner mints never exceeds the supply of the definition, and the counter of
  editions does not wrap around in doing so.
\<close>

theorem mint_respects_supply:
  assumes "mint E og f opt a s = (Ok, t)" and "Definitions s f = Some d" and "fd_max_supply d = Some m"
    and "editions_count s f \<le> m"
  shows "editions_count t f \<le> m \<and>
    unat (editions_count t f) = unat (editions_count s f) + unat (quantity_of opt)"
proof -
  let ?q = "quantity_of opt" and ?e = "editions_count s f"
  from assms(1) obtain who where
    "mint_fragments E who f None opt ?q (block_number s) None a s = (Ok, t)" by (rule mint_Ok)
  then have take: "\<exists>s1. take_units s f None (Some m) ?q = Inr s1" and t: "editions_count t f = ?e + ?q"
    using assms(2,3) by (auto elim!: mint_fragments_effect simp: editions_count_def)
  then have "?q \<le> sat_sub m ?e" by (auto simp: take_units_def split: if_splits)
  then have q: "unat ?e + unat ?q \<le> unat m"
    using assms(4) by (simp add: word_le_nat_alt unat_sat_sub)
  then have sum: "unat (?e + ?q) = unat ?e + unat ?q"
    by (intro unat_plus_small) (rule le_less_trans, assumption, rule unsigned_less)
  then show ?thesis unfolding t using q by (simp add: word_le_nat_alt)
qed

lemma sample_mint_ok:
  "mint sample_fragments_ext (Signed [1]) [7, 8] (Quantity 2) None defined_fragments = (Ok, minted_fragments)"
  by (simp add: minted_fragments_def defined_fragments_eq sample_mint_def mint_def mint_fragments_def Let_def
      ensure_proto_owner_def ensure_definition_owner_def check_options_def take_units_def editions_count_def
      sat_sub_def sample_definition_def)

theorem mint_respects_supply_witness:
  "editions_count minted_fragments [7, 8] \<le> 2 \<and> unat (editions_count minted_fragments [7, 8]) = 2"
  using mint_respects_supply [OF sample_mint_ok, of sample_definition 2]
  by (simp add: defined_fragments_eq sample_definition_def editions_count_def)

text \<open>
  A purchase looks at the units of the sale only: with a supply of two, two units on
  sale and two editions minted by the owner after that, a buyer still gets two more, and
  four editions exist.
\<close>

theorem buy_exceeds_supply:
  "let t = snd (buy sample_fragments_ext (Signed [5]) [7, 8] (Quantity 2) minted_fragments) in
   fst (buy sample_fragments_ext (Signed [5]) [7, 8] (Quantity 2) minted_fragments) = Ok \<and>
   map_option fd_max_supply (Definitions t [7, 8]) = Some (Some 2) \<and> editions_count t [7, 8] = 4 \<and>
   Fragments t ([7, 8], 1, 1) \<noteq> None \<and> Fragments t ([7, 8], 2, 1) \<noteq> None \<and>
   Fragments t ([7, 8], 3, 1) \<noteq> None \<and> Fragments t ([7, 8], 4, 1) \<noteq> None"
proof -
  have "edition_range 2 2 = [2, 3]" by (simp add: edition_range_def upt_rec)
  then show ?thesis
    by (simp add: minted_fragments_eq defined_fragments_eq buy_def mint_fragments_def Let_def
        check_options_def take_units_def editions_count_def sat_sub_def sat_mul_def can_pay_def pay_def
        sample_definition_def sample_sale_def sample_metadata_def mint_one_def storage_append_def)
qed

text \<open>The numbers of the editions minted after \<open>e\<close>, each with its first copy.\<close>

definition first_copies :: "unit_id \<Rightarrow> u64 \<Rightarrow> (unit_id \<times> unit_id) list" where
  "first_copies e q = map (\<lambda>i. (e + of_nat (Suc i), 1)) [0..<unat q]"

text \<open>The instance with the permissions of its definition and the options of the call.\<close>

definition new_instance :: "('b, 'p, 'y) fragments_ext_scheme \<Rightarrow> 'p fragment_definition \<Rightarrow> block_num
    \<Rightarrow> fragment_buy_options \<Rightarrow> unit_id option \<Rightarrow> 'p fragment_instance" where
  "new_instance E d n opt a = minted (fd_permissions d) n
     (case opt of Quantity _ \<Rightarrow> None | UniqueData data \<Rightarrow> Some (blake2_256 E data)) None a"

text \<open>
  What the account \<open>who\<close> has after minting \<open>q\<close> editions: the next numbers, at the end of its
  inventory, and nothing else has changed.
\<close>

definition receives :: "('b, 'p, 'y) fragments_ext_scheme \<Rightarrow> account_id \<Rightarrow> hash128 \<Rightarrow> 'p fragment_definition
    \<Rightarrow> fragment_buy_options \<Rightarrow> unit_id option \<Rightarrow> ('b, 'c, 'p, 'x) fragments_state_scheme
    \<Rightarrow> ('b, 'c, 'p, 'x) fragments_state_scheme \<Rightarrow> bool" where
  "receives E who f d opt a s t \<longleftrightarrow>
     (let new = first_copies (editions_count s f) (quantity_of opt) in
      (\<forall>k. listed (Inventory t) k = listed (Inventory s) k @ (if k = (who, f) then new else [])) \<and>
      (\<forall>cl e k. Fragments t (cl, e, k) = (if cl = f \<and> (e, k) \<in> set new
         then Some (new_instance E d (block_number s) opt a) else Fragments s (cl, e, k))) \<and>
      (\<forall>cl. editions_count t cl = editions_count s cl + (if cl = f then quantity_of opt else 0)))"

lemma first_copies_range:
  assumes "unat e + unat q < 2 ^ 64"
  shows "map (\<lambda>i. (i + 1, 1)) (edition_range e q) = first_copies e q"
  by (simp add: first_copies_def edition_range_exact [OF assms] add.assoc add.commute)

lemma mint_fragments_receives:
  assumes "mint_fragments E who f sale opt (quantity_of opt) (block_number s) None a s = (Ok, t)"
    and "unat (editions_count s f) + unat (quantity_of opt) < 2 ^ 64"
  shows "\<exists>d. Definitions s f = Some d \<and> receives E who f d opt a s t"
  using assms(1)
proof (cases rule: mint_fragments_effect)
  case (1 d data p)
  let ?r = "edition_range (editions_count s f) (quantity_of opt)"
  have data: "map_option fst data = (case opt of Quantity _ \<Rightarrow> None | UniqueData data \<Rightarrow> Some (blake2_256 E data))"
    using 1(2) by (auto simp: check_options_def split: fragment_buy_options.splits if_splits)
  have new: "(\<exists>i \<in> set ?r. (cl, e, k) = (f, i + 1, 1)) \<longleftrightarrow>
      cl = f \<and> (e, k) \<in> set (first_copies (editions_count s f) (quantity_of opt))" for cl e k
    by (auto simp: first_copies_range [OF assms(2), symmetric])
  have count: "editions_count t cl = editions_count s cl + (if cl = f then quantity_of opt else 0)" for cl
    by (simp add: editions_count_def 1(10))
  have "receives E who f d opt a s t"
    unfolding receives_def Let_def 1(4,6) new first_copies_range [OF assms(2)] new_instance_def data
    using count by simp
  with 1(1) show ?thesis by blast
qed

text \<open>
  A successful minting gives the owner the next editions, numbered from one more than
  the editions there are, each with copy 1 and the permissions of the definition; sales and
  balances stay.
\<close>

theorem mint_effect:
  assumes "mint E og f opt a s = (Ok, t)" and "unat (editions_count s f) + unat (quantity_of opt) < 2 ^ 64"
  shows "\<exists>who d. og = Signed who \<and> Definitions s f = Some d \<and> owner_of s (fd_proto_hash d) = Some (User who) \<and>
    receives E who f d opt a s t \<and> Publishing t = Publishing s \<and> balances t = balances s"
  using assms(1)
proof (cases rule: mint_Ok)
  case (1 who)
  obtain d where d: "Definitions s f = Some d" "receives E who f d opt a s t"
    using mint_fragments_receives [OF 1(3) assms(2)] by blast
  have "owner_of s (fd_proto_hash d) = Some (User who)"
    using 1(2) d(1) by (auto simp: ensure_definition_owner_Ok ensure_proto_owner_Ok owner_of_def)
  moreover have "Publishing t = Publishing s \<and> balances t = balances s"
    using 1(3)
  proof (cases rule: mint_fragments_effect)
    case (1 d data p)
    from 1(3) have "s\<lparr>Publishing := p\<rparr> = s" by (rule take_units_Inr) simp_all
    then have "Publishing (s\<lparr>Publishing := p\<rparr>) = Publishing s" by (rule arg_cong)
    then show ?thesis by (simp add: 1(12,16))
  qed
  ultimately show ?thesis using 1(1) d by blast
qed

theorem mint_effect_witness:
  "\<exists>who d. Signed [1] = Signed who \<and> Definitions defined_fragments [7, 8] = Some d \<and>
    owner_of defined_fragments (fd_proto_hash d) = Some (User who) \<and>
    receives sample_fragments_ext who [7, 8] d (Quantity 2) None defined_fragments minted_fragments \<and>
    Publishing minted_fragments = Publishing defined_fragments \<and> balances minted_fragments = balances defined_fragments"
  by (rule mint_effect [OF sample_mint_ok]) (simp add: defined_fragments_eq editions_count_def)




text \<open>
  C34. Unique data is minted once: after a successful minting of some data for a definition,
  nobody ever mints or buys an instance of the definition with the same data. The edition
  recorded for the data is the one before the edition that carries it.
\<close>

theorem unique_data_once:
  assumes "mint E og f (UniqueData data) a s = (Ok, t)" and "editions_count s f \<noteq> - 1"
    and "(fragments_step E)\<^sup>*\<^sup>* t u"
  shows "fst (mint E og' f (UniqueData data) a' u) \<noteq> Ok \<and> fst (buy E og' f (UniqueData data) u) \<noteq> Ok \<and>
    UniqueData2Edition t (f, blake2_256 E data) = Some (editions_count s f) \<and>
    map_option fi_custom_data (Fragments t (f, editions_count s f + 1, 1)) = Some (Some (blake2_256 E data))"
  using assms(1)
proof (cases rule: mint_Ok)
  case (1 who)
  have fits: "unat (editions_count s f) + unat (quantity_of (UniqueData data)) < 2 ^ 64"
    using unat_less_max [OF assms(2)] by simp
  have recorded: "UniqueData2Edition t (f, blake2_256 E data) = Some (editions_count s f)"
    using 1(3)
  proof (cases rule: mint_fragments_effect)
    case (1 d dt p)
    then show ?thesis by (auto simp: check_options_def split: if_splits)
  qed
  then have taken: "UniqueData2Edition u (f, blake2_256 E data) = Some (editions_count s f)"
    by (rule unique_data_steps [OF assms(3)])
  have refused: "fst (mint_fragments E who' f sale (UniqueData data) q n ex b u) \<noteq> Ok" for who' sale q n ex b
  proof
    assume "fst (mint_fragments E who' f sale (UniqueData data) q n ex b u) = Ok"
    then have "mint_fragments E who' f sale (UniqueData data) q n ex b u =
      (Ok, snd (mint_fragments E who' f sale (UniqueData data) q n ex b u))" by (simp add: prod_eq_iff)
    then show False
    proof (cases rule: mint_fragments_Ok)
      case (1 d ei dt p)
      then show False using taken by (simp add: check_options_def split: if_splits)
    qed
  qed
  have "fst (mint E og' f (UniqueData data) a' u) \<noteq> Ok"
    using refused by (auto simp: mint_def split: option.splits outcome.splits)
  moreover have "fst (buy E og' f (UniqueData data) u) \<noteq> Ok"
  proof
    assume "fst (buy E og' f (UniqueData data) u) = Ok"
    then have "buy E og' f (UniqueData data) u = (Ok, snd (buy E og' f (UniqueData data) u))"
      by (simp add: prod_eq_iff)
    then show False using refused by (cases rule: buy_cases) (auto dest: arg_cong [where f = fst])
  qed
  moreover obtain d where "receives E who f d (UniqueData data) a s t"
    using mint_fragments_receives [OF 1(3) fits] by blast
  then have "Fragments t (f, editions_count s f + 1, 1) =
      Some (new_instance E d (block_number s) (UniqueData data) a)"
    by (simp add: receives_def Let_def first_copies_def)
  ultimately show ?thesis using recorded by (simp add: new_instance_def minted_def)
qed

text \<open>A definition whose instances carry unique data.\<close>

definition unique_fragments :: "(unit, nat, u8) fragments_state" where
  "unique_fragments = defined_fragments\<lparr>Definitions :=
     [[7, 8] \<mapsto> sample_definition\<lparr>fd_unique := Some \<lparr>uo_mutable = False\<rparr>\<rparr>]\<rparr>"

lemma sample_unique_mint_ok:
  "mint sample_fragments_ext (Signed [1]) [7, 8] (UniqueData [3]) None unique_fragments =
   (Ok, snd (mint sample_fragments_ext (Signed [1]) [7, 8] (UniqueData [3]) None unique_fragments))"
  by (simp add: prod_eq_iff unique_fragments_def defined_fragments_eq mint_def mint_fragments_def Let_def
      ensure_proto_owner_def ensure_definition_owner_def check_options_def take_units_def editions_count_def
      sat_sub_def sample_definition_def)

theorem unique_data_once_witness:
  "let t = snd (mint sample_fragments_ext (Signed [1]) [7, 8] (UniqueData [3]) None unique_fragments) in
   fst (mint sample_fragments_ext (Signed [1]) [7, 8] (UniqueData [3]) None t) \<noteq> Ok \<and>
   UniqueData2Edition t ([7, 8], [3]) = Some 0 \<and>
   map_option fi_custom_data (Fragments t ([7, 8], 1, 1)) = Some (Some [3])"
proof -
  have "editions_count unique_fragments [7, 8] = 0"
    by (simp add: unique_fragments_def defined_fragments_eq editions_count_def)
  then show ?thesis
    using unique_data_once [OF sample_unique_mint_ok _ rtranclp.rtrancl_refl] by (simp add: Let_def)
qed

text \<open>
  C15. A gift is made by an owner of an unexpired instance that may be transferred. The
  instance the recipient gets has no permission the given one lacked, the same data and
  amount, and expires no later.
\<close>

theorem give_authorised:
  assumes "give E og cl e k dest np ex s = (Ok, t)"
  shows "\<exists>who item to. og = Signed who \<and> Fragments s (cl, e, k) = Some item \<and>
    (e, k) \<in> set (listed (Inventory s) (who, cl)) \<and> (\<forall>n. fi_expiring_at item = Some n \<longrightarrow> block_number s < n) \<and>
    has_perm E (fi_permissions item) (TRANSFER E) \<and> lookup_address E (balances s) dest = Some to \<and>
    (\<exists>k' new. (if has_perm E (fi_permissions item) (COPY E) then CopiesCount t (cl, e) = Some k' else k' = k) \<and>
       (e, k') \<in> set (listed (Inventory t) (to, cl)) \<and> Fragments t (cl, e, k') = Some new \<and>
       (\<forall>flag \<in> {EDIT E, COPY E, TRANSFER E}. has_perm E (fi_permissions new) flag \<longrightarrow>
          has_perm E (fi_permissions item) flag) \<and>
       fi_custom_data new = fi_custom_data item \<and> fi_amount new = fi_amount item \<and>
       (\<forall>n. fi_expiring_at item = Some n \<longrightarrow> (\<exists>m \<le> n. fi_expiring_at new = Some m)))"
proof -
  have perms: "\<forall>flag \<in> {EDIT E, COPY E, TRANSFER E}. has_perm E (given_perms np item) flag \<longrightarrow>
      has_perm E (fi_permissions item) flag" if "giveable E who cl e k np item s" for who item
    using that by (auto simp: giveable_def given_perms_def perms_allowed_def split: option.split)
  from assms show ?thesis
  proof (cases rule: give_Ok)
    case (copied who item to copies)
    let ?new = "item\<lparr>fi_permissions := given_perms np item,
        fi_expiring_at := copy_expiration (fi_expiring_at item) ex\<rparr>"
    have t: "CopiesCount t (cl, e) = Some (copies + 1)" "Fragments t (cl, e, copies + 1) = Some ?new"
      "(e, copies + 1) \<in> set (listed (Inventory t) (to, cl))"
      by (simp_all add: copied(7) give_copy_def Let_def storage_simps)
    have "\<exists>m \<le> n. copy_expiration (fi_expiring_at item) ex = Some m" if "fi_expiring_at item = Some n" for n
      using that by (auto simp: copy_expiration_def split: option.split)
    then show ?thesis
      using copied(1-4) t perms [OF copied(2)]
      by (intro exI [of _ who] exI [of _ item] exI [of _ to] conjI exI [of _ "copies + 1"] exI [of _ ?new])
        (auto simp: giveable_def)
  next
    case (moved who item to)
    let ?new = "item\<lparr>fi_permissions := given_perms np item\<rparr>"
    have t: "Fragments t (cl, e, k) = Some ?new" "(e, k) \<in> set (listed (Inventory t) (to, cl))"
      using moved(2) by (simp_all add: moved(5) giveable_def give_original_def Let_def storage_simps)
    then show ?thesis
      using moved(1-4) perms [OF moved(2)]
      by (intro exI [of _ who] exI [of _ item] exI [of _ to] conjI exI [of _ k] exI [of _ ?new])
        (auto simp: giveable_def)
  qed
qed

lemma sample_give_ok:
  "give sample_fragments_ext (Signed [1]) [7, 8] 1 1 (Id [5]) (Some 3) (Some 9) minted_fragments =
   (Ok, snd (give sample_fragments_ext (Signed [1]) [7, 8] 1 1 (Id [5]) (Some 3) (Some 9) minted_fragments))"
  by (simp add: prod_eq_iff minted_fragments_eq defined_fragments_eq give_def Let_def minted_def has_perm_def
      perms_allowed_def)

theorem give_authorised_witness:
  "let t = snd (give sample_fragments_ext (Signed [1]) [7, 8] 1 1 (Id [5]) (Some 3) (Some 9) minted_fragments) in
   \<exists>k' new. CopiesCount t ([7, 8], 1) = Some k' \<and> (1, k') \<in> set (listed (Inventory t) ([5], [7, 8])) \<and>
     Fragments t ([7, 8], 1, k') = Some new"
  using give_authorised [OF sample_give_ok]
  by (simp add: Let_def minted_fragments_eq minted_def has_perm_def) blast

text \<open>
  A gift of an instance that may be copied gives the recipient a new copy and takes
  nothing from anyone; any other gift moves the instance itself, and in both cases no other
  instance changes its owner or its data.
\<close>

theorem give_effect:
  assumes "instances_inv s" and "CopiesCount s (cl, e) \<noteq> Some (- 1)"
    and "give E og cl e k dest np ex s = (Ok, t)"
  shows "\<exists>item to. Fragments s (cl, e, k) = Some item \<and> lookup_address E (balances s) dest = Some to \<and>
    (if has_perm E (fi_permissions item) (COPY E)
     then \<exists>n. CopiesCount s (cl, e) = Some n \<and> Fragments s (cl, e, n + 1) = None \<and>
       (\<forall>a c i. holds t a c i \<longleftrightarrow> holds s a c i \<or> (a, c, i) = (to, cl, (e, n + 1))) \<and>
       (\<forall>x. x \<noteq> (cl, e, n + 1) \<longrightarrow> Fragments t x = Fragments s x)
     else (\<forall>a c i. holds t a c i \<longleftrightarrow> (if (c, i) = (cl, (e, k)) then a = to else holds s a c i)) \<and>
       (\<forall>x. x \<noteq> (cl, e, k) \<longrightarrow> Fragments t x = Fragments s x))"
  using assms(3)
proof (cases rule: give_Ok)
  case (copied who item to n)
  have "n < n + 1" using copied(5) assms(2) by (intro less_plus_1) auto
  then have "Fragments s (cl, e, n + 1) = None"
    using instances_inv_simps(7) [OF assms(1), of cl e "n + 1"] copied(5) by fastforce
  moreover have "holds t a c i \<longleftrightarrow> holds s a c i \<or> (a, c, i) = (to, cl, (e, n + 1))" for a c i
    unfolding copied(7) by (rule holds_give_copy)
  moreover have "Fragments t x = Fragments s x" if "x \<noteq> (cl, e, n + 1)" for x
    using that by (simp add: copied(7) give_copy_def Let_def)
  ultimately show ?thesis
    using copied(2-5) by (intro exI [of _ item] exI [of _ to] conjI) (auto simp: giveable_def)
next
  case (moved who item to)
  have "holds s who cl (e, k)"
    using moved(2) by (simp add: giveable_def holds_def instances_inv_simps(1) [OF assms(1)])
  then have "holds t a c i \<longleftrightarrow> (if (c, i) = (cl, (e, k)) then a = to else holds s a c i)" for a c i
    unfolding moved(5) by (rule holds_give_original [OF assms(1)])
  moreover have "Fragments t x = Fragments s x" if "x \<noteq> (cl, e, k)" for x
    using that by (simp add: moved(5) give_original_def Let_def storage_simps)
  ultimately show ?thesis
    using moved(2-4) by (intro exI [of _ item] exI [of _ to] conjI) (auto simp: giveable_def)
qed

lemma minted_fragments_invs: "instances_inv minted_fragments" "expiry_inv minted_fragments"
  using fragments_invs_steps [OF minted_reachable defined_fragments_inv sample_iterates] by blast+

theorem give_effect_witness:
  "let t = snd (give sample_fragments_ext (Signed [1]) [7, 8] 1 1 (Id [5]) (Some 3) (Some 9) minted_fragments) in
   \<forall>a c i. holds t a c i \<longleftrightarrow> holds minted_fragments a c i \<or> (a, c, i) = ([5], [7, 8], (1, 2))"
proof -
  have "CopiesCount minted_fragments ([7, 8], 1) = Some 1" "COPY sample_fragments_ext = 4"
    "Fragments minted_fragments ([7, 8], 1, 1) = Some (minted 7 1 None None None)"
    by (simp_all add: minted_fragments_eq)
  then show ?thesis
    using give_effect [OF minted_fragments_invs(1) _ sample_give_ok] by (auto simp: has_perm_def minted_def Let_def)
qed

text \<open>
  Along the chain, the end of block \<open>n\<close> removes exactly the instances that expire at
  \<open>n\<close>, from the storage and from their owners.
\<close>

theorem expired_instances_removed:
  assumes "(fragments_step E)\<^sup>*\<^sup>* s t" and "instances_inv s" and "expiry_inv s" and "iterates E"
    and "Fragments t (cl, e, k) = Some item"
  shows "let u = fragments_on_finalize E n t in
    (if fi_expiring_at item = Some n
     then Fragments u (cl, e, k) = None \<and> (\<forall>a. (e, k) \<notin> set (listed (Inventory u) (a, cl)))
     else Fragments u (cl, e, k) = Some item \<and>
       (\<forall>a. (e, k) \<in> set (listed (Inventory u) (a, cl)) \<longleftrightarrow> (e, k) \<in> set (listed (Inventory t) (a, cl))))"
proof -
  have inv: "instances_inv t" "expiry_inv t" using fragments_invs_steps [OF assms(1-4)] by blast+
  let ?u = "fragments_on_finalize E n t"
  have "instances_inv ?u" by (rule instances_inv_on_finalize [OF inv(1) assms(4)])
  then have "(e, k) \<in> set (listed (Inventory ?u) (a, cl)) \<longleftrightarrow>
      (e, k) \<in> set (listed (Inventory t) (a, cl)) \<and> fi_expiring_at item \<noteq> Some n" for a
    using on_finalize_holds [OF inv(1) assms(4), of n a cl "(e, k)"] expiry_invD(1) [OF inv(2) assms(5), of n]
    by (simp add: holds_def instances_inv_simps(1) inv(1))
  then show ?thesis
    using expiry_invD(1) [OF inv(2) assms(5), of n] assms(5) by (simp add: Let_def on_finalize_fields)
qed

theorem expired_instances_removed_witness:
  "let t = snd (give sample_fragments_ext (Signed [1]) [7, 8] 1 1 (Id [5]) (Some 3) (Some 9) minted_fragments);
       u = fragments_on_finalize sample_fragments_ext 9 t in
   Fragments t ([7, 8], 1, 2) \<noteq> None \<and> Fragments u ([7, 8], 1, 2) = None \<and>
   (\<forall>a. (1, 2) \<notin> set (listed (Inventory u) (a, [7, 8])))"
proof -
  let ?t = "snd (give sample_fragments_ext (Signed [1]) [7, 8] 1 1 (Id [5]) (Some 3) (Some 9) minted_fragments)"
  have step: "(fragments_step sample_fragments_ext)\<^sup>*\<^sup>* minted_fragments ?t"
  proof (rule r_into_rtranclp, rule fragments_step.call)
    show "fragments_dispatch sample_fragments_ext (Signed [1]) (Give [7, 8] 1 1 (Id [5]) (Some 3) (Some 9))
      minted_fragments = (Ok, ?t)" using sample_give_ok by simp
  qed (simp add: minted_fragments_eq)
  have "Fragments ?t ([7, 8], 1, 2) = Some (minted 3 1 None (Some 9) None)"
    by (simp add: minted_fragments_eq defined_fragments_eq give_def Let_def minted_def has_perm_def
      perms_allowed_def give_copy_def copy_expiration_def)
  from expired_instances_removed [OF step minted_fragments_invs sample_iterates this, of 9]
  show ?thesis using \<open>Fragments ?t ([7, 8], 1, 2) = _\<close> by (simp add: minted_def Let_def)
qed

text \<open>
  C35. A call that fails has changed nothing, but for one case: a purchase whose payment is
  refused after the instances have been minted.
\<close>

theorem fragments_failure:
  assumes "fragments_dispatch E og c s = (r, t)" and "r \<noteq> Ok" and "t \<noteq> s"
  shows "\<exists>f opt who sale. c = Buy f opt \<and> og = Signed who \<and> Publishing s f = Some sale \<and>
    r = Err (Module Fragments_InsufficientBalance) \<and>
    mint_fragments E who f (Some sale) opt (quantity_of opt) (block_number s) None (pd_amount sale) s = (Ok, t)"
proof -
  obtain f opt where c: "c = Buy f opt" using fragments_dispatch_failure [OF assms(1,2)] assms(3) by blast
  with assms(1) have "buy E og f opt s = (r, t)" by simp
  then show ?thesis
  proof (cases rule: buy_cases)
    case refused
    then show ?thesis using assms(3) by simp
  next
    case (minted who sale d vault s1)
    then show ?thesis using c assms(2) by (auto split: option.splits)
  qed
qed

text \<open>The currency of this environment refuses every transfer, for instance of a frozen account.\<close>

definition frozen_ext :: "(unit, u8) fragments_ext" where
  "frozen_ext = sample_fragments_ext\<lparr>transfer_keep_alive := (\<lambda>_ _ _ _. None)\<rparr>"

theorem fragments_failure_witness:
  "let (r, t) = fragments_dispatch frozen_ext (Signed [5]) (Buy [7, 8] (Quantity 2)) minted_fragments in
   r = Err (Module Fragments_InsufficientBalance) \<and> editions_count t [7, 8] = 4"
proof -
  have four: "edition_range 2 2 = [2, 3]" by (simp add: edition_range_def upt_rec)
  obtain r t where call: "fragments_dispatch frozen_ext (Signed [5]) (Buy [7, 8] (Quantity 2)) minted_fragments = (r, t)"
    by fastforce
  have r: "r \<noteq> Ok" and e: "editions_count t [7, 8] = 4"
    using call by (auto simp: frozen_ext_def get_vault_id_def minted_fragments_eq defined_fragments_eq buy_def
        mint_fragments_def Let_def check_options_def take_units_def editions_count_def sat_mul_def can_pay_def
        pay_def sample_definition_def sample_sale_def sample_metadata_def four)
  have "editions_count minted_fragments [7, 8] = 2" by (simp add: minted_fragments_eq editions_count_def)
  with e have "t \<noteq> minted_fragments" by auto
  from fragments_failure [OF call r this] e show ?thesis unfolding call by auto
qed

text \<open>
  A definition never changes and never disappears, and a new one is made by the owner
  of its Proto-Fragment while that is not detached.
\<close>

theorem definitions_permanent:
  assumes "(fragments_step E)\<^sup>*\<^sup>* s t" and "fragments_dispatch E og c t = (r, u)"
    and "Definitions u f = Some d"
  shows "(Definitions s f \<noteq> None \<longrightarrow> Definitions s f = Some d) \<and>
    (Definitions t f = None \<longrightarrow> og = Signed (fd_creator d) \<and>
       owner_of t (fd_proto_hash d) = Some (User (fd_creator d)) \<and> DetachedHashes t (fd_proto_hash d) = None)"
proof (intro conjI impI)
  have new: "Definitions u = Definitions t \<or> (\<exists>f d who. og = Signed who \<and> Definitions t f = None \<and>
      Definitions u = (Definitions t)(f \<mapsto> d) \<and> fd_creator d = who \<and>
      ensure_proto_owner t (fd_proto_hash d) who = Ok)"
    by (rule fragments_dispatch_definitions [OF assms(2)])
  { assume "Definitions s f \<noteq> None"
    then obtain d' where "Definitions s f = Some d'" by blast
    moreover from this have "Definitions t f = Some d'" by (rule definition_steps [OF assms(1)])
    ultimately show "Definitions s f = Some d" using new assms(3) by (auto split: if_splits)
  next
    assume "Definitions t f = None"
    with new assms(3) have "og = Signed (fd_creator d) \<and> ensure_proto_owner t (fd_proto_hash d) (fd_creator d) = Ok"
      by (auto split: if_splits)
    then show "og = Signed (fd_creator d)" "owner_of t (fd_proto_hash d) = Some (User (fd_creator d))"
      "DetachedHashes t (fd_proto_hash d) = None"
      by (auto simp: ensure_proto_owner_Ok owner_of_def) }
qed

theorem definitions_permanent_witness:
  "let (r, u) = fragments_dispatch sample_fragments_ext (Signed [1]) (Create [7] sample_metadata 7 None (Some 2))
     empty_fragments in owner_of empty_fragments [7] = Some (User [1]) \<and> Definitions u [7, 8] \<noteq> None"
proof -
  obtain r u where call: "fragments_dispatch sample_fragments_ext (Signed [1])
      (Create [7] sample_metadata 7 None (Some 2)) empty_fragments = (r, u)" by fastforce
  then have d: "Definitions u [7, 8] = Some sample_definition"
    by (auto simp: create_def Let_def ensure_proto_owner_def sample_definition_def)
  from definitions_permanent [OF rtranclp.rtrancl_refl call d] d show ?thesis
    unfolding call by (simp add: sample_definition_def)
qed

text \<open>
  The pallet refines the ledger of instances. Every call is one event of the ledger: an
  issue of new instances to the signer who mints or buys, or a copy given; a move by the
  signer who owns the instance; or nothing. The end of a block burns what expires. So no call
  takes an instance from anyone but the signer.
\<close>

theorem fragments_refine_ledger:
  assumes "instances_inv s" and "iterates E" and "represents s L"
  shows "(\<forall>og c r t. fragments_dispatch E og c s = (r, t) \<and> call_fits s c \<longrightarrow>
      (\<exists>ev L'. ledger_step L ev L' \<and> represents t L' \<and> signed_by og c ev)) \<and>
    (\<exists>L'. ledger_step L (Burn (set (listed (Expirations s) n))) L' \<and> represents (fragments_on_finalize E n s) L')"
  using ledger_dispatch [OF assms(1,3)] ledger_on_finalize [OF assms] by blast

theorem fragments_refine_ledger_witness:
  "\<exists>L ev L'. represents minted_fragments L \<and> ledger_step L ev L' \<and>
     represents (snd (give sample_fragments_ext (Signed [1]) [7, 8] 1 1 (Id [5]) (Some 3) (Some 9) minted_fragments)) L' \<and>
     signed_by (Signed [1]) (Give [7, 8] 1 1 (Id [5]) (Some (3 :: u8)) (Some 9)) ev"
proof -
  obtain L where L: "represents minted_fragments L" using represents_exists [OF minted_fragments_invs(1)] by blast
  have "fragments_dispatch sample_fragments_ext (Signed [1]) (Give [7, 8] 1 1 (Id [5]) (Some 3) (Some 9)) minted_fragments =
    (Ok, snd (give sample_fragments_ext (Signed [1]) [7, 8] 1 1 (Id [5]) (Some 3) (Some 9) minted_fragments))"
    using sample_give_ok by simp
  moreover have "call_fits minted_fragments (Give [7, 8] 1 1 (Id [5]) (Some (3 :: u8)) (Some 9))"
    by (simp add: minted_fragments_eq)
  ultimately show ?thesis
    using fragments_refine_ledger [OF minted_fragments_invs(1) sample_iterates L] L by blast
qed

end
