(* ===== verification/Runtime_Properties.thy ===== *)
theory Runtime_Properties
  imports Chain_Spec Runtime_History Fragments_Properties Detach_Properties "HOL-Library.Multiset"
begin

text \<open>
  Properties of the whole chain: the invariant between blocks, the order of the hooks, who
  may change what, and the way of a detachment through two pallets and the off-chain worker.
\<close>

section \<open>A concrete chain\<close>

text \<open>The sample environment with a hash of 32 bytes, and the genesis of a network with one authority.\<close>

definition chain_ext :: "(unit, u8) fragments_ext" where
  "chain_ext = sample_fragments_ext\<lparr>blake2_256 := (\<lambda>b. take 32 (b @ replicate 32 0))\<rparr>"

lemma chain_ext_simps [simp]:
  "blake2_256 chain_ext = (\<lambda>b. take 32 (b @ replicate 32 0))" "iter_accounts chain_ext = sorted_list_of_set"
  by (simp_all add: chain_ext_def)


definition sample_crypto :: "bytes crypto" where
  "sample_crypto = \<lparr>ed25519_from_string = Some, sr25519_from_string = Some, ecdsa_from_string = Some,
     ecdsa_from_seed_slice = Some, pair_public = (\<lambda>q. q), pair_sign = (\<lambda>_ m. m), into_account = (\<lambda>b. b)\<rparr>"

definition sample_genesis :: genesis_config where
  "sample_genesis = testnet_genesis [] [\<lparr>aura_id = [1], grandpa_id = [1], upload_id = [1], eth_id = [3], detach_id = [7]\<rparr>] [1] [[1]]"

definition sample_chain :: "(unit, nat, u8) fragments_state" where
  "sample_chain = genesis_state sample_genesis ()"

lemma sample_chain_finalize: "runtime_on_finalize E sample_chain = sample_chain"
  by (simp add: runtime_on_finalize_def protos_on_finalize_def fragments_on_finalize_def detach_on_finalize_def
      sample_chain_def genesis_state_def blank_state_def Let_def)

text \<open>The first block holds one upload by account \<open>[1]\<close>.\<close>

definition first_upload :: "(nat, u8) extrinsic" where
  "first_upload = Signed_Extrinsic [1] (Protos_Call (Upload [] 3 [[4]] None (Some 9) [7]))"

definition after_upload :: "(unit, nat, u8) fragments_state" where
  "after_upload = snd (the (apply_extrinsic runtime_config chain_ext True first_upload
     (sample_chain\<lparr>block_number := 1, extrinsic_index := Some 0\<rparr>)))"

definition some_export :: export_data where
  "some_export = \<lparr>exp_chain = EthereumGoerli, exp_owner = [], exp_nonce = 1\<rparr>"

abbreviation "seven \<equiv> (7 :: u8) # replicate 31 0"

lemma apply_first_upload:
  "apply_extrinsic runtime_config chain_ext True first_upload (sample_chain\<lparr>block_number := 1, extrinsic_index := Some 0\<rparr>)
   = Some (Ok, after_upload)"
  by (simp add: after_upload_def apply_extrinsic_def first_upload_def dispatch_def in_pallet_def upload_def Let_def
      sample_chain_def genesis_state_def blank_state_def key_index_def index_data_def)

lemma after_upload_simps [simp]:
  "Protos after_upload = [seven \<mapsto> sample_proto]" "DetachedHashes after_upload = Map.empty"
  "PendingUnlinks after_upload = []" "Expirations after_upload = Map.empty" "DetachRequests after_upload = []"
  "EthereumAuthorities after_upload = {[3]}" "detach_FragKeys after_upload = {[7]}"
  "DetachNonces after_upload = Map.empty"
proof -
  have "take 32 (7 # replicate 32 0) = seven" by simp
  then show "Protos after_upload = [seven \<mapsto> sample_proto]" "DetachedHashes after_upload = Map.empty"
    "PendingUnlinks after_upload = []" "Expirations after_upload = Map.empty" "DetachRequests after_upload = []"
    "EthereumAuthorities after_upload = {[3]}" "detach_FragKeys after_upload = {[7]}"
    "DetachNonces after_upload = Map.empty"
    by (simp_all add: after_upload_def apply_extrinsic_def first_upload_def dispatch_def in_pallet_def upload_def Let_def
      sample_chain_def genesis_state_def blank_state_def key_index_def index_data_def sample_proto_def
      sample_genesis_def testnet_genesis_def)
qed


section \<open>Properties\<close>



text \<open>
  C32. The hooks at the end of a block may run in any order: the result is the same.
\<close>

theorem hooks_any_order:
  assumes "mset hooks = {# protos_on_finalize, fragments_on_finalize E (block_number s), detach_on_finalize #}"
  shows "fold (\<lambda>hook. hook) hooks s = runtime_on_finalize E s"
proof -
  let ?hooks = "[protos_on_finalize, fragments_on_finalize E (block_number s), detach_on_finalize]"
  have "set hooks = set ?hooks" using arg_cong [OF assms, of set_mset] by simp
  then have "f \<circ> g = g \<circ> f" if "f \<in> set hooks" "g \<in> set hooks" for f g
    using that by (auto simp: fun_eq_iff hooks_protos_fragments hooks_detach_protos hooks_detach_fragments)
  then have "fold (\<lambda>hook. hook) hooks = fold (\<lambda>hook. hook) ?hooks"
    by (intro fold_multiset_equiv) (simp_all add: assms)
  then show ?thesis by (simp add: runtime_on_finalize_def)
qed

theorem hooks_any_order_witness:
  "detach_on_finalize (protos_on_finalize (fragments_on_finalize chain_ext (block_number after_upload) after_upload)) =
   runtime_on_finalize chain_ext after_upload"
  using hooks_any_order [of "[fragments_on_finalize chain_ext (block_number after_upload), protos_on_finalize, detach_on_finalize]"
      chain_ext after_upload] by (simp add: add_mset_commute)

text \<open>
  C2. Who may change what. A Proto-Fragment changes only by a call its owner signed, while it
  is not detached. Detachments and nonces change only by an unsigned transaction with a valid
  signature of a registered key. The locked amounts change only by such a transaction, and
  only with a signature of the Ethereum account itself. An account is linked only by itself,
  with a signature of the Ethereum account over its name. The authorities and the registered
  keys change only by root.
\<close>

theorem extrinsic_authorised:
  assumes "apply_extrinsic C E transactional x s = Some (r, t)"
  shows "(\<forall>h p. Protos s h = Some p \<and> Protos t h \<noteq> Some p \<longrightarrow> DetachedHashes s h = None \<and>
      (\<exists>who c. x = Signed_Extrinsic who (Protos_Call c) \<and> proto_owned_by p = User who)) \<and>
    (DetachedHashes t \<noteq> DetachedHashes s \<or> DetachNonces t \<noteq> DetachNonces s \<longrightarrow>
      (\<exists>d sig key. x = Unsigned_Extrinsic (Detach_Call (Internal_finalize_detach d sig)) \<and>
         decode_multi_signer E (encode_public E (det_public d)) = Some (Ed25519 key) \<and>
         key \<in> detach_FragKeys s \<and> verify_detach E d sig)) \<and>
    (EthLockedFrag t \<noteq> EthLockedFrag s \<longrightarrow>
      (\<exists>d sig key. x = Unsigned_Extrinsic (Accounts_Call (Internal_lock_update d sig)) \<and>
         decode_multi_signer E (encode_public E (elu_public d)) = Some (Ed25519 key) \<and>
         key \<in> accounts_FragKeys s \<and> verify_lock E d sig \<and>
         recover_address E (elu_signature d) (lock_message_hash C E d) = Some (elu_sender d))) \<and>
    (\<forall>a k. EVMLinks t a = Some k \<and> EVMLinks s a \<noteq> Some k \<longrightarrow>
      (\<exists>sig. x = Signed_Extrinsic a (Accounts_Call (Link sig)) \<and>
         recover_address E sig (link_message_hash C E a) = Some k)) \<and>
    (EthereumAuthorities t \<noteq> EthereumAuthorities s \<or> detach_FragKeys t \<noteq> detach_FragKeys s \<or>
      accounts_FragKeys t \<noteq> accounts_FragKeys s \<longrightarrow> (\<exists>call. x = Sudo_Extrinsic call))"
    (is "?protos t \<and> ?detached t \<and> ?locked t \<and> ?linked t \<and> ?keys t")
  using assms
proof (cases rule: apply_extrinsic_Some)
  case (1 og call u)
  have origin: "x = Signed_Extrinsic who call" if "og = Signed who" for who using 1(1) that by (cases x) auto
  have none: "x = Unsigned_Extrinsic call \<and> runtime_validate_unsigned E InBlock call s" if "og = NoOrigin"
    using 1(1,4) that by (cases x) auto
  have root: "x = Sudo_Extrinsic call" if "og = Root" using 1(1) that by (cases x) auto
  from 1(2) have "?protos u \<and> ?detached u \<and> ?locked u \<and> ?linked u \<and> ?keys u"
  proof (cases rule: runtime_dispatch_cases)
    case (protos c r')
    note same = protos_dispatch_frame [OF protos(2)]
    have "?protos u"
      using protos_dispatch_change [OF protos(2)] origin protos(1) by blast
    moreover have "?detached u \<and> ?locked u \<and> ?linked u \<and> ?keys u"
      using same by (simp add: same_detach_def same_accounts_def)
    ultimately show ?thesis by (rule conjI)
  next
    case (fragments c r')
    then show ?thesis using beneath_dispatch [OF fragments(2)]
      by (simp add: beneath_def same_protos_def same_detach_def same_accounts_def)
  next
    case (detach c r')
    note same = detach_dispatch_frame [OF detach(2)]
    have "?detached u" using detach_changes_signed [OF detach(2)] none detach(1) by blast
    moreover have "?keys u"
      using detach_changes_root [OF detach(2)] root same by (auto simp: same_accounts_def)
    moreover have "?protos u \<and> ?locked u \<and> ?linked u"
      using same by (simp add: same_protos_def same_accounts_def)
    ultimately show ?thesis by (elim conjE) (intro conjI; assumption)
  next
    case (accounts c r')
    note same = beside_accounts_dispatch [OF accounts(2)] note changes = accounts_dispatch_changes [OF accounts(2)]
    have "?locked u" using locked_changes_signed [OF accounts(2)] none accounts(1) by blast
    moreover have "?linked u" using changes(3) origin accounts(1) by blast
    moreover have "?keys u"
      using changes(2) root same by (auto simp: beside_accounts_def same_detach_def)
    ultimately show ?thesis using same by (simp add: beside_accounts_def same_protos_def same_detach_def)
  qed
  then show ?thesis using 1(5) by (cases "u = t") auto
qed

theorem extrinsic_authorised_witness:
  "\<exists>who. first_upload = Signed_Extrinsic who (Protos_Call (Upload [] 3 [[4]] None (Some 9) [7])) \<and>
    detach_FragKeys after_upload = detach_FragKeys sample_chain"
proof -
  have "detach_FragKeys (sample_chain\<lparr>block_number := 1, extrinsic_index := Some 0\<rparr>) = detach_FragKeys sample_chain"
    by (simp add: sample_chain_def genesis_state_def)
  moreover have "\<nexists>call. first_upload = Sudo_Extrinsic call" by (simp add: first_upload_def)
  ultimately show ?thesis
    using extrinsic_authorised [OF apply_first_upload] by (simp add: first_upload_def)
qed

text \<open>
  C8. Whatever the chain does, a Proto-Fragment stays stored and only grows; a detached one
  stays detached and exactly as it is.
\<close>

theorem detached_forever:
  assumes "(chain_step C E transactional)\<^sup>*\<^sup>* s t" and "Protos s h = Some p"
  shows "\<exists>q. Protos t h = Some q \<and> evolves p q \<and>
    (DetachedHashes s h \<noteq> None \<longrightarrow> q = p \<and> DetachedHashes t h \<noteq> None)"
proof -
  have kept: "history_kept s t" by (rule history_kept_steps [OF assms(1)])
  then obtain q where "Protos t h = Some q" "evolves p q" "h \<in> dom (DetachedHashes s) \<longrightarrow> q = p"
    using assms(2) unfolding history_kept_def by blast
  moreover have "h \<in> dom (DetachedHashes t)" if "h \<in> dom (DetachedHashes s)"
    using kept that unfolding history_kept_def by blast
  ultimately show ?thesis by (metis domIff)
qed

theorem detached_forever_witness:
  "Protos (runtime_on_finalize chain_ext (after_upload\<lparr>DetachedHashes := [seven \<mapsto> some_export]\<rparr>)
     \<lparr>block_number := 2\<rparr>) seven = Some sample_proto"
proof -
  let ?s = "after_upload\<lparr>DetachedHashes := [seven \<mapsto> some_export]\<rparr>" let ?t = "runtime_on_finalize chain_ext ?s"
  have "chain_step runtime_config chain_ext True ?s (?t\<lparr>block_number := block_number ?t + 1\<rparr>)"
    by (rule chain_step.next_block) simp
  then have "(chain_step runtime_config chain_ext True)\<^sup>*\<^sup>* ?s (?t\<lparr>block_number := block_number ?t + 1\<rparr>)" by blast
  from detached_forever [OF this, of seven sample_proto] show ?thesis by simp
qed





text \<open>
  The keystore of a node and the pairs of the chain specification are the same cryptography:
  the keystore signs with the pair, and generates the ECDSA pair of a seed given in
  hexadecimal.
\<close>

definition same_keys :: "('q, 'v) crypto_scheme \<Rightarrow> ('k, 'z) offchain_ext_scheme \<Rightarrow> 'q \<Rightarrow> 'k \<Rightarrow> bool" where
  "same_keys K W pair k \<longleftrightarrow> (\<forall>m. ed25519_sign W k (pair_public K pair) m = Some (pair_sign K pair m)) \<and>
     (\<forall>b q. ecdsa_from_seed_slice K b = Some q \<longrightarrow> (\<exists>x. hex_encode_to_slice W b = Some x \<and>
        pair_public K q \<in> set (ecdsa_public_keys W (ecdsa_generate W k (ascii ''0x'' @ x)))))"

text \<open>
  The genesis names as Ethereum authority of a seed the very key that the off-chain worker
  of a node with this seed derives.
\<close>

lemma authority_can_sign:
  assumes "ed25519_from_string K (ascii ''//'' @ seed) = Some pair"
    and "authority_keys_from_seed E K seed = Some authority" and "authority \<in> set authorities"
    and "ed25519_public_keys W (keystore w) = [pair_public K pair]" and "frag_ecdsa_keys w = None"
    and "same_keys K W pair (keystore w)"
  shows "\<exists>w1. update_keys E W w = (True, w1) \<and>
    (\<forall>r. sign_request E W (genesis_state (testnet_genesis wasm authorities root endowed) b) (keystore w1) r \<noteq> Failed NoValidator)"
proof -
  let ?sig = "pair_sign K pair (ascii ''fragments-frag-ecdsa-keys'' @ pair_public K pair)"
  from assms(2) have "get_from_seed_to_eth E K seed = Some (eth_id authority)"
    by (auto simp: authority_keys_from_seed_def split: option.splits)
  then obtain q where q: "ecdsa_from_seed_slice K (keccak_256 E ?sig) = Some q" "eth_id authority = pair_public K q"
    by (auto simp: get_from_seed_to_eth_def assms(1) Let_def)
  then obtain x where x: "hex_encode_to_slice W (keccak_256 E ?sig) = Some x"
    and mem: "eth_id authority \<in> set (ecdsa_public_keys W (ecdsa_generate W (keystore w) (ascii ''0x'' @ x)))"
    using assms(6) q unfolding same_keys_def by metis
  let ?w1 = "w\<lparr>keystore := ecdsa_generate W (keystore w) (ascii ''0x'' @ x), frag_ecdsa_keys := Some {pair_public K pair}\<rparr>"
  let ?s = "genesis_state (testnet_genesis wasm authorities root endowed) b"
  have "ed25519_sign W (keystore w) (pair_public K pair) m = Some (pair_sign K pair m)" for m
    using assms(6) by (simp add: same_keys_def)
  then have update: "update_keys E W w = (True, ?w1)"
    using assms(4,5) x by (simp add: update_keys_def generate_seed_from_ed_key_def get_keys_set_from_local_storage_def)
  have "eth_id authority \<in> EthereumAuthorities ?s"
    using assms(3) by (simp add: genesis_state_def testnet_genesis_def)
  then have "find (\<lambda>key. key \<in> EthereumAuthorities ?s) (ecdsa_public_keys W (keystore ?w1)) \<noteq> None"
    using mem by (simp add: find_None_iff) blast
  then have "sign_request E W ?s (keystore ?w1) r \<noteq> Failed NoValidator" for r
    by (auto simp: sign_request_def Let_def split: option.splits)
  then show ?thesis using update by blast
qed

end
