(* ===== verification/Node_Properties.thy ===== *)
theory Node_Properties
  imports Node_Service Runtime_Properties
begin

text \<open>
  Properties of the node as it is started from the command line: what runs, which Ethereum node
  the accounts worker asks, and why the workers of a development node can sign.
\<close>

section \<open>What a started node is\<close>

text \<open>
  C30. A node that starts uses the local keystore and runs exactly the tasks its configuration
  asks for; only a development authority gets a test key. The accounts worker asks the
  Ethereum node of the command line, whose text is UTF-8, and without one it does nothing.
\<close>

theorem started_node:
  assumes "run_node E K V from_json_file wasm_binary runner chain geth_url world = Started n"
    and "\<forall>spec. conf_chain_spec (runner spec) = spec" and "GETH_URL world = None"
  shows "\<exists>spec. load_spec E K from_json_file wasm_binary chain = Inr spec \<and> keystore_remote (runner spec) = None \<and>
    (spec_type spec = Development \<and> role_is_authority (runner spec) \<or> node_keystore n = local_keystore V) \<and>
    (Offchain_Workers \<in> set (node_tasks n) \<longleftrightarrow> offchain_worker_enabled (runner spec)) \<and>
    (Aura_Authoring \<in> set (node_tasks n) \<longleftrightarrow> role_is_authority (runner spec)) \<and>
    (Grandpa_Voter \<in> set (node_tasks n) \<longleftrightarrow> \<not> disable_grandpa (runner spec)) \<and>
    get_geth_url (node_world n) = geth_url \<and>
    (geth_url = None \<longrightarrow> accounts_offchain_worker C X contracts (node_world n) = Some (Value (), node_world n))"
proof -
  obtain spec where spec: "load_spec E K from_json_file wasm_binary chain = Inr spec"
    and full: "new_full V (runner spec) geth_url world = Started n"
    using assms(1) by (auto simp: run_node_def split: sum.splits)
  note n = new_full_Started [OF full]
  have "get_geth_url (node_world n) = geth_url"
    using assms(3) by (simp add: n(4) clamor_init_def get_geth_url_def split: option.split)
  moreover from this have "geth_url = None \<longrightarrow> accounts_offchain_worker C X contracts (node_world n) = Some (Value (), node_world n)"
    by (simp add: accounts_offchain_worker_def sync_partner_contracts_def)
  moreover have "spec_type spec = Development \<and> role_is_authority (runner spec) \<or> node_keystore n = local_keystore V"
    using n(3) assms(2) by (auto simp: add_test_keys_def split: if_splits)
  ultimately show ?thesis using spec n(1,5) by (intro exI [of _ spec]) auto
qed

text \<open>A keystore with Ed25519 keys and ECDSA keys, and a world in which every step of the start succeeds.\<close>

definition sample_service :: "(bytes list \<times> bytes list) service_ext" where
  "sample_service = \<lparr>step_error = (\<lambda>_. None), local_keystore = ([], []), genesis_block_known = True,
     insert_unknown = (\<lambda>(eds, ecs) _ _ public. Some (public # eds, ecs))\<rparr>"

definition sample_runner :: "chain_spec \<Rightarrow> configuration" where
  "sample_runner spec = \<lparr>keystore_remote = None, telemetry_endpoints = None, role_is_authority = True,
     offchain_worker_enabled = True, disable_grandpa = False, conf_chain_spec = spec\<rparr>"

definition no_file :: "string \<Rightarrow> string + chain_spec" where "no_file _ = Inl ''no such file''"

text \<open>The keys are the secrets, but for Bob's.\<close>

definition bob_crypto :: "bytes crypto" where
  "bob_crypto = sample_crypto\<lparr>pair_public := (\<lambda>q. if q = ascii ''//Bob'' then bobs else q)\<rparr>"

lemma sample_start:
  "run_node chain_ext bob_crypto sample_service no_file (Some []) sample_runner chain geth_url world =
     (case load_spec chain_ext bob_crypto no_file (Some []) chain of
        Inl e \<Rightarrow> Refused (ascii e)
      | Inr spec \<Rightarrow> Started \<lparr>node_keystore = (if spec_type spec = Development then [bobs] else [], []),
          node_world = clamor_init geth_url world, node_tasks = [Offchain_Workers, Rpc_And_Pool, Aura_Authoring, Grandpa_Voter]\<rparr>)"
  by (simp add: run_node_def new_full_def new_partial_def authoring_def finality_def add_test_keys_def sample_service_def sample_runner_def Let_def
      split: sum.split)

definition sample_world :: "unit sync_world" where
  "sample_world = \<lparr>outside = (), GETH_URL = None, frag_sync_last_block = None, submitted_locks = []\<rparr>"

theorem started_node_witness:
  "\<exists>n. run_node chain_ext bob_crypto sample_service no_file (Some []) sample_runner ''live'' None sample_world = Started n \<and>
     node_keystore n = ([], []) \<and> Offchain_Workers \<in> set (node_tasks n) \<and>
     (\<forall>X. accounts_offchain_worker runtime_config X [[9]] (node_world n) = Some (Value (), node_world n))"
proof -
  let ?n = "\<lparr>node_keystore = ([], []), node_world = sample_world, node_tasks = [Offchain_Workers, Rpc_And_Pool, Aura_Authoring, Grandpa_Voter]\<rparr>"
  have run: "run_node chain_ext bob_crypto sample_service no_file (Some []) sample_runner ''live'' None sample_world = Started ?n"
    by (simp add: sample_start load_spec_def live_config_def clamor_init_def)
  have "\<forall>spec. conf_chain_spec (sample_runner spec) = spec" "GETH_URL sample_world = None"
    by (simp_all add: sample_runner_def sample_world_def)
  from started_node [OF run this, where C = runtime_config and contracts = "[[9]]"] show ?thesis using run by auto
qed

section \<open>A development node\<close>

lemma all_some_map: "all_some xs = Some ys \<Longrightarrow> xs = map Some ys"
  by (induction xs arbitrary: ys rule: all_some.induct) auto

text \<open>The keystore has the test key and no other, and agrees with the pair on keys and signatures.\<close>

definition test_key_stored :: "('q, 'v) crypto_scheme \<Rightarrow> ('k, 'z) offchain_ext_scheme \<Rightarrow> ('k, 'u) service_ext_scheme \<Rightarrow> 'q \<Rightarrow> bool" where
  "test_key_stored K W V bob \<longleftrightarrow>
     (\<forall>k. insert_unknown V (local_keystore V) FRAG_KEY_TYPE (ascii ''//Bob'') bobs = Some k \<longrightarrow>
        ed25519_public_keys W k = [bobs] \<and> same_keys K W bob k)"

text \<open>
  C21. A node started for the development chain as an authority can detach: the test key it stores
  is one of the keys whose transactions both pallets accept from genesis on, and the ECDSA key
  that the worker derives from it is an Ethereum authority of the genesis, so no request
  fails for want of a key. This rests on \<open>bobs\<close> being the Ed25519 key of \<open>//Bob\<close>.
\<close>

theorem development_node_signs:
  fixes s :: "('b, 'c, 'p) fragments_state"
  assumes "run_node E K V from_json_file wasm_binary runner ''dev'' geth_url world = Started n"
    and "\<forall>spec. conf_chain_spec (runner spec) = spec \<and> role_is_authority (runner spec)"
    and "load_spec E K from_json_file wasm_binary ''dev'' = Inr spec" and "spec_genesis spec = Some G"
    and "genesis_build G (blank_state b) = (Ok, s)"
    and "ed25519_from_string K (ascii ''//Bob'') = Some bob" and "pair_public K bob = bobs" and "test_key_stored K W V bob"
  shows "bobs \<in> detach_FragKeys s \<and> bobs \<in> accounts_FragKeys s \<and>
    (\<exists>w1. update_keys E W \<lparr>keystore = node_keystore n, frag_ecdsa_keys = None, submitted = []\<rparr> = (True, w1) \<and>
      (\<forall>r. sign_request E W s (keystore w1) r \<noteq> Failed NoValidator))"
proof -
  have s: "s = genesis_state G b" using assms(5) by (simp add: genesis_build_ok)
  from assms(3) obtain code where dev: "spec_type spec = Development"
    "spec_genesis spec = seeds_genesis E K code [''Alice'', ''Bob''] ''Alice''
             [''Alice'', ''Bob'', ''Alice//stash'', ''Bob//stash'', ''Dave'']"
    by (auto simp: load_spec_def development_config_def split: option.splits)
  with assms(4) obtain authorities root endowed where
    authorities: "all_some (map (\<lambda>s. authority_keys_from_seed E K (ascii s)) [''Alice'', ''Bob'']) = Some authorities"
    and G: "G = testnet_genesis code authorities root endowed"
    by (auto simp: seeds_genesis_def split: option.splits)
  from all_some_map [OF authorities] obtain authority where a: "authority_keys_from_seed E K (ascii ''Bob'') = Some authority"
    and mem: "authority \<in> set authorities" by (cases authorities) auto
  have bob: "ed25519_from_string K (ascii ''//'' @ ascii ''Bob'') = Some bob" using assms(6) by (simp add: ascii_def)
  have "detach_id authority = bobs"
    using a assms(7) bob by (auto simp: authority_keys_from_seed_def get_from_seed_def split: option.splits)
  then have keys: "bobs \<in> detach_FragKeys s" "bobs \<in> accounts_FragKeys s"
    using mem by (auto simp: s G genesis_state_def testnet_genesis_def intro!: image_eqI [of _ _ authority])
  have "new_full V (runner spec) geth_url world = Started n" using assms(1,3) by (simp add: run_node_def)
  then have "add_test_keys V (runner spec) (local_keystore V) = Some (node_keystore n)" by (rule new_full_Started)
  then have "ed25519_public_keys W (node_keystore n) = [pair_public K bob]" "same_keys K W bob (node_keystore n)"
    using assms(2,7,8) dev(1) by (simp_all add: add_test_keys_def test_key_stored_def)
  then show ?thesis
    using authority_can_sign [OF bob a mem, of W "\<lparr>keystore = node_keystore n, frag_ecdsa_keys = None, submitted = []\<rparr>"] keys
    by (simp add: s G)
qed

definition bob_offchain :: "(bytes list \<times> bytes list) offchain_ext" where
  "bob_offchain = \<lparr>ed25519_public_keys = fst, ed25519_sign = (\<lambda>_ _ m. Some m),
     ecdsa_generate = (\<lambda>k seed. (fst k, (if drop 2 seed = ascii ''//Bob'' then bobs else drop 2 seed) # snd k)),
     ecdsa_public_keys = snd, ecdsa_sign_prehashed = (\<lambda>_ _ b. Some (take 65 b)), hex_encode_to_slice = Some,
     send_unsigned = (\<lambda>_ f. Some (f (Ed25519 bobs), [1]))\<rparr>"

theorem development_node_signs_witness:
  "\<exists>n spec G w1 (s :: (unit, nat, u8) fragments_state). run_node chain_ext bob_crypto sample_service no_file (Some []) sample_runner ''dev'' None sample_world = Started n \<and>
     load_spec chain_ext bob_crypto no_file (Some []) ''dev'' = Inr spec \<and> spec_genesis spec = Some G \<and>
     genesis_build G (blank_state ()) = (Ok, s) \<and> bobs \<in> detach_FragKeys s \<and>
     update_keys chain_ext bob_offchain \<lparr>keystore = node_keystore n, frag_ecdsa_keys = None, submitted = []\<rparr> = (True, w1) \<and>
     sign_request chain_ext bob_offchain s (keystore w1) (sample_request 5 20) \<noteq> Failed NoValidator"
proof -
  let ?n = "\<lparr>node_keystore = ([bobs], []), node_world = sample_world, node_tasks = [Offchain_Workers, Rpc_And_Pool, Aura_Authoring, Grandpa_Voter]\<rparr>"
  obtain spec where spec: "load_spec chain_ext bob_crypto no_file (Some []) ''dev'' = Inr spec" "spec_type spec = Development"
    and "spec_genesis spec = seeds_genesis chain_ext bob_crypto [] [''Alice'', ''Bob''] ''Alice''
             [''Alice'', ''Bob'', ''Alice//stash'', ''Bob//stash'', ''Dave'']"
    by (simp add: load_spec_def development_config_def)
  moreover obtain G where "seeds_genesis chain_ext bob_crypto [] [''Alice'', ''Bob''] ''Alice''
             [''Alice'', ''Bob'', ''Alice//stash'', ''Bob//stash'', ''Dave''] = Some G"
    by (simp add: seeds_genesis_def authority_keys_from_seed_def get_from_seed_def get_from_seed_to_eth_def
        get_account_id_from_seed_def bob_crypto_def sample_crypto_def Let_def)
  ultimately have G: "spec_genesis spec = Some G" by simp
  have run: "run_node chain_ext bob_crypto sample_service no_file (Some []) sample_runner ''dev'' None sample_world = Started ?n"
    by (simp add: sample_start spec clamor_init_def)
  have runner: "\<forall>spec. conf_chain_spec (sample_runner spec) = spec \<and> role_is_authority (sample_runner spec)"
    by (simp add: sample_runner_def)
  have bob: "ed25519_from_string bob_crypto (ascii ''//Bob'') = Some (ascii ''//Bob'')" "pair_public bob_crypto (ascii ''//Bob'') = bobs"
    by (simp_all add: bob_crypto_def sample_crypto_def)
  have "test_key_stored bob_crypto bob_offchain sample_service (ascii ''//Bob'')"
    by (simp add: test_key_stored_def sample_service_def bob_offchain_def same_keys_def bob_crypto_def sample_crypto_def ascii_def)
  moreover have built: "genesis_build G (blank_state ()) = (Ok, genesis_state G () :: (unit, nat, u8) fragments_state)"
    by (rule genesis_build_ok)
  ultimately show ?thesis
    using development_node_signs [OF run runner spec(1) G built bob] run spec(1) G built by blast
qed

end
