(* ===== verification/Runtime_Weights.thy ===== *)
theory Runtime_Weights
  imports Fragments_Properties Clamor_Runtime
begin

text \<open>
  The weights of the calls: the functions of \<open>pallets/*/src/weights.rs\<close>, in the instance
  \<open>WeightInfo for ()\<close> that the runtime chooses, the annotations of the calls, and the limits of
  a block in \<open>runtime/src/lib.rs\<close>.
\<close>

section \<open>Weight functions\<close>

text \<open>
  \<open>RocksDbWeight\<close> of \<open>frame_support\<close> is a parameter: the weight of a number of reads and writes
  of the database.
\<close>

record db_weight =
  reads :: "u64 \<Rightarrow> u64"
  writes :: "u64 \<Rightarrow> u64"

definition weight_of :: "db_weight \<Rightarrow> u64 \<Rightarrow> u64 \<Rightarrow> u64 \<Rightarrow> u64" where
  "weight_of W base r w = sat_add (sat_add base (reads W r)) (writes W w)"

definition upload_weight :: "db_weight \<Rightarrow> u64" where
  "upload_weight W = weight_of W 158000000 6 4"

definition patch_weight :: "db_weight \<Rightarrow> u64" where
  "patch_weight W = weight_of W 162000000 5 2"

definition detach_weight :: "db_weight \<Rightarrow> u64" where
  "detach_weight W = weight_of W 8000000 3 1"

definition transfer_weight :: "db_weight \<Rightarrow> u64" where
  "transfer_weight W = weight_of W 21000000 4 3"

definition create_weight :: "db_weight \<Rightarrow> u64" where
  "create_weight W = weight_of W 33000000 4 2"

definition add_eth_auth_weight :: "db_weight \<Rightarrow> u64" where
  "add_eth_auth_weight W = weight_of W 3000000 1 1"

definition del_eth_auth_weight :: "db_weight \<Rightarrow> u64" where
  "del_eth_auth_weight W = weight_of W 3000000 1 1"

section \<open>Annotations\<close>

text \<open>\<open>data.len() as u64 * StorageBytesMultiplier\<close>, added to the weight of the call; both wrap around.\<close>

definition with_data :: "'z protos_config_scheme \<Rightarrow> u64 \<Rightarrow> bytes \<Rightarrow> u64" where
  "with_data C base data = base + of_nat (length data) * StorageBytesMultiplier C"

fun protos_call_weight :: "'z protos_config_scheme \<Rightarrow> db_weight \<Rightarrow> 'c protos_call \<Rightarrow> u64" where
  "protos_call_weight C W (Upload refs c tags asset cost data) = with_data C (upload_weight W) data"
| "protos_call_weight C W (Patch h cost refs tags data) = with_data C (patch_weight W) data"
| "protos_call_weight C W (Transfer h a) = transfer_weight W"
| "protos_call_weight C W (Set_metadata h key data) = with_data C (patch_weight W) data"
| "protos_call_weight C W (Detach h chain a) = detach_weight W"
| "protos_call_weight C W (Stake h amount) = 50000"
| "protos_call_weight C W (Unstake h) = 50000"

fun fragments_call_weight :: "db_weight \<Rightarrow> 'p fragments_call \<Rightarrow> u64" where
  "fragments_call_weight W (Create h md p u m) = create_weight W"
| "fragments_call_weight W (Publish f price q ex a) = 50000"
| "fragments_call_weight W (Unpublish f) = 50000"
| "fragments_call_weight W (Mint f opt a) = 50000"
| "fragments_call_weight W (Buy f opt) = 50000"
| "fragments_call_weight W (Give f e c dest p ex) = 50000"
| "fragments_call_weight W (Create_account f e c) = 50000"

fun detach_call_weight :: "db_weight \<Rightarrow> detach_call \<Rightarrow> u64" where
  "detach_call_weight W (Add_eth_auth p) = add_eth_auth_weight W"
| "detach_call_weight W (Del_eth_auth p) = del_eth_auth_weight W"
| "detach_call_weight W (Detach_Add_key p) = add_eth_auth_weight W"
| "detach_call_weight W (Detach_Del_key p) = del_eth_auth_weight W"
| "detach_call_weight W (Internal_finalize_detach d sig) = 25000"

fun accounts_call_weight :: "accounts_call \<Rightarrow> u64" where
  "accounts_call_weight (Link sig) = 25000"
| "accounts_call_weight (Unlink k) = 25000"
| "accounts_call_weight (Accounts_Add_key p) = 25000"
| "accounts_call_weight (Accounts_Del_key p) = 25000"
| "accounts_call_weight (Internal_lock_update d sig) = 25000"
| "accounts_call_weight (Sponsor_account x) = 25000"

fun call_weight :: "'z protos_config_scheme \<Rightarrow> db_weight \<Rightarrow> ('c, 'p) runtime_call \<Rightarrow> u64" where
  "call_weight C W (Protos_Call c) = protos_call_weight C W c"
| "call_weight C W (Fragments_Call c) = fragments_call_weight W c"
| "call_weight C W (Detach_Call c) = detach_call_weight W c"
| "call_weight C W (Accounts_Call c) = accounts_call_weight c"

section \<open>Limits of a block\<close>

text \<open>
  \<open>WEIGHT_PER_SECOND\<close> and the product with a \<open>Perbill\<close> are of \<open>frame_support\<close> and
  \<open>sp_arithmetic\<close>; the ratios of the runtime are whole percents.
\<close>

definition NORMAL_DISPATCH_RATIO :: nat where "NORMAL_DISPATCH_RATIO = 75"

definition MAXIMUM_BLOCK_WEIGHT :: "u64 \<Rightarrow> u64" where
  "MAXIMUM_BLOCK_WEIGHT weight_per_second = 2 * weight_per_second"


definition operational_reserved :: "(nat \<Rightarrow> u64 \<Rightarrow> u64) \<Rightarrow> u64 \<Rightarrow> u64" where
  "operational_reserved percent_of weight_per_second =
     MAXIMUM_BLOCK_WEIGHT weight_per_second - percent_of NORMAL_DISPATCH_RATIO (MAXIMUM_BLOCK_WEIGHT weight_per_second)"


section \<open>No call weighs more than a block holds\<close>








section \<open>Properties\<close>


definition sample_db :: db_weight where
  "sample_db = \<lparr>reads = (\<lambda>n. n * 25000000), writes = (\<lambda>n. n * 100000000)\<rparr>"



text \<open>
  The weight of minting does not depend on the quantity. The owner of a definition without
  a limit of the supply may mint any quantity the counter has room for, up to
  \<open>2 ^ 64 - 1\<close>, in one call of weight 50000; the loop makes that many instances.
\<close>

theorem mint_weight_flat:
  assumes "ensure_definition_owner s f who = Ok" and "Definitions s f = Some d" and "extrinsic_index s \<noteq> None"
    and "fd_max_supply d = None" and "fd_unique d = None" and "unat (editions_count s f) + unat q < 2 ^ 64"
  shows "\<exists>t. mint E (Signed who) f (Quantity q) a s = (Ok, t) \<and>
    call_weight C W (Fragments_Call (Mint f (Quantity q) a)) = 50000 \<and>
    length (listed (Inventory t) (who, f)) = length (listed (Inventory s) (who, f)) + unat q"
proof -
  obtain t where t: "mint_fragments E who f None (Quantity q) q (block_number s) None a s = (Ok, t)"
    using assms by (auto simp: mint_fragments_def check_options_def take_units_def Let_def)
  then have "mint E (Signed who) f (Quantity q) a s = (Ok, t)" by (simp add: mint_def assms(1))
  moreover from t have "length (listed (Inventory t) (who, f)) = length (listed (Inventory s) (who, f)) + unat q"
    by (rule mint_fragments_effect) (simp add: edition_range_length [OF assms(6)])
  ultimately show ?thesis by auto
qed

theorem mint_weight_flat_witness:
  "\<exists>t. mint sample_fragments_ext (Signed [1]) [7, 8] (Quantity (2 ^ 63)) None
      (defined_fragments\<lparr>Definitions := [[7, 8] \<mapsto> sample_definition\<lparr>fd_max_supply := None\<rparr>]\<rparr>) = (Ok, t) \<and>
    length (listed (Inventory t) ([1], [7, 8])) = 2 ^ 63"
proof -
  let ?d = "sample_definition\<lparr>fd_max_supply := None\<rparr>"
  let ?s = "defined_fragments\<lparr>Definitions := [[7, 8] \<mapsto> ?d]\<rparr>"
  have owner: "ensure_definition_owner ?s [7, 8] [1] = Ok" and d: "Definitions ?s [7, 8] = Some ?d"
    and ei: "extrinsic_index ?s \<noteq> None" and d': "fd_max_supply ?d = None" "fd_unique ?d = None"
    and inv: "listed (Inventory defined_fragments) ([1], [7, 8]) = []" and count: "editions_count ?s [7, 8] = 0"
    by (simp_all add: ensure_definition_owner_def ensure_proto_owner_def defined_fragments_eq sample_definition_def
        listed_def editions_count_def)
  have "unat (editions_count ?s [7, 8]) + unat (2 ^ 63 :: u64) < 2 ^ 64" by (simp add: count)
  from mint_weight_flat [OF owner d ei d' this, of sample_fragments_ext None runtime_config sample_db]
  show ?thesis by (simp add: inv)
qed

end
