(* ===== verification/Runtime_Transaction.thy ===== *)
theory Runtime_Transaction
  imports Clamor_Runtime
begin

text \<open>
  Signed transactions made by the runtime itself: \<open>CreateSignedTransaction::create_transaction\<close>
  of \<open>runtime/src/lib.rs\<close>, with the era it gives a transaction.
\<close>

section \<open>The longest era\<close>

text \<open>\<open>u64::checked_next_power_of_two\<close>: the smallest power of two that is not smaller.\<close>

function power_of_two_from :: "nat \<Rightarrow> nat \<Rightarrow> nat" where
  "power_of_two_from p n = (if p = 0 \<or> n \<le> p then p else power_of_two_from (2 * p) n)"
  by auto
termination by (relation "measure (\<lambda>(p, n). n - p)") auto

declare power_of_two_from.simps [simp del]

definition checked_next_power_of_two :: "u64 \<Rightarrow> u64 option" where
  "checked_next_power_of_two n =
     (let p = power_of_two_from 1 (unat n) in if p < 2 ^ 64 then Some (of_nat p) else None)"

definition BlockHashCount :: u64 where "BlockHashCount = 2400"

definition era_period :: "u64 \<Rightarrow> u64" where
  "era_period block_hash_count =
     (case map_option (\<lambda>c. c div 2) (checked_next_power_of_two block_hash_count) of None \<Rightarrow> 2 | Some c \<Rightarrow> c)"

section \<open>Making a transaction\<close>

text \<open>
  The signed extensions with data of their own, \<open>CheckEra\<close>, \<open>CheckNonce\<close> and
  \<open>ChargeTransactionPayment\<close>; the other four have none.
\<close>

record 'e signed_extra =
  check_era :: 'e
  check_nonce :: u32
  charge_tip :: balance

text \<open>
  Outside the repository: \<open>Era::mortal\<close>, \<open>SignedPayload::new\<close> (which fails when an extension
  has no data to add), its encoding and \<open>deconstruct\<close>, the signature by a key of the keystore,
  and \<open>Indices::unlookup\<close>.
\<close>

record ('e, 'call, 'pl, 'sig, 'adr) tx_env =
  era_mortal :: "u64 \<Rightarrow> u64 \<Rightarrow> 'e"
  payload_new :: "'call \<Rightarrow> 'e signed_extra \<Rightarrow> 'pl option"
  payload_encode :: "'pl \<Rightarrow> bytes"
  payload_deconstruct :: "'pl \<Rightarrow> 'call \<times> 'e signed_extra"
  app_sign :: "bytes \<Rightarrow> multi_signer \<Rightarrow> 'sig option"
  indices_unlookup :: "account_id \<Rightarrow> 'adr"

definition create_transaction :: "('e, 'call, 'pl, 'sig, 'adr, 'z) tx_env_scheme \<Rightarrow> ('b, 'x) system_state_scheme
    \<Rightarrow> 'call \<Rightarrow> multi_signer \<Rightarrow> account_id \<Rightarrow> u32 \<Rightarrow> ('call \<times> 'adr \<times> 'sig \<times> 'e signed_extra) option" where
  "create_transaction T s call public account nonce =
     (let current_block = sat_sub (block_number s) 1;
          era = era_mortal T (era_period BlockHashCount) current_block;
          extra = \<lparr>check_era = era, check_nonce = nonce, charge_tip = 0\<rparr>
      in case payload_new T call extra of None \<Rightarrow> None
         | Some raw_payload \<Rightarrow>
        (case app_sign T (payload_encode T raw_payload) public of None \<Rightarrow> None
         | Some signature \<Rightarrow>
        (let address = indices_unlookup T account; (call, extra) = payload_deconstruct T raw_payload
         in Some (call, address, signature, extra))))"

section \<open>Lemmas\<close>

lemma power_of_two_from_bounds:
  assumes "0 < p" and "p < 2 * n"
  shows "n \<le> power_of_two_from p n \<and> power_of_two_from p n < 2 * n \<and> (\<exists>k. power_of_two_from p n = p * 2 ^ k)"
  using assms
proof (induction p n rule: power_of_two_from.induct)
  case (1 p n)
  show ?case
  proof (cases "n \<le> p")
    case True
    then show ?thesis using 1(2,3) by (auto simp: power_of_two_from.simps [of p n] intro: exI [of _ 0])
  next
    case False
    with 1 have "n \<le> power_of_two_from (2 * p) n \<and> power_of_two_from (2 * p) n < 2 * n \<and>
      (\<exists>k. power_of_two_from (2 * p) n = 2 * p * 2 ^ k)" by simp
    moreover have "power_of_two_from p n = power_of_two_from (2 * p) n"
      using False 1(2) by (subst power_of_two_from.simps) simp
    ultimately show ?thesis by (metis mult.assoc mult.commute power_Suc)
  qed
qed

text \<open>The period is the largest power of two below the number of block hashes kept.\<close>

lemma era_period_bounds:
  assumes "1 < unat n" and "unat n \<le> 2 ^ 63"
  shows "unat (era_period n) < unat n \<and> unat n \<le> 2 * unat (era_period n) \<and> (\<exists>k. unat (era_period n) = 2 ^ k)"
proof -
  let ?p = "power_of_two_from 1 (unat n)"
  have p: "unat n \<le> ?p" "?p < 2 * unat n" "\<exists>k. ?p = 1 * 2 ^ k"
    using power_of_two_from_bounds [of 1 "unat n"] assms(1) by auto
  then obtain k where k: "?p = 2 ^ k" by auto
  with p(1) assms(1) obtain j where j: "k = Suc j" by (cases k) auto
  have small: "?p < 2 ^ 64" using p(2) assms(2) by simp
  then have "era_period n = of_nat ?p div 2" by (simp add: era_period_def checked_next_power_of_two_def Let_def)
  moreover have "unat (of_nat ?p :: u64) = ?p" using small by (simp add: unat_of_nat_small)
  ultimately have "unat (era_period n) = ?p div 2" by (simp add: unat_div)
  then have "unat (era_period n) = 2 ^ j" using k j by simp
  then show ?thesis using p k j by auto
qed

lemma era_within_hashes: "b \<le> m \<Longrightarrow> m < d \<Longrightarrow> d = b + 2048 \<Longrightarrow> m - b < unat BlockHashCount"
  by (simp add: BlockHashCount_def)

section \<open>Properties\<close>

text \<open>
  Eras as \<open>sp_runtime\<close> documents them: a mortal era that is made for a block, with a power of
  two between 4 and 65536 as its period, is born not after that block and ends one period after
  its birth, later than the block. A payload gives back the call and the extensions it holds.
\<close>

definition mortal_eras :: "('e, 'call, 'pl, 'sig, 'adr, 'z) tx_env_scheme \<Rightarrow> ('e \<Rightarrow> nat \<Rightarrow> nat) \<Rightarrow> ('e \<Rightarrow> nat \<Rightarrow> nat) \<Rightarrow> bool" where
  "mortal_eras T birth death \<longleftrightarrow> (\<forall>period current k. unat period = 2 ^ k \<longrightarrow> 2 \<le> k \<longrightarrow> k \<le> 16 \<longrightarrow>
     (let e = era_mortal T period current; b = birth e (unat current) in
        b \<le> unat current \<and> unat current < b + unat period \<and> death e (unat current) = b + unat period))"

definition payloads_hold :: "('e, 'call, 'pl, 'sig, 'adr, 'z) tx_env_scheme \<Rightarrow> bool" where
  "payloads_hold T \<longleftrightarrow> (\<forall>call extra pl. payload_new T call extra = Some pl \<longrightarrow> payload_deconstruct T pl = (call, extra))"

text \<open>
  C31. A transaction that the runtime makes carries the call, the nonce and no tip, signed by
  the key that was asked for; and in every block in which it is valid the hash of the block
  its era is born in, which is part of what is signed, is still stored: the era is 2048 blocks,
  the largest power of two below the 2400 block hashes that are kept.
\<close>

theorem created_transaction:
  assumes "mortal_eras T birth death" and "payloads_hold T"
    and "create_transaction T s call public account nonce = Some (c, address, signature, extra)"
  shows "c = call \<and> address = indices_unlookup T account \<and> check_nonce extra = nonce \<and> charge_tip extra = 0 \<and>
    (\<exists>pl. payload_new T call extra = Some pl \<and> app_sign T (payload_encode T pl) public = Some signature) \<and>
    (let n = unat (block_number s) - 1; b = birth (check_era extra) n; d = death (check_era extra) n in
       b \<le> n \<and> n < d \<and> d = b + 2048 \<and> (\<forall>m. b \<le> m \<and> m < d \<longrightarrow> m - b < unat BlockHashCount))"
proof -
  let ?cur = "sat_sub (block_number s) 1"
  let ?extra = "\<lparr>check_era = era_mortal T (era_period BlockHashCount) ?cur, check_nonce = nonce, charge_tip = 0\<rparr>"
  from assms(3) obtain pl where pl: "payload_new T call ?extra = Some pl" "app_sign T (payload_encode T pl) public = Some signature"
    and out: "payload_deconstruct T pl = (c, extra)" "address = indices_unlookup T account"
    by (auto simp: create_transaction_def Let_def split: option.splits prod.splits)
  then have e: "c = call" "extra = ?extra" using assms(2) unfolding payloads_hold_def by (metis Pair_inject)+
  have "power_of_two_from 1 2400 = 4096" by (simp add: power_of_two_from.simps)
  then have period: "era_period BlockHashCount = 2048"
    by (simp add: era_period_def checked_next_power_of_two_def BlockHashCount_def)
  have cur: "unat ?cur = unat (block_number s) - 1" by (simp add: unat_sat_sub)
  have "unat (2048 :: u64) = 2 ^ 11" by simp
  with assms(1) have "let e = era_mortal T 2048 ?cur; b = birth e (unat ?cur) in
      b \<le> unat ?cur \<and> unat ?cur < b + unat (2048 :: u64) \<and> death e (unat ?cur) = b + unat (2048 :: u64)"
    unfolding mortal_eras_def by (elim allE [of _ 2048] allE [of _ ?cur] allE [of _ 11]) simp
  then have span: "let n = unat (block_number s) - 1; b = birth (check_era extra) n; d = death (check_era extra) n in
      b \<le> n \<and> n < d \<and> d = b + 2048"
    unfolding e by (simp add: Let_def period cur)
  moreover from span have "let n = unat (block_number s) - 1; b = birth (check_era extra) n; d = death (check_era extra) n in
      \<forall>m. b \<le> m \<and> m < d \<longrightarrow> m - b < unat BlockHashCount"
    using era_within_hashes unfolding Let_def by blast
  moreover have "c = call \<and> address = indices_unlookup T account \<and> check_nonce extra = nonce \<and> charge_tip extra = 0"
    using out(2) unfolding e by simp
  moreover have "\<exists>pl. payload_new T call extra = Some pl \<and> app_sign T (payload_encode T pl) public = Some signature"
    using pl e(2) by blast
  ultimately show ?thesis unfolding Let_def by blast
qed

text \<open>Eras as pairs of a period and a phase, payloads as pairs, and a key that signs everything.\<close>

definition sample_tx :: "(nat \<times> nat, bytes, bytes \<times> (nat \<times> nat) signed_extra, bytes, account_id) tx_env" where
  "sample_tx = \<lparr>era_mortal = (\<lambda>p c. (unat p, unat c mod unat p)), payload_new = (\<lambda>c e. Some (c, e)), payload_encode = fst,
     payload_deconstruct = (\<lambda>pl. pl), app_sign = (\<lambda>b _. Some b), indices_unlookup = (\<lambda>a. a)\<rparr>"

definition sample_birth :: "nat \<times> nat \<Rightarrow> nat \<Rightarrow> nat" where
  "sample_birth e c = (max c (snd e) - snd e) div fst e * fst e + snd e"

lemma sample_eras: "mortal_eras sample_tx sample_birth (\<lambda>e c. sample_birth e c + fst e)"
proof -
  have "sample_birth (p, c mod p) c = c" for p c
    by (simp add: sample_birth_def max_absorb1 minus_mod_eq_div_mult)
  then show ?thesis by (simp add: mortal_eras_def sample_tx_def Let_def)
qed

definition sample_block :: "unit system_state" where
  "sample_block = \<lparr>block_number = 5000, extrinsic_index = None, now = 0, balances = (), indexed = []\<rparr>"

lemma sample_payloads: "payloads_hold sample_tx"
  by (simp add: payloads_hold_def sample_tx_def)

lemma sample_transaction: "create_transaction sample_tx sample_block [1] (Ed25519 [7]) [2] 3 =
    Some ([1], [2], [1], \<lparr>check_era = (2048, 903), check_nonce = 3, charge_tip = 0\<rparr>)"
  by (simp add: create_transaction_def sample_tx_def sample_block_def era_period_def checked_next_power_of_two_def
      BlockHashCount_def power_of_two_from.simps sat_sub_def Let_def)

theorem created_transaction_witness:
  "sample_birth (2048, 903) 4999 = 4999 \<and> (7046 :: nat) - 4999 < unat BlockHashCount"
  using created_transaction [OF sample_eras sample_payloads sample_transaction]
  by (auto simp: sample_block_def Let_def sample_birth_def dest: spec [of _ 7046])

end
