(* ===== verification/Chain_Properties.thy ===== *)
theory Chain_Properties
  imports Runtime_Properties
begin

text \<open>
  What the owners of instances and the buyers in a sale can rely on along the whole chain: the
  ledger of instances that the chain refines, and the sales of a detached Proto-Fragment.
\<close>

section \<open>The invariant at every step\<close>



section \<open>The ledger of the chain\<close>














section \<open>Sales of a detached Proto-Fragment\<close>











end
