(* ===== verification/Clamor_Funds.thy ===== *)
theory Clamor_Funds
  imports Chain_Properties
begin

text \<open>
  Money on the chain: what the calls of the four pallets do to the funds that
  \<open>pallet_balances\<close> and \<open>pallet_assets\<close> keep for the accounts.
\<close>

section \<open>What the currency promises\<close>

text \<open>
  Both currencies are outside the repository. A payment moves its amount from one account to
  another, and a reservation moves it within the account from the free to the reserved
  balance, which no call of the pallets ever reads; both fail when the free balance is too small.
\<close>

definition moved :: "nat \<Rightarrow> account_id \<Rightarrow> account_id \<Rightarrow> (account_id \<Rightarrow> nat) \<Rightarrow> (account_id \<Rightarrow> nat) \<Rightarrow> bool" where
  "moved n payer payee f g \<longleftrightarrow> n \<le> f payer \<and>
     (\<forall>a. g a + (if a = payer then n else 0) = f a + (if a = payee then n else 0))"

definition documented_currency :: "('b, 'y) ext_scheme \<Rightarrow> ('b \<Rightarrow> account_id \<Rightarrow> balance) \<Rightarrow> bool" where
  "documented_currency E reserved \<longleftrightarrow>
     (\<forall>b who v b'. reserve E b who v = Some b' \<longrightarrow> v \<le> free_balance E b who \<and>
        (\<forall>a. unat (free_balance E b' a) + (if a = who then unat v else 0) = unat (free_balance E b a)) \<and>
        (\<forall>a. unat (reserved b' a) = unat (reserved b a) + (if a = who then unat v else 0)) \<and>
        asset_balance E b' = asset_balance E b) \<and>
     (\<forall>b payer payee v b'. transfer_keep_alive E b payer payee v = Some b' \<longrightarrow>
        moved (unat v) payer payee (\<lambda>a. unat (free_balance E b a)) (\<lambda>a. unat (free_balance E b' a)) \<and>
        reserved b' = reserved b \<and> asset_balance E b' = asset_balance E b) \<and>
     (\<forall>b i payer payee v b'. asset_transfer E b i payer payee v = Some b' \<longrightarrow>
        moved (unat v) payer payee (\<lambda>a. unat (asset_balance E b i a)) (\<lambda>a. unat (asset_balance E b' i a)) \<and>
        (\<forall>j. j \<noteq> i \<longrightarrow> asset_balance E b' j = asset_balance E b j) \<and>
        free_balance E b' = free_balance E b \<and> reserved b' = reserved b)"

text \<open>What an account has of a currency, free and reserved.\<close>

definition held :: "('b, 'y) ext_scheme \<Rightarrow> ('b \<Rightarrow> account_id \<Rightarrow> balance) \<Rightarrow> 'b \<Rightarrow> asset_id option \<Rightarrow> account_id \<Rightarrow> nat" where
  "held E reserved b currency a =
     (case currency of
        None \<Rightarrow> unat (free_balance E b a) + unat (reserved b a)
      | Some i \<Rightarrow> unat (asset_balance E b i a))"

lemma held_reserve:
  assumes "documented_currency E reserved" and "reserve E b who v = Some b'"
  shows "held E reserved b' = held E reserved b"
proof (intro ext)
  fix c a
  have "unat (free_balance E b' a) + (if a = who then unat v else 0) = unat (free_balance E b a)"
    "unat (reserved b' a) = unat (reserved b a) + (if a = who then unat v else 0)" "asset_balance E b' = asset_balance E b"
    using assms unfolding documented_currency_def by blast+
  then show "held E reserved b' c a = held E reserved b c a" by (simp add: held_def split: option.split if_splits)
qed

lemma held_pay:
  assumes doc: "documented_currency E reserved" and "pay E b currency payer payee v = Some b'"
  shows "moved (unat v) payer payee (held E reserved b currency) (held E reserved b' currency)"
    and "\<And>c. c \<noteq> currency \<Longrightarrow> held E reserved b' c = held E reserved b c"
proof -
  have "moved (unat v) payer payee (held E reserved b currency) (held E reserved b' currency) \<and>
    (\<forall>c. c \<noteq> currency \<longrightarrow> held E reserved b' c = held E reserved b c)"
  proof (cases currency)
    case None
    with assms have t: "transfer_keep_alive E b payer payee v = Some b'" by (simp add: pay_def)
    with doc have m: "moved (unat v) payer payee (\<lambda>a. unat (free_balance E b a)) (\<lambda>a. unat (free_balance E b' a))"
      and same: "reserved b' = reserved b" "asset_balance E b' = asset_balance E b"
      unfolding documented_currency_def by blast+
    have "moved (unat v) payer payee (held E reserved b None) (held E reserved b' None)"
      using m same by (fastforce simp: moved_def held_def)
    then show ?thesis using same by (auto simp: None held_def fun_eq_iff split: option.split)
  next
    case (Some i)
    with assms have t: "asset_transfer E b i payer payee v = Some b'" by (simp add: pay_def)
    with doc have "moved (unat v) payer payee (\<lambda>a. unat (asset_balance E b i a)) (\<lambda>a. unat (asset_balance E b' i a))"
      and "\<forall>j. j \<noteq> i \<longrightarrow> asset_balance E b' j = asset_balance E b j"
      and "free_balance E b' = free_balance E b" "reserved b' = reserved b"
      unfolding documented_currency_def by blast+
    then show ?thesis by (auto simp: Some held_def moved_def fun_eq_iff split: option.split)
  qed
  then show "moved (unat v) payer payee (held E reserved b currency) (held E reserved b' currency)"
    "\<And>c. c \<noteq> currency \<Longrightarrow> held E reserved b' c = held E reserved b c" by blast+
qed

section \<open>What the calls do with money\<close>

text \<open>The price of a purchase, which saturates.\<close>

definition price_of :: "publishing_data \<Rightarrow> fragment_buy_options \<Rightarrow> balance" where
  "price_of sale opt = sat_mul (pd_price sale) (ucast (quantity_of opt))"

definition bought :: "('b, 'p, 'y) fragments_ext_scheme \<Rightarrow> account_id \<Rightarrow> hash128 \<Rightarrow> fragment_buy_options
    \<Rightarrow> publishing_data \<Rightarrow> 'p fragment_definition \<Rightarrow> account_id \<Rightarrow> ('b, 'c, 'p, 'x) fragments_state_scheme
    \<Rightarrow> ('b, 'c, 'p, 'x) fragments_state_scheme \<Rightarrow> bool" where
  "bought E who f opt sale d vault s t \<longleftrightarrow>
     Publishing s f = Some sale \<and> Definitions s f = Some d \<and> get_vault_id E f = Some vault \<and>
     pay E (balances s) (fm_currency (fd_metadata d)) who vault (price_of sale opt) = Some (balances t)"

lemma accounts_dispatch_money:
  assumes "accounts_dispatch C E og c s = (r, t)"
  shows "balances t = balances s \<or> (\<exists>a v. reserve E (balances s) a v = Some (balances t))"
proof (cases c)
  case (Internal_lock_update d sig)
  then have "internal_lock_update C E og d sig s = (r, t)" using assms by simp
  then show ?thesis
    by (cases rule: internal_lock_update_cases)
      (auto simp: count_vote_def settle_lock_def apply_lock_def apply_unlock_def unlink_account_def Let_def
        split: option.splits prod.splits outcome.splits if_splits)
next
  case (Sponsor_account x)
  then show ?thesis using assms by (auto simp: sponsor_account_def Let_def split: option.splits if_splits)
qed (use assms in \<open>auto simp: link_def unlink_def unlink_account_def accounts_add_key_def accounts_del_key_def
    split: option.splits if_splits\<close>)

lemma fragments_dispatch_money:
  assumes "fragments_dispatch E og c s = (r, t)"
  shows "balances t = balances s \<or> (\<exists>a. reserve E (balances s) a (minimum_balance E) = Some (balances t)) \<or>
    (\<exists>who f opt sale d vault. og = Signed who \<and> c = Buy f opt \<and> r = Ok \<and> bought E who f opt sale d vault s t)"
proof (cases c)
  case (Buy f opt)
  then have "buy E og f opt s = (r, t)" using assms by simp
  then show ?thesis
  proof (cases rule: buy_cases)
    case (minted who sale d vault s1)
    have same: "balances s1 = balances s" by (rule mint_fragments_effect [OF minted(8)])
    then show ?thesis
      using minted(1-4,9) by (auto simp: Buy bought_def price_of_def split: option.splits)
  qed simp
next
  case (Create h md p u m)
  then show ?thesis
    using assms create.failure_keeps_state [of E og h md p u m s r t] by (cases "r = Ok") (auto elim!: create_Ok)
next
  case (Publish f price q ex a)
  then show ?thesis
    using assms publish.failure_keeps_state [of og f price q ex a s r t] by (cases "r = Ok") (auto elim!: publish_Ok)
next
  case (Unpublish f)
  then show ?thesis
    using assms unpublish.failure_keeps_state [of og f s r t] by (cases "r = Ok") (auto elim!: unpublish_Ok)
next
  case (Mint f opt a)
  then show ?thesis
    using assms mint.failure_keeps_state [of E og f opt a s r t]
    by (cases "r = Ok") (auto elim!: mint_Ok dest: mint_fragments_effect)
next
  case (Give f e k dest p ex)
  then show ?thesis
    using assms give.failure_keeps_state [of E og f e k dest p ex s r t]
    by (cases "r = Ok") (auto elim!: give_Ok simp: give_copy_def give_original_def Let_def)
next
  case (Create_account f e k)
  then show ?thesis
    using assms create_account.failure_keeps_state [of E og f e k s r t] by (cases "r = Ok") (auto elim!: create_account_Ok)
qed

lemma buy_bought:
  assumes "buy E (Signed who) f opt s = (Ok, t)" obtains sale d vault where "bought E who f opt sale d vault s t"
  using assms
proof (cases rule: buy_cases)
  case (minted who' sale d vault s1)
  have "balances s1 = balances s" by (rule mint_fragments_effect [OF minted(8)])
  then have "bought E who f opt sale d vault s t"
    using minted(1-4,9) by (simp add: bought_def price_of_def split: option.splits)
  then show thesis by (rule that)
qed simp

lemma protos_dispatch_money:
  assumes "protos_dispatch C E og c s = (r, t)" shows "balances t = balances s"
proof (cases "r = Ok")
  case True
  then show ?thesis
    using assms by (cases c) (auto elim!: upload_Ok patch_Ok transfer_Ok set_metadata_Ok detach_Ok stake_Ok unstake_Ok)
qed (use protos_dispatch.failure_keeps_state [OF assms] in simp)

lemma detach_dispatch_money: "detach_dispatch og c s = (r, t) \<Longrightarrow> balances t = balances s"
  by (cases c) (auto simp: detach_call_defs Let_def split: if_splits)

lemma extrinsic_money:
  assumes "apply_extrinsic C E tr x s = Some (r, t)"
  obtains (same) "balances t = balances s"
  | (reserved) a v where "reserve E (balances s) a v = Some (balances t)"
  | (bought) who f opt sale d vault where "x = Signed_Extrinsic who (Fragments_Call (Buy f opt))" and "r = Ok"
      and "bought E who f opt sale d vault s t"
proof -
  from assms have "balances t = balances s \<or> (\<exists>a v. reserve E (balances s) a v = Some (balances t)) \<or>
    (\<exists>who f opt sale d vault. x = Signed_Extrinsic who (Fragments_Call (Buy f opt)) \<and> r = Ok \<and>
       bought E who f opt sale d vault s t)"
  proof (cases rule: apply_extrinsic_Some)
    case (1 og call u)
    show ?thesis
    proof (cases "t = s")
      case False
      then have t: "t = u" using 1(5) by (auto split: if_splits)
      have og: "x = Signed_Extrinsic who call" if "og = Signed who" for who
        using 1(1) that by (cases x) auto
      from 1(2) show ?thesis
      proof (cases rule: runtime_dispatch_cases)
        case (fragments c r')
        then show ?thesis using fragments_dispatch_money [OF fragments(2)] og by (auto simp: t)
      qed (auto simp: t dest: protos_dispatch_money detach_dispatch_money accounts_dispatch_money)
    qed simp
  qed
  then show thesis using same reserved bought by blast
qed

lemma expire_one_money: "balances (expire_one E x s) = balances s"
  by (auto simp: expire_one_def Let_def split: prod.split option.split)

lemma expire_all_money: "balances (fold (expire_one E) xs s) = balances s"
  by (induction xs arbitrary: s) (simp_all add: expire_one_money)

lemma finalize_money [simp]: "balances (runtime_on_finalize E s) = balances s"
proof -
  obtain ps as where s1: "protos_on_finalize s = s\<lparr>PendingUnlinks := [], ProtoStakes := ps, AccountStakes := as\<rparr>"
    using protos_on_finalize_frame by blast
  show ?thesis
    by (simp add: runtime_on_finalize_def s1 detach_on_finalize_def fragments_on_finalize_def expire_all_money Let_def
        split: option.split)
qed

lemma finalize_definitions: "Definitions (runtime_on_finalize E s) = Definitions s"
proof -
  obtain ps as where s1: "protos_on_finalize s = s\<lparr>PendingUnlinks := [], ProtoStakes := ps, AccountStakes := as\<rparr>"
    using protos_on_finalize_frame by blast
  show ?thesis by (simp add: runtime_on_finalize_def s1 detach_on_finalize_def on_finalize_fields Let_def)
qed

section \<open>Accounts without a key\<close>

text \<open>
  The chain as seen by an account that nobody signs for and that FRAME's own pallets take
  nothing from.
\<close>

inductive keyless_step :: "'z protos_config_scheme \<Rightarrow> ('b, 'p, 'y) fragments_ext_scheme \<Rightarrow> bool
    \<Rightarrow> ('b \<Rightarrow> account_id \<Rightarrow> balance) \<Rightarrow> account_id \<Rightarrow> ('b, 'c, 'p, 'x) fragments_state_scheme
    \<Rightarrow> ('b, 'c, 'p, 'x) fragments_state_scheme \<Rightarrow> bool" for C E tr reserved v where
  extrinsic: "apply_extrinsic C E tr x s = Some (r, t) \<Longrightarrow> (\<And>call. x \<noteq> Signed_Extrinsic v call)
    \<Longrightarrow> keyless_step C E tr reserved v s t"
| frame: "foreign_change s t \<Longrightarrow> (\<And>c. held E reserved (balances s) c v \<le> held E reserved (balances t) c v)
    \<Longrightarrow> keyless_step C E tr reserved v s t"
| block_end: "t = runtime_on_finalize E s
    \<Longrightarrow> keyless_step C E tr reserved v s (t\<lparr>block_number := block_number t + 1\<rparr>)"

lemma moved_payee: "moved n payer payee f g \<Longrightarrow> a \<noteq> payer \<Longrightarrow> f a \<le> g a"
  by (auto simp: moved_def dest: spec [of _ a])

lemma bought_held:
  assumes "documented_currency E reserved" and "bought E who f opt sale d vault s t"
  shows "moved (unat (price_of sale opt)) who vault (held E reserved (balances s) (fm_currency (fd_metadata d)))
      (held E reserved (balances t) (fm_currency (fd_metadata d)))"
    and "\<And>c. c \<noteq> fm_currency (fd_metadata d) \<Longrightarrow> held E reserved (balances t) c = held E reserved (balances s) c"
  using held_pay [OF assms(1)] assms(2) unfolding bought_def by blast+

lemma extrinsic_keeps_held:
  assumes doc: "documented_currency E reserved" and "apply_extrinsic C E tr x s = Some (r, t)"
    and "\<And>call. x \<noteq> Signed_Extrinsic v call"
  shows "held E reserved (balances s) c v \<le> held E reserved (balances t) c v"
  using assms(2)
proof (cases rule: extrinsic_money)
  case (reserved a n)
  then show ?thesis by (simp add: held_reserve [OF doc])
next
  case (bought who f opt sale d vault)
  then have "v \<noteq> who" using assms(3) by blast
  then show ?thesis
    using bought_held [OF doc bought(3)] moved_payee by (cases "c = fm_currency (fd_metadata d)") (metis order.refl)+
qed simp

lemma keyless_keeps_held:
  assumes "(keyless_step C E tr reserved v)\<^sup>*\<^sup>* s t" and "documented_currency E reserved"
  shows "held E reserved (balances s) c v \<le> held E reserved (balances t) c v"
  using assms(1)
proof (induction rule: rtranclp_induct)
  case (step t u)
  have "held E reserved (balances t) c v \<le> held E reserved (balances u) c v"
    using step(2) by cases (auto intro: extrinsic_keeps_held [OF assms(2)])
  with step(3) show ?case by simp
qed simp

section \<open>Vaults without funds\<close>

definition vaults_unfunded :: "('b, 'p, 'y) fragments_ext_scheme \<Rightarrow> 'b \<Rightarrow> bool" where
  "vaults_unfunded E b \<longleftrightarrow> (\<forall>f vault. get_vault_id E f = Some vault \<longrightarrow> free_balance E b vault < minimum_balance E)"

text \<open>The chain while nobody sends money to a vault.\<close>

inductive unaided_step :: "'z protos_config_scheme \<Rightarrow> ('b, 'p, 'y) fragments_ext_scheme \<Rightarrow> bool
    \<Rightarrow> ('b, 'c, 'p, 'x) fragments_state_scheme \<Rightarrow> ('b, 'c, 'p, 'x) fragments_state_scheme \<Rightarrow> bool" for C E tr where
  extrinsic: "apply_extrinsic C E tr x s = Some (r, t) \<Longrightarrow> unaided_step C E tr s t"
| frame: "foreign_change s t
    \<Longrightarrow> (\<And>f vault. get_vault_id E f = Some vault \<Longrightarrow> free_balance E (balances t) vault \<le> free_balance E (balances s) vault)
    \<Longrightarrow> unaided_step C E tr s t"
| block_end: "t = runtime_on_finalize E s \<Longrightarrow> unaided_step C E tr s (t\<lparr>block_number := block_number t + 1\<rparr>)"

lemma reserve_unfunded:
  assumes "documented_currency E reserved" and "reserve E b who v = Some b'" and "vaults_unfunded E b"
  shows "vaults_unfunded E b'"
proof -
  have "unat (free_balance E b' a) + (if a = who then unat v else 0) = unat (free_balance E b a)" for a
    using assms(1,2) unfolding documented_currency_def by blast
  then have "free_balance E b' a \<le> free_balance E b a" for a unfolding word_le_nat_alt by (metis le_add1)
  then show ?thesis using assms(3) unfolding vaults_unfunded_def by (meson le_less_trans)
qed

lemma create_unfunded:
  assumes "documented_currency E reserved" and "vaults_unfunded E (balances s)" shows "fst (create E og h md p u m s) \<noteq> Ok"
proof
  assume "fst (create E og h md p u m s) = Ok"
  then obtain t where "create E og h md p u m s = (Ok, t)" by (metis prod.collapse)
  then obtain vault b where v: "get_vault_id E (fragment_id E h md) = Some vault"
    and r: "reserve E (balances s) vault (minimum_balance E) = Some b" by (rule create_Ok)
  have "minimum_balance E \<le> free_balance E (balances s) vault"
    using assms(1) r unfolding documented_currency_def by blast
  then show False using assms(2) v unfolding vaults_unfunded_def by (meson leD)
qed

lemma fragments_dispatch_created:
  assumes "fragments_dispatch E og c s = (r, t)" and "Definitions t \<noteq> Definitions s"
  shows "\<exists>h md p u m. fst (create E og h md p u m s) = Ok"
proof (cases c)
  case (Create h md p u m)
  then have c: "create E og h md p u m s = (r, t)" using assms by simp
  then have "r = Ok" using assms(2) create.failure_keeps_state [OF c] by auto
  then show ?thesis using c by (metis fst_conv)
next
  case (Buy f opt)
  then have "buy E og f opt s = (r, t)" using assms by simp
  then have "Definitions t = Definitions s"
    by (cases rule: buy_cases) (auto dest: mint_fragments_effect split: option.splits)
  then show ?thesis using assms(2) by simp
next
  case (Publish f price q ex a)
  then show ?thesis
    using assms publish.failure_keeps_state [of og f price q ex a s r t] by (cases "r = Ok") (auto elim!: publish_Ok)
next
  case (Unpublish f)
  then show ?thesis
    using assms unpublish.failure_keeps_state [of og f s r t] by (cases "r = Ok") (auto elim!: unpublish_Ok)
next
  case (Mint f opt a)
  then show ?thesis
    using assms mint.failure_keeps_state [of E og f opt a s r t]
    by (cases "r = Ok") (auto elim!: mint_Ok dest: mint_fragments_effect)
next
  case (Give f e k dest p ex)
  then show ?thesis
    using assms give.failure_keeps_state [of E og f e k dest p ex s r t] by (cases "r = Ok") (auto elim!: give_Ok)
next
  case (Create_account f e k)
  then show ?thesis
    using assms create_account.failure_keeps_state [of E og f e k s r t] by (cases "r = Ok") (auto elim!: create_account_Ok)
qed

lemma extrinsic_created:
  assumes "apply_extrinsic C E tr x s = Some (r, t)" and "Definitions t \<noteq> Definitions s"
  shows "\<exists>og h md p u m. fst (create E og h md p u m s) = Ok"
  using assms(1)
proof (cases rule: apply_extrinsic_Some)
  case (1 og call u)
  then have t: "t = u" using assms(2) by (auto split: if_splits)
  from 1(2) show ?thesis
  proof (cases rule: runtime_dispatch_cases)
    case (fragments c r')
    then show ?thesis using fragments_dispatch_created assms(2) t by blast
  next
    case (protos c r')
    from protos_dispatch_frame(3) [OF protos(2)] show ?thesis using assms(2) by (simp add: t same_fragments_def)
  next
    case (detach c r')
    from detach_dispatch_frame(3) [OF detach(2)] show ?thesis using assms(2) by (simp add: t same_fragments_def)
  next
    case (accounts c r')
    from beside_accounts_dispatch [OF accounts(2)] show ?thesis
      using assms(2) by (simp add: t same_fragments_def beside_accounts_def)
  qed
qed

text \<open>No definition, and no vault that could pay for one.\<close>

definition barren :: "('b, 'p, 'y) fragments_ext_scheme \<Rightarrow> ('b, 'c, 'p, 'x) fragments_state_scheme \<Rightarrow> bool" where
  "barren E s \<longleftrightarrow> Definitions s = Map.empty \<and> vaults_unfunded E (balances s)"

lemma barren_extrinsic:
  assumes doc: "documented_currency E reserved" and x: "apply_extrinsic C E tr x s = Some (r, t)" and "barren E s"
  shows "barren E t"
proof -
  have s: "Definitions s = Map.empty" "vaults_unfunded E (balances s)" using assms(3) by (simp_all add: barren_def)
  have "Definitions t = Map.empty" using extrinsic_created [OF x] create_unfunded [OF doc s(2)] s(1) by auto
  moreover from x have "vaults_unfunded E (balances t)"
  proof (cases rule: extrinsic_money)
    case (reserved a v)
    then show ?thesis by (rule reserve_unfunded [OF doc]) (rule s(2))
  qed (use s in \<open>auto simp: bought_def\<close>)
  ultimately show ?thesis by (simp add: barren_def)
qed

lemma barren_step: "unaided_step C E tr s t \<Longrightarrow> documented_currency E reserved \<Longrightarrow> barren E s \<Longrightarrow> barren E t"
proof (induction rule: unaided_step.induct)
  case (extrinsic x s r t)
  then show ?case by (rule_tac barren_extrinsic)
next
  case (frame s t)
  then show ?case
    by (auto simp: barren_def vaults_unfunded_def foreign_change_def same_fragments_def intro: le_less_trans [OF frame(2)])
next
  case (block_end t s)
  have "Definitions t = Definitions s" by (simp add: block_end(1) finalize_definitions)
  then show ?case using block_end by (simp add: barren_def)
qed

lemma barren_steps:
  "(unaided_step C E tr)\<^sup>*\<^sup>* s t \<Longrightarrow> documented_currency E reserved \<Longrightarrow> barren E s \<Longrightarrow> barren E t"
  by (induction rule: rtranclp_induct) (auto intro: barren_step)

end
