(* ===== verification/Funds_Properties.thy ===== *)
theory Funds_Properties
  imports Clamor_Funds
begin

text \<open>
  Whose money the pallets can move and where it ends, and what a Fragment cannot be created
  without. The witnesses run on a currency of free and reserved balances.
\<close>

section \<open>A currency\<close>

type_synonym purse = "(account_id \<Rightarrow> balance) \<times> (account_id \<Rightarrow> balance)"

definition purse_reserve :: "purse \<Rightarrow> account_id \<Rightarrow> balance \<Rightarrow> purse option" where
  "purse_reserve p who v =
     (if v \<le> fst p who \<and> unat (snd p who) + unat v < 2 ^ 128
      then Some ((fst p)(who := fst p who - v), (snd p)(who := snd p who + v)) else None)"

definition purse_transfer :: "purse \<Rightarrow> account_id \<Rightarrow> account_id \<Rightarrow> balance \<Rightarrow> purse option" where
  "purse_transfer p payer payee v =
     (if v + 500 \<le> fst p payer \<and> v \<le> fst p payer \<and> payer \<noteq> payee \<and> unat (fst p payee) + unat v < 2 ^ 128
      then Some ((fst p)(payer := fst p payer - v, payee := fst p payee + v), snd p) else None)"

definition purse_ext :: "(purse, u8) fragments_ext" where
  "purse_ext = \<lparr>blake2_256 = (\<lambda>b. b), blake2_128 = (\<lambda>b. b), keccak_256 = (\<lambda>b. b),
     ecdsa_recover = (\<lambda>sig msg. Some sig), encode_account = (\<lambda>a. a), decode_account = Some,
     to_base58 = (\<lambda>b. b), minimum_balance = 500, free_balance = fst,
     reserve = purse_reserve, transfer_keep_alive = purse_transfer,
     asset_minimum_balance = (\<lambda>_ _. 1), asset_balance = (\<lambda>_ _ _. 0), asset_transfer = (\<lambda>_ _ _ _ _. None),
     encode_public = sample_encode_public, decode_multi_signer = sample_decode_signer,
     verify_detach = (\<lambda>_ sig. sig \<noteq> []), encode_lock_tuple = sample_encode_lock,
     encode_external_id = sample_encode_external, verify_lock = (\<lambda>_ sig. sig \<noteq> []),
     encode_name = (\<lambda>b. b), encode_currency = (\<lambda>c. case c of None \<Rightarrow> [] | Some a \<Rightarrow> be_bytes 8 a),
     encode_unit = be_bytes 8, lookup_address = (\<lambda>_ a. case a of Id who \<Rightarrow> Some who | _ \<Rightarrow> None),
     perms_and = (AND), EDIT = 1, COPY = 4, TRANSFER = 2, iter_accounts = sorted_list_of_set\<rparr>"

lemma purse_ext_simps [simp]:
  "blake2_256 purse_ext = (\<lambda>b. b)" "blake2_128 purse_ext = (\<lambda>b. b)" "decode_account purse_ext = Some"
  "minimum_balance purse_ext = 500" "free_balance purse_ext = fst" "reserve purse_ext = purse_reserve"
  "transfer_keep_alive purse_ext = purse_transfer" "asset_balance purse_ext = (\<lambda>_ _ _. 0)"
  "asset_transfer purse_ext = (\<lambda>_ _ _ _ _. None)" "encode_name purse_ext = (\<lambda>b. b)"
  "encode_currency purse_ext None = []"
  by (simp_all add: purse_ext_def)

lemma unat_diff: "v \<le> x \<Longrightarrow> unat (x - v) + unat v = unat (x :: 'w::len word)"
  by (simp add: unat_sub word_le_nat_alt)

lemma purse_documented: "documented_currency purse_ext snd"
proof -
  have reserve: "v \<le> fst p who \<and>
      (\<forall>a. unat (fst p' a) + (if a = who then unat v else 0) = unat (fst p a)) \<and>
      (\<forall>a. unat (snd p' a) = unat (snd p a) + (if a = who then unat v else 0))"
    if "purse_reserve p who v = Some p'" for p p' who v
    using that unat_plus_small [of "snd p who" v] unat_diff [of v "fst p who"] by (auto simp: purse_reserve_def split: if_splits)
  have transfer: "moved (unat v) payer payee (\<lambda>a. unat (fst p a)) (\<lambda>a. unat (fst p' a)) \<and> snd p' = snd p"
    if "purse_transfer p payer payee v = Some p'" for p p' payer payee v
    using that unat_plus_small [of "fst p payee" v] unat_diff [of v "fst p payer"]
    by (auto simp: purse_transfer_def moved_def word_le_nat_alt split: if_splits)
  show ?thesis unfolding documented_currency_def using reserve transfer by simp
qed

text \<open>Account \<open>[1]\<close> owns a Proto-Fragment; account \<open>[5]\<close> has money.\<close>

definition purse_state :: "(account_id \<rightharpoonup> balance) \<Rightarrow> (purse, nat, u8) fragments_state" where
  "purse_state m = (blank_state (\<lambda>a. case m a of None \<Rightarrow> 0 | Some v \<Rightarrow> v, \<lambda>_. 0))
     \<lparr>Protos := [[7] \<mapsto> sample_proto], extrinsic_index := Some 0\<rparr>"

definition purse_sale :: "(account_id \<rightharpoonup> balance) \<Rightarrow> (purse, nat, u8) fragments_state" where
  "purse_sale m = (purse_state m)\<lparr>Definitions := [[7, 8] \<mapsto> sample_definition], Publishing := [[7, 8] \<mapsto> sample_sale]\<rparr>"

lemma purse_state_simps [simp]:
  "Protos (purse_state m) = [[7] \<mapsto> sample_proto]" "Definitions (purse_state m) = Map.empty"
  "DetachedHashes (purse_state m) = Map.empty" "extrinsic_index (purse_state m) = Some 0"
  "EditionsCount (purse_state m) = Map.empty" "block_number (purse_state m) = 0"
  "balances (purse_state m) = (\<lambda>a. case m a of None \<Rightarrow> 0 | Some v \<Rightarrow> v, \<lambda>_. 0)"
  by (simp_all add: purse_state_def blank_state_def)

lemma purse_vault [simp]: "get_vault_id purse_ext f = Some (ascii ''fragments-vault'' @ f)"
  by (simp add: get_vault_id_def)

section \<open>Properties\<close>


definition rich :: "account_id \<rightharpoonup> balance" where "rich = [[5] \<mapsto> 1000]"

lemma purse_sale_simps [simp]:
  "Definitions (purse_sale m) = [[7, 8] \<mapsto> sample_definition]" "Publishing (purse_sale m) = [[7, 8] \<mapsto> sample_sale]"
  "extrinsic_index (purse_sale m) = Some 0" "EditionsCount (purse_sale m) = Map.empty"
  "balances (purse_sale m) = (\<lambda>a. case m a of None \<Rightarrow> 0 | Some v \<Rightarrow> v, \<lambda>_. 0)"
  by (simp_all add: purse_sale_def)

lemma price_sample [simp]: "price_of sample_sale (Quantity 1) = 5"
  by (simp add: price_of_def sample_sale_def sat_mul_def)

lemma sample_definition_currency [simp]: "fm_currency (fd_metadata sample_definition) = None"
  by (simp add: sample_definition_def sample_metadata_def)

lemma purse_buy:
  obtains t where "buy purse_ext (Signed [5]) [7, 8] (Quantity 1) (purse_sale rich) = (Ok, t)"
    and "free_balance purse_ext (balances t) [5] = 995" and "free_balance purse_ext (balances t) [1] = 0"
    and "free_balance purse_ext (balances t) (ascii ''fragments-vault'' @ [7, 8]) = 5" and "snd (balances t) = (\<lambda>_. 0)"
proof -
  obtain r t where b: "buy purse_ext (Signed [5]) [7, 8] (Quantity 1) (purse_sale rich) = (r, t)" by fastforce
  then have ok: "r = Ok"
    by (auto simp: rich_def buy_def mint_fragments_def Let_def check_options_def take_units_def editions_count_def
        sample_definition_def sample_sale_def sample_metadata_def can_pay_def pay_def purse_transfer_def sat_mul_def ascii_def
        mint_one_def split: option.splits)
  obtain p where p: "purse_transfer (balances (purse_sale rich)) [5] (ascii ''fragments-vault'' @ [7, 8]) 5 = Some p"
    "fst p [5] = 995" "fst p [1] = 0" "fst p (ascii ''fragments-vault'' @ [7, 8]) = 5" "snd p = (\<lambda>_. 0)"
    by (simp add: purse_transfer_def rich_def ascii_def)
  from b ok obtain sale d vault where "bought purse_ext [5] [7, 8] (Quantity 1) sale d vault (purse_sale rich) t"
    by (auto elim: buy_bought)
  then have "balances t = p" using p(1) by (auto simp: bought_def pay_def)
  with b ok p that show thesis by simp
qed


text \<open>
  C28. The proceeds of a sale stay in the vault. What a buyer pays goes to the vault, an account
  derived from a hash for which nobody has a key, and no call of the pallets pays out of it:
  unless FRAME's own pallets take money from it, which only root can have done, it holds in
  every later state at least what it held before the sale and the price.
\<close>

theorem proceeds_stuck:
  assumes "documented_currency E reserved" and "(keyless_step C E tr reserved v)\<^sup>*\<^sup>* s t"
    and "apply_extrinsic C E tr (Signed_Extrinsic who (Fragments_Call (Buy f opt))) t = Some (Ok, u)"
    and "get_vault_id E f = Some v" and "who \<noteq> v" and "(keyless_step C E tr reserved v)\<^sup>*\<^sup>* u w"
  shows "\<exists>sale d. Publishing t f = Some sale \<and> Definitions t f = Some d \<and>
    held E reserved (balances s) (fm_currency (fd_metadata d)) v + unat (price_of sale opt)
      \<le> held E reserved (balances w) (fm_currency (fd_metadata d)) v"
proof -
  have "buy E (Signed who) f opt t = (Ok, u)"
    using assms(3) by (cases "buy E (Signed who) f opt t")
      (auto simp: apply_extrinsic_def dispatch_def in_pallet_def split: if_splits outcome.splits)
  then obtain sale d vault where b: "bought E who f opt sale d vault t u" by (rule buy_bought)
  then have v: "vault = v" using assms(4) by (simp add: bought_def)
  let ?c = "fm_currency (fd_metadata d)"
  from bought_held(1) [OF assms(1) b]
  have "held E reserved (balances u) ?c v = held E reserved (balances t) ?c v + unat (price_of sale opt)"
    using assms(5) by (auto simp: moved_def v dest: spec [of _ v])
  moreover have "held E reserved (balances s) ?c v \<le> held E reserved (balances t) ?c v"
    by (rule keyless_keeps_held [OF assms(2,1)])
  moreover have "held E reserved (balances u) ?c v \<le> held E reserved (balances w) ?c v"
    by (rule keyless_keeps_held [OF assms(6,1)])
  ultimately show ?thesis using b by (intro exI [of _ sale] exI [of _ d]) (simp add: bought_def)
qed

theorem proceeds_stuck_witness:
  "\<exists>u. apply_extrinsic runtime_config purse_ext True (Signed_Extrinsic [5] (Fragments_Call (Buy [7, 8] (Quantity 1))))
      (purse_sale rich) = Some (Ok, u) \<and>
    5 \<le> held purse_ext snd (balances (runtime_on_finalize purse_ext u)) None (ascii ''fragments-vault'' @ [7, 8])"
proof -
  let ?x = "Signed_Extrinsic [5] (Fragments_Call (Buy [7, 8] (Quantity 1))) :: (nat, u8) extrinsic"
  let ?v = "ascii ''fragments-vault'' @ [7, 8]"
  obtain u where "buy purse_ext (Signed [5]) [7, 8] (Quantity 1) (purse_sale rich) = (Ok, u)" by (rule purse_buy)
  then have x: "apply_extrinsic runtime_config purse_ext True ?x (purse_sale rich) = Some (Ok, u)"
    by (simp add: apply_extrinsic_def dispatch_def in_pallet_def)
  let ?w = "runtime_on_finalize purse_ext u"
  have run: "(keyless_step runtime_config purse_ext True snd ?v)\<^sup>*\<^sup>* u (?w\<lparr>block_number := block_number ?w + 1\<rparr>)"
    by (rule r_into_rtranclp, rule keyless_step.block_end) simp
  from proceeds_stuck [OF purse_documented rtranclp.rtrancl_refl x _ _ run] show ?thesis using x by (auto simp: ascii_def)
qed

text \<open>
  C22. No Fragment can be created before somebody sends money to its vault. The deposit of a new
  definition is reserved on the vault itself, an account that nothing has paid into: while
  no money is sent to vaults, no definition exists, and every creation that passes the
  other checks fails with the error of the currency.
\<close>

theorem no_definition_without_funding:
  assumes "documented_currency E reserved" and "(unaided_step C E tr)\<^sup>*\<^sup>* s t"
    and "Definitions s = Map.empty" and "vaults_unfunded E (balances s)"
  shows "Definitions t = Map.empty \<and>
    (\<forall>who h md p u m. ensure_proto_owner t h who = Ok \<and> get_vault_id E (fragment_id E h md) \<noteq> None \<longrightarrow>
       create E (Signed who) h md p u m t = (Err CurrencyError, t))"
proof -
  have t: "barren E t" by (rule barren_steps [OF assms(2,1)]) (simp add: barren_def assms(3,4))
  have "create E (Signed who) h md p u m t = (Err CurrencyError, t)"
    if "ensure_proto_owner t h who = Ok" "get_vault_id E (fragment_id E h md) = Some vault" for who h md p u m vault
    using that t create_unfunded [OF assms(1), of t "Signed who" h md p u m]
    by (auto simp: barren_def create_def Let_def split: option.splits)
  with t show ?thesis by (auto simp: barren_def)
qed

theorem no_definition_without_funding_witness:
  "let t = runtime_on_finalize purse_ext (purse_state rich) in
    create purse_ext (Signed [1]) [7] sample_metadata 7 None None (t\<lparr>block_number := block_number t + 1\<rparr>)
      = (Err CurrencyError, t\<lparr>block_number := block_number t + 1\<rparr>)"
proof -
  let ?t = "runtime_on_finalize purse_ext (purse_state rich)"
  have step: "(unaided_step runtime_config purse_ext True)\<^sup>*\<^sup>* (purse_state rich) (?t\<lparr>block_number := block_number ?t + 1\<rparr>)"
    by (rule r_into_rtranclp, rule unaided_step.block_end) simp
  have empty: "vaults_unfunded purse_ext (balances (purse_state rich))"
    by (auto simp: vaults_unfunded_def rich_def ascii_def)
  have "ensure_proto_owner (?t\<lparr>block_number := block_number ?t + 1\<rparr>) [7] [1] = Ok"
    using runtime_on_finalize_keeps [of purse_ext "purse_state rich"] by (simp add: ensure_proto_owner_Ok)
  then show ?thesis
    using no_definition_without_funding [OF purse_documented step _ empty] by (simp add: Let_def)
qed

end
