(* ===== verification/Ethereum_Client.thy ===== *)
theory Ethereum_Client
  imports Accounts_Properties
begin

text \<open>
  The other side of the signatures that \<open>accounts\<close> checks: what a holder of an Ethereum key
  signs to link an account and to lock or unlock FRAG, as
  \<open>pallets/accounts/src/dummy_data.rs\<close> does it.
\<close>

section \<open>Keys\<close>

text \<open>
  \<open>sp_core::ecdsa::Pair\<close> and \<open>libsecp256k1\<close>: pairs from seeds, the compressed public key, the
  signature of a hash, and the 65 bytes of the uncompressed key (\<open>None\<close> for bytes that are no
  key, on which \<open>unwrap\<close> panics).
\<close>

record 'q wallet =
  pair_from_seed :: "bytes \<Rightarrow> 'q"
  compressed_public :: "'q \<Rightarrow> bytes"
  sign_prehashed :: "'q \<Rightarrow> bytes \<Rightarrow> bytes"
  parse_compressed :: "bytes \<Rightarrow> bytes option"

definition get_ethereum_chain_id :: u64 where
  "get_ethereum_chain_id = 5"

definition get_ethereum_account_id_from_ecdsa_public_struct :: "('b, 'y) ext_scheme \<Rightarrow> ('q, 'w) wallet_scheme
    \<Rightarrow> bytes \<Rightarrow> h160 option" where
  "get_ethereum_account_id_from_ecdsa_public_struct E W public =
     (case parse_compressed W public of
        None \<Rightarrow> None
      | Some uncompressed \<Rightarrow> Some (drop 12 (keccak_256 E (drop 1 uncompressed))))"

section \<open>Signatures\<close>

definition create_link_signature :: "('b, 'y) ext_scheme \<Rightarrow> ('q, 'w) wallet_scheme \<Rightarrow> account_id \<Rightarrow> 'q \<Rightarrow> bytes" where
  "create_link_signature E W clamor_account_id pair =
     sign_prehashed W pair (keccak_256 E (ascii ''EVM2Fragnova'' @ be_bytes 8 get_ethereum_chain_id
       @ encode_account E clamor_account_id))"

text \<open>The two functions for locking and unlocking differ in the first bytes of the message.\<close>

definition sign_frag_message :: "('b, 'y) ext_scheme \<Rightarrow> ('q, 'w) wallet_scheme \<Rightarrow> bytes \<Rightarrow> 'q \<Rightarrow> u256 \<Rightarrow> bytes option" where
  "sign_frag_message E W prefix pair amount =
     (case get_ethereum_account_id_from_ecdsa_public_struct E W (compressed_public W pair) of
        None \<Rightarrow> None
      | Some ethereum_account_id \<Rightarrow>
          (let message = prefix @ ethereum_account_id @ be_bytes 8 get_ethereum_chain_id @ be_bytes 32 amount;
               hashed_message = keccak_256 E (0x19 # ascii ''Ethereum Signed Message:'' @ [0x0a] @ ascii ''32''
                 @ keccak_256 E message)
           in Some (sign_prehashed W pair hashed_message)))"

definition create_lock_signature :: "('b, 'y) ext_scheme \<Rightarrow> ('q, 'w) wallet_scheme \<Rightarrow> 'q \<Rightarrow> u256 \<Rightarrow> bytes option" where
  "create_lock_signature E W pair amount = sign_frag_message E W (ascii ''FragLock'') pair amount"

definition create_unlock_signature :: "('b, 'y) ext_scheme \<Rightarrow> ('q, 'w) wallet_scheme \<Rightarrow> 'q \<Rightarrow> u256 \<Rightarrow> bytes option" where
  "create_unlock_signature E W pair amount = sign_frag_message E W (ascii ''FragUnlock'') pair amount"

section \<open>The test data\<close>

record link_data =
  clamor_account_id :: account_id
  link_signature :: bytes

text \<open>The Ethereum account that the pallet will recover; \<open>None\<close> is the panic of \<open>unwrap\<close>.\<close>

definition get_recovered_ethereum_account_id :: "('b, 'y) ext_scheme \<Rightarrow> link_data \<Rightarrow> h160 option" where
  "get_recovered_ethereum_account_id E l =
     (let hashed_message = keccak_256 E (ascii ''EVM2Fragnova'' @ be_bytes 8 get_ethereum_chain_id
            @ encode_account E (clamor_account_id l))
      in map_option (\<lambda>public. drop 12 (keccak_256 E public)) (ecdsa_recover E (link_signature l) hashed_message))"

record 'q lock_data =
  lock_update_data :: eth_lock_update
  lock_link :: link_data
  ethereum_account_pair :: 'q

record 'q unlock_data =
  unlocked_lock :: "'q lock_data"
  unlock_update_data :: eth_lock_update

definition new_link :: "('b, 'y) ext_scheme \<Rightarrow> ('q, 'w) wallet_scheme \<Rightarrow> u8 \<Rightarrow> link_data" where
  "new_link E W n = \<lparr>clamor_account_id = replicate 32 n,
     link_signature = create_link_signature E W (replicate 32 n) (pair_from_seed W (replicate 32 n))\<rparr>"

definition new_lock_update :: "('b, 'y) ext_scheme \<Rightarrow> ('q, 'w) wallet_scheme \<Rightarrow> u8 \<Rightarrow> u256 \<Rightarrow> bool \<Rightarrow> u64
    \<Rightarrow> eth_lock_update option" where
  "new_lock_update E W n amount lock block =
     (let pair = pair_from_seed W (replicate 32 n) in
      case (get_ethereum_account_id_from_ecdsa_public_struct E W (compressed_public W pair),
            if lock then create_lock_signature E W pair amount else create_unlock_signature E W pair amount) of
        (Some sender, Some signature) \<Rightarrow>
          Some \<lparr>elu_public = Ed25519 (replicate 32 69), elu_amount = amount, elu_sender = sender,
            elu_signature = signature, elu_lock = lock, elu_block_number = block\<rparr>
      | _ \<Rightarrow> None)"

definition new_lock :: "('b, 'y) ext_scheme \<Rightarrow> ('q, 'w) wallet_scheme \<Rightarrow> u8 \<Rightarrow> 'q lock_data option" where
  "new_lock E W n = map_option (\<lambda>d. \<lparr>lock_update_data = d, lock_link = new_link E W n,
     ethereum_account_pair = pair_from_seed W (replicate 32 n)\<rparr>) (new_lock_update E W n 69 True 69)"

record 'q dummy_data =
  dummy_link :: link_data
  dummy_link_second :: link_data
  dummy_lock :: "'q lock_data"
  dummy_unlock :: "'q unlock_data"
  dummy_account_id :: account_id
  dummy_account_id_second :: account_id
  dummy_pair :: 'q
  dummy_link_signature :: bytes
  dummy_lock_signature :: bytes

definition new_dummy_data :: "('b, 'y) ext_scheme \<Rightarrow> ('q, 'w) wallet_scheme \<Rightarrow> 'q dummy_data option" where
  "new_dummy_data E W =
     (case (new_lock E W 3, new_lock E W 4, new_lock_update E W 4 0 False (69 + 69)) of
        (Some lock, Some locked, Some unlock) \<Rightarrow>
          Some \<lparr>dummy_link = new_link E W 1, dummy_link_second = new_link E W 2, dummy_lock = lock,
            dummy_unlock = \<lparr>unlocked_lock = locked, unlock_update_data = unlock\<rparr>,
            dummy_account_id = replicate 32 111, dummy_account_id_second = replicate 32 222,
            dummy_pair = pair_from_seed W (replicate 32 111),
            dummy_link_signature = replicate 65 111, dummy_lock_signature = replicate 65 111\<rparr>
      | _ \<Rightarrow> None)"

section \<open>What is signed is recovered\<close>

text \<open>
  Hashes have 32 bytes, and from the signature of such a hash the recovery of \<open>sp_io\<close> gets
  the uncompressed key of the signer, without its first byte.
\<close>

definition recoverable :: "('b, 'y) ext_scheme \<Rightarrow> ('q, 'w) wallet_scheme \<Rightarrow> bool" where
  "recoverable E W \<longleftrightarrow> (\<forall>b. length (keccak_256 E b) = 32) \<and>
     (\<forall>pair h. length h = 32 \<longrightarrow> (\<exists>u. parse_compressed W (compressed_public W pair) = Some u \<and>
        ecdsa_recover E (sign_prehashed W pair h) h = Some (drop 1 u)))"

text \<open>The Ethereum account of a pair of keys.\<close>

definition ethereum_account :: "('b, 'y) ext_scheme \<Rightarrow> ('q, 'w) wallet_scheme \<Rightarrow> 'q \<Rightarrow> h160" where
  "ethereum_account E W pair =
     the (get_ethereum_account_id_from_ecdsa_public_struct E W (compressed_public W pair))"

lemma ethereum_account_eq:
  assumes "recoverable E W"
  shows "get_ethereum_account_id_from_ecdsa_public_struct E W (compressed_public W pair) = Some (ethereum_account E W pair)"
proof -
  obtain u where "parse_compressed W (compressed_public W pair) = Some u"
    using assms unfolding recoverable_def by (meson length_replicate)
  then show ?thesis by (simp add: ethereum_account_def get_ethereum_account_id_from_ecdsa_public_struct_def)
qed

lemma recovered_signer:
  assumes "recoverable E W"
  shows "recover_address E (sign_prehashed W pair (keccak_256 E b)) (keccak_256 E b) = Some (ethereum_account E W pair)"
proof -
  have "length (keccak_256 E b) = 32" using assms by (simp add: recoverable_def)
  then obtain u where "parse_compressed W (compressed_public W pair) = Some u"
    and "ecdsa_recover E (sign_prehashed W pair (keccak_256 E b)) (keccak_256 E b) = Some (drop 1 u)"
    using assms unfolding recoverable_def by blast
  then show ?thesis
    by (simp add: recover_address_def ethereum_account_def get_ethereum_account_id_from_ecdsa_public_struct_def)
qed

lemma link_signature_recovered:
  assumes "recoverable E W" and "EthChainId C = get_ethereum_chain_id"
  shows "recover_address E (create_link_signature E W who pair) (link_message_hash C E who) = Some (ethereum_account E W pair)"
  unfolding create_link_signature_def link_message_hash_def assms(2) by (rule recovered_signer [OF assms(1)])

lemma frag_signature_recovered:
  assumes "recoverable E W" and "EthChainId C = get_ethereum_chain_id"
    and "elu_sender d = ethereum_account E W pair" and "elu_amount d = amount"
    and "(if elu_lock d then create_lock_signature E W pair amount else create_unlock_signature E W pair amount)
      = Some (elu_signature d)"
  shows "recover_address E (elu_signature d) (lock_message_hash C E d) = Some (elu_sender d)"
proof -
  have "elu_signature d = sign_prehashed W pair (lock_message_hash C E d)"
    using assms(2-5) by (auto simp: create_lock_signature_def create_unlock_signature_def sign_frag_message_def
        ethereum_account_eq [OF assms(1)] lock_message_hash_def Let_def split: if_splits)
  then show ?thesis unfolding assms(3) lock_message_hash_def Let_def by (simp only: recovered_signer [OF assms(1)])
qed

lemma get_recovered_new_link:
  "recoverable E W \<Longrightarrow> get_recovered_ethereum_account_id E (new_link E W n)
     = Some (ethereum_account E W (pair_from_seed W (replicate 32 n)))"
  using recovered_signer [of E W "pair_from_seed W (replicate 32 n)"]
  by (simp add: get_recovered_ethereum_account_id_def new_link_def create_link_signature_def recover_address_def Let_def)

lemma new_lock_update_valid:
  assumes "recoverable E W" and "EthChainId C = get_ethereum_chain_id" and "new_lock_update E W n amount lock block = Some d"
    and "unat amount < 2 ^ 128" and "lock \<longleftrightarrow> (ucast amount :: balance) \<noteq> 0"
  shows "lock_event_valid C E d"
proof -
  let ?pair = "pair_from_seed W (replicate 32 n)"
  from assms(3) have d: "elu_sender d = ethereum_account E W ?pair" "elu_amount d = amount" "elu_lock d = lock"
    "(if elu_lock d then create_lock_signature E W ?pair amount else create_unlock_signature E W ?pair amount)
      = Some (elu_signature d)"
    by (auto simp: new_lock_update_def ethereum_account_eq [OF assms(1)] Let_def split: option.splits if_splits)
  show ?thesis
    using frag_signature_recovered [OF assms(1,2) d(1,2,4)] assms(4,5) by (simp add: lock_event_valid_def d)
qed

lemma new_lock_update_some: "recoverable E W \<Longrightarrow> \<exists>d. new_lock_update E W n amount lock block = Some d"
  by (simp add: new_lock_update_def create_lock_signature_def create_unlock_signature_def sign_frag_message_def
      ethereum_account_eq Let_def)

text \<open>The test data exists, and the pallet accepts its events and links.\<close>

lemma dummy_data_accepted:
  assumes "recoverable E W" and "EthChainId C = get_ethereum_chain_id"
  shows "\<exists>D. new_dummy_data E W = Some D \<and> lock_event_valid C E (lock_update_data (dummy_lock D)) \<and>
    lock_event_valid C E (lock_update_data (unlocked_lock (dummy_unlock D))) \<and>
    lock_event_valid C E (unlock_update_data (dummy_unlock D)) \<and>
    elu_sender (unlock_update_data (dummy_unlock D)) = elu_sender (lock_update_data (unlocked_lock (dummy_unlock D)))"
proof -
  obtain d3 d4 d4' where d: "new_lock_update E W 3 69 True 69 = Some d3" "new_lock_update E W 4 69 True 69 = Some d4"
    "new_lock_update E W 4 0 False (69 + 69) = Some d4'"
    using new_lock_update_some [OF assms(1)] by metis
  moreover have "lock_event_valid C E d3" "lock_event_valid C E d4" "lock_event_valid C E d4'"
    by (rule new_lock_update_valid [OF assms d(1)], simp_all)
      (rule new_lock_update_valid [OF assms d(2)], simp_all, rule new_lock_update_valid [OF assms d(3)], simp_all)
  moreover have "elu_sender d4' = elu_sender d4"
    using d(2,3) by (auto simp: new_lock_update_def Let_def split: option.splits)
  ultimately show ?thesis by (simp add: new_dummy_data_def new_lock_def)
qed

end
