(* ===== verification/Test_Runtime.thy ===== *)
theory Test_Runtime
  imports Ethereum_Client Chain_Spec
begin

text \<open>
  The runtimes that the pallets are tested on (\<open>pallets/*/src/mock.rs\<close>) and the test data of
  \<open>pallets/protos/src/dummy_data.rs\<close>: their configuration, their first state, the simulation of
  blocks, and what differs from the runtime of the chain.
\<close>

section \<open>Configurations\<close>

text \<open>The mock of \<open>accounts\<close> names a contract itself; the others take the trait's default.\<close>

definition default_partner_contracts :: "bytes list" where
  "default_partner_contracts = [ascii ''0xBADF00D'']"

definition test_accounts_config :: config where
  "test_accounts_config = \<lparr>EthChainId = 5, EthConfirmations = 1, Threshold = 1,
     ProxyDepositBase = 1, ProxyDepositFactor = 1, MaxProxies = 4\<rparr>"

definition test_protos_config :: protos_config where
  "test_protos_config = \<lparr>EthChainId = 5, EthConfirmations = 1, Threshold = 1,
     ProxyDepositBase = 1, ProxyDepositFactor = 1, MaxProxies = 4,
     StorageBytesMultiplier = 10, StakeLockupPeriod = 5\<rparr>"

definition test_fragments_config :: protos_config where
  "test_fragments_config = \<lparr>EthChainId = 5, EthConfirmations = 1, Threshold = 1,
     ProxyDepositBase = 1, ProxyDepositFactor = 1, MaxProxies = 4,
     StorageBytesMultiplier = 10, StakeLockupPeriod = 100800\<rparr>"

text \<open>
  \<open>type Currency = ()\<close> of \<open>pallet_assets\<close> in the mocks: \<open>frame_support\<close>'s currency without
  balances, whose reservations always succeed. It is the currency that \<open>create\<close> reserves in.
\<close>

definition with_unit_currency :: "('b, 'y) ext_scheme \<Rightarrow> ('b, 'y) ext_scheme" where
  "with_unit_currency E = E\<lparr>minimum_balance := 0, reserve := (\<lambda>b _ _. Some b)\<rparr>"

definition test_create_transaction :: "'call \<Rightarrow> multi_signer \<Rightarrow> account_id \<Rightarrow> u64 \<Rightarrow> ('call \<times> u64 \<times> unit) option" where
  "test_create_transaction call public account nonce = Some (call, nonce, ())"

section \<open>The first state and the simulation of blocks\<close>

definition new_test_ext :: "'b \<Rightarrow> ('b, 'c, 'p) fragments_state" where
  "new_test_ext b = (blank_state b)\<lparr>block_number := 1\<rparr>"

text \<open>The mock of \<open>fragments\<close> stays in block 0.\<close>

definition new_fragments_test_ext :: "'b \<Rightarrow> ('b, 'c, 'p) fragments_state" where
  "new_fragments_test_ext b = blank_state b"

text \<open>The hooks of \<open>frame_system\<close> are parameters.\<close>

partial_function (option) run_to_block :: "(('b, 'c, 'x) protos_state_scheme \<Rightarrow> ('b, 'c, 'x) protos_state_scheme)
    \<Rightarrow> (('b, 'c, 'x) protos_state_scheme \<Rightarrow> ('b, 'c, 'x) protos_state_scheme)
    \<Rightarrow> block_num \<Rightarrow> ('b, 'c, 'x) protos_state_scheme \<Rightarrow> ('b, 'c, 'x) protos_state_scheme option" where
  "run_to_block system_on_finalize system_on_initialize n s =
     (if block_number s < n then
        (let s1 = (if block_number s > 0 then system_on_finalize (protos_on_finalize s) else s)
         in run_to_block system_on_finalize system_on_initialize n
              (system_on_initialize (s1\<lparr>block_number := block_number s1 + 1\<rparr>)))
      else Some s)"

section \<open>Test data of \<open>protos\<close>\<close>

definition compute_data_hash :: "('b, 'y) ext_scheme \<Rightarrow> bytes \<Rightarrow> hash256" where
  "compute_data_hash E data = blake2_256 E data"

definition compute_data_cid :: "('b, 'y) ext_scheme \<Rightarrow> bytes \<Rightarrow> bytes" where
  "compute_data_cid E data =
     (let hash = compute_data_hash E data; cid = CID_PREFIX @ hash; cid = to_base58 E cid in ascii ''z'' @ cid)"

record 'c proto_fragment =
  pf_references :: "hash256 list"
  pf_category :: 'c
  pf_tags :: "bytes list"
  pf_linked_asset :: "linked_asset option"
  pf_include_cost :: "u64 option"
  pf_data :: bytes

definition get_proto_hash :: "('b, 'y) ext_scheme \<Rightarrow> ('c, 'w) proto_fragment_scheme \<Rightarrow> hash256" where
  "get_proto_hash E p = compute_data_hash E (pf_data p)"

definition get_proto_cid :: "('b, 'y) ext_scheme \<Rightarrow> ('c, 'w) proto_fragment_scheme \<Rightarrow> bytes" where
  "get_proto_cid E p = compute_data_cid E (pf_data p)"

record 'c patch_data =
  patched_fragment :: "'c proto_fragment"
  new_include_cost :: "u64 option"
  new_references :: "hash256 list"
  new_data :: bytes

definition get_patch_hash :: "('b, 'y) ext_scheme \<Rightarrow> ('c, 'w) patch_data_scheme \<Rightarrow> hash256" where
  "get_patch_hash E p = compute_data_hash E (new_data p)"

definition get_patch_cid :: "('b, 'y) ext_scheme \<Rightarrow> ('c, 'w) patch_data_scheme \<Rightarrow> bytes" where
  "get_patch_cid E p = compute_data_cid E (new_data p)"

record 'c metadata_data =
  described_fragment :: "'c proto_fragment"
  metadata_key :: bytes
  metadata_bytes :: bytes

definition get_metadata_hash :: "('b, 'y) ext_scheme \<Rightarrow> ('c, 'w) metadata_data_scheme \<Rightarrow> hash256" where
  "get_metadata_hash E m = compute_data_hash E (metadata_bytes m)"

record ('c, 'q) stake_data =
  staked_fragment :: "'c proto_fragment"
  stake_lock :: "'q lock_data"

text \<open>\<open>None\<close> is the panic of \<open>unwrap\<close>.\<close>

definition get_stake_amount :: "('c, 'q) stake_data \<Rightarrow> u64 option" where
  "get_stake_amount st = pf_include_cost (staked_fragment st)"

record ('c, 'q) protos_dummy_data =
  dummy_proto :: "'c proto_fragment"
  dummy_proto_second :: "'c proto_fragment"
  dummy_patch :: "'c patch_data"
  dummy_metadata :: "'c metadata_data"
  dummy_stake :: "('c, 'q) stake_data"
  dummy_owner :: account_id
  dummy_owner_second :: account_id
  dummy_ethereum_account :: h160

definition text_fragment :: "'c \<Rightarrow> u64 \<Rightarrow> string \<Rightarrow> 'c proto_fragment" where
  "text_fragment plain cost data = \<lparr>pf_references = [], pf_category = plain, pf_tags = [], pf_linked_asset = None,
     pf_include_cost = Some cost, pf_data = ascii data\<rparr>"

text \<open>
  The category \<open>Text(Plain)\<close> and the random Ethereum account are arguments. The link of the
  stake names account 255, its signature is for account 3.
\<close>

definition new_stake_lock :: "('b, 'y) ext_scheme \<Rightarrow> ('q, 'w) wallet_scheme \<Rightarrow> 'q lock_data option" where
  "new_stake_lock E W =
     map_option (\<lambda>d. \<lparr>lock_update_data = d,
       lock_link = \<lparr>clamor_account_id = replicate 32 255,
         link_signature = create_link_signature E W (replicate 32 3) (pair_from_seed W (replicate 32 1))\<rparr>,
       ethereum_account_pair = pair_from_seed W (replicate 32 1)\<rparr>) (new_lock_update E W 1 69 True 69)"

definition new_protos_dummy_data :: "('b, 'y) ext_scheme \<Rightarrow> ('q, 'w) wallet_scheme \<Rightarrow> 'c \<Rightarrow> h160
    \<Rightarrow> ('c, 'q) protos_dummy_data option" where
  "new_protos_dummy_data E W plain random =
     map_option (\<lambda>lock.
       \<lparr>dummy_proto = text_fragment plain 867 ''0x0155a0e40220'',
        dummy_proto_second = text_fragment plain 2 ''0x222'',
        dummy_patch = \<lparr>patched_fragment = text_fragment plain 3 ''0x333'', new_include_cost = Some 123,
          new_references = [], new_data = ascii ''<Insert Anything Here>''\<rparr>,
        dummy_metadata = \<lparr>described_fragment = text_fragment plain 4 ''0x444'',
          metadata_key = ascii ''json_description'', metadata_bytes = ascii ''{\"name\": \"ram\"}''\<rparr>,
        dummy_stake = \<lparr>staked_fragment = text_fragment plain 5 ''0x555'', stake_lock = lock\<rparr>,
        dummy_owner = replicate 32 1, dummy_owner_second = replicate 32 2, dummy_ethereum_account = random\<rparr>)
       (new_stake_lock E W)"

section \<open>Lemmas\<close>

text \<open>In the tests a creation that passes its own checks always succeeds.\<close>

lemma create_in_tests:
  assumes "ensure_proto_owner s h who = Ok" and "Definitions s (fragment_id E h md) = None"
    and "get_vault_id E (fragment_id E h md) \<noteq> None"
  shows "fst (create (with_unit_currency E) (Signed who) h md p u m s) = Ok"
proof -
  have "fragment_id (with_unit_currency E) h md = fragment_id E h md"
    "get_vault_id (with_unit_currency E) f = get_vault_id E f" "reserve (with_unit_currency E) b a v = Some b" for f b a v
    by (simp_all add: with_unit_currency_def fragment_id_def get_vault_id_def)
  with assms show ?thesis by (auto simp: create_def Let_def)
qed

text \<open>The hash and the content id that a client computes are those that an upload stores and announces.\<close>

lemma compute_data_cid_eq: "compute_data_cid E data = cid_of E (blake2_256 E data)"
  by (simp add: compute_data_cid_def compute_data_hash_def cid_of_def)

lemma upload_found:
  assumes "upload E (Signed who) (pf_references p) (pf_category p) (pf_tags p) (pf_linked_asset p) (pf_include_cost p)
      (pf_data p) s = (Ok, t)"
  shows "\<exists>q. Protos t (get_proto_hash E p) = Some q \<and> proto_references q = pf_references p \<and>
    proto_category q = pf_category p \<and> proto_include_cost q = pf_include_cost p \<and> proto_creator q = who"
    and "last (protos_events t) = Protos_Uploaded (get_proto_hash E p) (get_proto_cid E p)"
  using assms by (auto elim!: upload_Ok simp: get_proto_hash_def get_proto_cid_def compute_data_cid_eq compute_data_hash_def)

text \<open>The simulation ends in the block that was asked for.\<close>

lemma run_to_block_reaches:
  assumes "\<And>s. block_number (fin s) = block_number s" and "\<And>s. block_number (ini s) = block_number s"
    and "block_number s \<le> n"
  shows "\<exists>t. run_to_block fin ini n s = Some t \<and> block_number t = n"
  using assms(3)
proof (induction "unat n - unat (block_number s)" arbitrary: s rule: less_induct)
  case less
  show ?case
  proof (cases "block_number s < n")
    case True
    let ?s1 = "if block_number s > 0 then fin (protos_on_finalize s) else s"
    let ?s2 = "ini (?s1\<lparr>block_number := block_number ?s1 + 1\<rparr>)"
    obtain ps as where "protos_on_finalize s = s\<lparr>PendingUnlinks := [], ProtoStakes := ps, AccountStakes := as\<rparr>"
      using protos_on_finalize_frame by blast
    then have b: "block_number ?s2 = block_number s + 1" by (simp add: assms(1,2))
    have "unat (block_number s + 1) = unat (block_number s) + 1"
      using True unsigned_less [of n, where 'a = nat] unat_plus_small [of "block_number s" 1] by (simp add: word_less_nat_alt)
    then have "unat n - unat (block_number ?s2) < unat n - unat (block_number s)" "block_number ?s2 \<le> n"
      using True unfolding b by (simp_all add: word_less_nat_alt word_le_nat_alt)
    from less(1) [OF this] show ?thesis using True by (simp add: run_to_block.simps [of fin ini n s] Let_def)
  qed (use less(2) in \<open>simp add: run_to_block.simps [of fin ini n s]\<close>)
qed

end
