(* ===== verification/Runtime_Types.thy ===== *)
theory Runtime_Types
  imports Chain_Spec Fragments_Properties
begin

text \<open>
  The types of the code that the model writes as byte strings: arrays of a fixed length. The
  storage holds only values of these types, from genesis on.
\<close>

named_theorems typed_intros \<open>what a storage operation keeps of the types of a map\<close>

section \<open>Typed maps\<close>

definition sized :: "nat \<Rightarrow> bytes \<Rightarrow> bool" where "sized n b \<longleftrightarrow> length b = n"

definition typed_map :: "('k \<Rightarrow> bool) \<Rightarrow> ('v \<Rightarrow> bool) \<Rightarrow> ('k \<rightharpoonup> 'v) \<Rightarrow> bool" where
  "typed_map P Q m \<longleftrightarrow> (\<forall>k v. m k = Some v \<longrightarrow> P k \<and> Q v)"

lemma typed_mapD: "typed_map P Q m \<Longrightarrow> m k = Some v \<Longrightarrow> P k \<and> Q v"
  by (simp add: typed_map_def)

lemma typed_map_empty [simp]: "typed_map P Q Map.empty"
  by (simp add: typed_map_def)

lemma typed_map_upd [typed_intros]: "typed_map P Q m \<Longrightarrow> P k \<Longrightarrow> Q v \<Longrightarrow> typed_map P Q (m(k \<mapsto> v))"
  by (simp add: typed_map_def)

lemma typed_map_del [typed_intros]: "typed_map P Q m \<Longrightarrow> typed_map P Q (m(k := None))"
  by (simp add: typed_map_def)

lemma typed_map_append [typed_intros]:
  "typed_map P (list_all Q) m \<Longrightarrow> P k \<Longrightarrow> Q v \<Longrightarrow> typed_map P (list_all Q) (storage_append m k v)"
  by (auto simp: typed_map_def storage_append_def split: option.split)

lemma typed_map_append_any [typed_intros]:
  "typed_map P (\<lambda>_. True) m \<Longrightarrow> P k \<Longrightarrow> typed_map P (\<lambda>_. True) (storage_append m k v)"
  by (auto simp: typed_map_def storage_append_def)

lemma typed_map_mutate [typed_intros]:
  "typed_map P Q m \<Longrightarrow> (\<And>v. Q v \<Longrightarrow> Q (f v)) \<Longrightarrow> typed_map P Q (storage_mutate m k f)"
  by (auto simp: typed_map_def storage_mutate_def split: option.split)

lemma typed_map_fold_del [typed_intros]:
  "typed_map P Q m \<Longrightarrow> typed_map P Q (fold (\<lambda>h m. m((h, a) := None)) hs m)"
  by (induction hs arbitrary: m) (simp_all add: typed_map_del)

lemma list_all_retain [typed_intros]: "list_all P xs \<Longrightarrow> list_all P (retain_not x xs)"
  by (simp add: retain_not_def list_all_iff)

lemma list_all_remove1 [typed_intros]: "list_all P xs \<Longrightarrow> list_all P (remove1 x xs)"
  by (auto simp: list_all_iff dest: notin_set_remove1 [rotated] set_remove1_subset [THEN subsetD])

section \<open>Types of the pallets\<close>

definition typed_owner :: "proto_owner \<Rightarrow> bool" where
  "typed_owner o' \<longleftrightarrow> (case o' of User a \<Rightarrow> sized 32 a
     | ExternalAsset (Erc721 contract _ (Evm signature _ _)) \<Rightarrow> sized 20 contract \<and> sized 65 signature)"

definition typed_patch :: "proto_patch \<Rightarrow> bool" where
  "typed_patch p \<longleftrightarrow> sized 32 (patch_data_hash p) \<and> list_all (sized 32) (patch_references p)"

definition typed_proto :: "'c proto \<Rightarrow> bool" where
  "typed_proto p \<longleftrightarrow> list_all typed_patch (proto_patches p) \<and> sized 32 (proto_creator p) \<and>
     typed_owner (proto_owned_by p) \<and> list_all (sized 32) (proto_references p) \<and>
     typed_map (\<lambda>_. True) (sized 32) (proto_metadata p)"

definition typed_definition :: "'p fragment_definition \<Rightarrow> bool" where
  "typed_definition d \<longleftrightarrow> sized 32 (fd_proto_hash d) \<and> sized 32 (fd_creator d)"

definition typed_instance :: "'p fragment_instance \<Rightarrow> bool" where
  "typed_instance i \<longleftrightarrow> pred_option (sized 32) (fi_custom_data i)"

lemma typed_instance_perms [simp]: "typed_instance (i\<lparr>fi_permissions := p\<rparr>) = typed_instance i"
  by (simp add: typed_instance_def)

definition typed_detach :: "('b, 'x) detach_state_scheme \<Rightarrow> bool" where
  "typed_detach s \<longleftrightarrow> typed_map (sized 32) (\<lambda>_. True) (DetachedHashes s) \<and>
     (\<forall>k \<in> EthereumAuthorities s. sized 33 k) \<and> (\<forall>k \<in> detach_FragKeys s. sized 32 k) \<and>
     pred_option (list_all (\<lambda>r. sized 32 (req_hash r))) (offchain_requests s)"

definition typed_requests :: "('b, 'x) detach_state_scheme \<Rightarrow> bool" where
  "typed_requests s \<longleftrightarrow> list_all (\<lambda>r. sized 32 (req_hash r)) (DetachRequests s)"

definition typed_accounts :: "('b, 'x) accounts_state_scheme \<Rightarrow> bool" where
  "typed_accounts s \<longleftrightarrow> typed_map (sized 20) (\<lambda>_. True) (EthLockedFrag s) \<and>
     typed_map (sized 32) (sized 20) (EVMLinks s) \<and> typed_map (sized 20) (sized 32) (EVMLinksReverse s) \<and>
     typed_map (sized 32) (\<lambda>_. True) (FragUsage s) \<and> typed_map (sized 32) (\<lambda>_. True) (EVMLinkVoting s) \<and>
     typed_map (sized 32) (\<lambda>_. True) (EVMLinkVotingClosed s) \<and> list_all (sized 32) (PendingUnlinks s) \<and>
     (\<forall>k \<in> accounts_FragKeys s. sized 32 k) \<and>
     typed_map (\<lambda>_. True) (\<lambda>i. sized 32 (info_account_id i)) (ExternalID2Account s)"

definition typed_protos :: "('b, 'c, 'x) protos_state_scheme \<Rightarrow> bool" where
  "typed_protos s \<longleftrightarrow> typed_map (sized 32) typed_proto (Protos s) \<and>
     typed_map (\<lambda>_. True) (list_all (sized 32)) (ProtosByCategory s) \<and>
     typed_map typed_owner (list_all (sized 32)) (ProtosByOwner s) \<and>
     typed_map (\<lambda>(h, a). sized 32 h \<and> sized 32 a) (\<lambda>_. True) (ProtoStakes s) \<and>
     typed_map (sized 32) (list_all (sized 32)) (AccountStakes s)"

definition typed_fragments :: "('b, 'c, 'p, 'x) fragments_state_scheme \<Rightarrow> bool" where
  "typed_fragments s \<longleftrightarrow> typed_map (sized 32) (list_all (sized 16)) (Proto2Fragments s) \<and>
     typed_map (sized 16) typed_definition (Definitions s) \<and> typed_map (sized 16) (\<lambda>_. True) (Publishing s) \<and>
     typed_map (sized 16) (\<lambda>_. True) (EditionsCount s) \<and> typed_map (\<lambda>(f, _). sized 16 f) (\<lambda>_. True) (CopiesCount s) \<and>
     typed_map (\<lambda>(f, _). sized 16 f) typed_instance (Fragments s) \<and>
     typed_map (\<lambda>(f, h). sized 16 f \<and> sized 32 h) (\<lambda>_. True) (UniqueData2Edition s) \<and>
     typed_map (\<lambda>(f, a). sized 16 f \<and> sized 32 a) (\<lambda>_. True) (Owners s) \<and>
     typed_map (\<lambda>(a, f). sized 32 a \<and> sized 16 f) (\<lambda>_. True) (Inventory s) \<and>
     typed_map (\<lambda>_. True) (list_all (\<lambda>(f, _). sized 16 f)) (Expirations s)"

definition well_typed :: "('b, 'c, 'p, 'x) fragments_state_scheme \<Rightarrow> bool" where
  "well_typed s \<longleftrightarrow> typed_detach s \<and> typed_requests s \<and> typed_accounts s \<and> typed_protos s \<and> typed_fragments s"

lemmas typed_defs = typed_detach_def typed_requests_def typed_accounts_def typed_protos_def typed_fragments_def

text \<open>The arguments of the calls.\<close>

fun typed_detach_call :: "detach_call \<Rightarrow> bool" where
  "typed_detach_call (Add_eth_auth p) = sized 33 p"
| "typed_detach_call (Del_eth_auth p) = sized 33 p"
| "typed_detach_call (Detach_Add_key p) = sized 32 p"
| "typed_detach_call (Detach_Del_key p) = sized 32 p"
| "typed_detach_call (Internal_finalize_detach d sig) = sized 32 (det_hash d)"

fun typed_accounts_call :: "accounts_call \<Rightarrow> bool" where
  "typed_accounts_call (Accounts_Add_key p) = sized 32 p"
| "typed_accounts_call (Accounts_Del_key p) = sized 32 p"
| "typed_accounts_call (Link sig) = sized 65 sig"
| "typed_accounts_call (Unlink k) = sized 20 k"
| "typed_accounts_call (Internal_lock_update d sig) = (sized 20 (elu_sender d) \<and> sized 65 (elu_signature d))"
| "typed_accounts_call (Sponsor_account x) = True"

fun typed_protos_call :: "'c protos_call \<Rightarrow> bool" where
  "typed_protos_call (Upload refs c tags asset cost data) =
     (list_all (sized 32) refs \<and> pred_option (\<lambda>a. typed_owner (ExternalAsset a)) asset)"
| "typed_protos_call (Patch h cost refs tags data) = (sized 32 h \<and> list_all (sized 32) refs)"
| "typed_protos_call (Transfer h a) = (sized 32 h \<and> sized 32 a)"
| "typed_protos_call (Set_metadata h key data) = sized 32 h"
| "typed_protos_call (Detach h chain a) = sized 32 h"
| "typed_protos_call (Stake h amount) = sized 32 h"
| "typed_protos_call (Unstake h) = sized 32 h"

fun typed_address :: "multi_address \<Rightarrow> bool" where
  "typed_address (Id a) = sized 32 a"
| "typed_address _ = True"

fun typed_fragments_call :: "'p fragments_call \<Rightarrow> bool" where
  "typed_fragments_call (Create h md p u m) = sized 32 h"
| "typed_fragments_call (Publish f price q ex a) = sized 16 f"
| "typed_fragments_call (Unpublish f) = sized 16 f"
| "typed_fragments_call (Mint f opt a) = sized 16 f"
| "typed_fragments_call (Buy f opt) = sized 16 f"
| "typed_fragments_call (Give f e c dest p ex) = (sized 16 f \<and> typed_address dest)"
| "typed_fragments_call (Create_account f e c) = sized 16 f"

fun typed_call :: "('c, 'p) runtime_call \<Rightarrow> bool" where
  "typed_call (Protos_Call c) = typed_protos_call c"
| "typed_call (Fragments_Call c) = typed_fragments_call c"
| "typed_call (Detach_Call c) = typed_detach_call c"
| "typed_call (Accounts_Call c) = typed_accounts_call c"

fun typed_origin :: "account_id origin \<Rightarrow> bool" where
  "typed_origin (Signed a) = sized 32 a"
| "typed_origin _ = True"

definition typed_extrinsic :: "('c, 'p) extrinsic \<Rightarrow> bool" where
  "typed_extrinsic x \<longleftrightarrow> (case extrinsic_call x of (og, c) \<Rightarrow> typed_origin og \<and> typed_call c)"

text \<open>The results of the functions outside the repository.\<close>

definition typed_ext :: "('b, 'p, 'y) fragments_ext_scheme \<Rightarrow> bool" where
  "typed_ext E \<longleftrightarrow> (\<forall>b. sized 32 (blake2_256 E b)) \<and> (\<forall>b. sized 16 (blake2_128 E b)) \<and>
     (\<forall>b. sized 32 (keccak_256 E b)) \<and> (\<forall>b a. decode_account E b = Some a \<longrightarrow> sized 32 a) \<and>
     (\<forall>s d a. typed_address d \<longrightarrow> lookup_address E s d = Some a \<longrightarrow> sized 32 a)"

section \<open>Every call keeps the types\<close>

lemma typed_detach_dispatch:
  "typed_detach s \<Longrightarrow> typed_detach_call c \<Longrightarrow> detach_dispatch og c s = (r, t) \<Longrightarrow> typed_detach t"
  by (cases c) (auto simp: detach_call_defs Let_def typed_detach_def intro: typed_intros split: if_splits)

lemma typed_upload:
  assumes "typed_protos s" and "typed_origin og" and "typed_protos_call (Upload refs c tags asset cost data)"
    and "\<And>b. sized 32 (blake2_256 E b)" and "upload E og refs c tags asset cost data s = (Ok, t)"
  shows "typed_protos t"
  using assms(5)
proof (cases rule: upload_Ok)
  case (1 who ei "is" m n)
  have "sized 32 who" using assms(2) 1(1) by simp
  then have "typed_owner (case asset of None \<Rightarrow> User who | Some a \<Rightarrow> ExternalAsset a)"
    using assms(3) by (cases asset) (simp_all add: typed_owner_def)
  then show ?thesis
    using assms(1,3,4) \<open>sized 32 who\<close> by (simp add: 1(6) typed_protos_def typed_proto_def typed_intros)
qed

lemma typed_patched:
  "typed_proto p \<Longrightarrow> list_all (sized 32) refs \<Longrightarrow> sized 32 h \<Longrightarrow> typed_proto (patched n cost refs is data h p)"
  by (simp add: typed_proto_def patched_def typed_patch_def)

lemma typed_protos_dispatch:
  assumes "typed_protos s" and "typed_origin og" and "typed_protos_call c"
    and "\<And>b. sized 32 (blake2_256 E b)" and "\<And>b a. decode_account E b = Some a \<Longrightarrow> sized 32 a"
    and "protos_dispatch C E og c s = (Ok, t)"
  shows "typed_protos t"
proof (cases c)
  case (Upload refs c tags asset cost data)
  then show ?thesis by (intro typed_upload [OF assms(1,2) _ assms(4)]) (use assms in simp_all)
next
  case (Patch h cost refs tags data)
  with assms(6) have "patch E og h cost refs tags data s = (Ok, t)" by simp
  then show ?thesis
  proof (cases rule: patch_Ok)
    case (1 who p ei "is" m n)
    have "sized 32 h \<and> typed_proto p" using assms(1) 1(2) by (auto simp: typed_protos_def dest: typed_mapD)
    then show ?thesis
      using assms(1,3,4) Patch by (simp add: 1(8) typed_protos_def typed_intros typed_patched)
  qed
next
  case (Transfer h a)
  with assms(6) have "transfer og h a s = (Ok, t)" by simp
  then show ?thesis
  proof (cases rule: transfer_Ok)
    case (1 who p)
    have "sized 32 h \<and> typed_proto p" using assms(1) 1(2) by (auto simp: typed_protos_def dest: typed_mapD)
    then show ?thesis
      using assms(1,3) Transfer by (simp add: 1(5) typed_protos_def typed_proto_def typed_owner_def typed_intros)
  qed
next
  case (Set_metadata h key data)
  with assms(6) have "set_metadata E og h key data s = (Ok, t)" by simp
  then show ?thesis
  proof (cases rule: set_metadata_Ok)
    case (1 who p ei i m n)
    have "sized 32 h \<and> typed_proto p" using assms(1) 1(2) by (auto simp: typed_protos_def dest: typed_mapD)
    then show ?thesis
      using assms(1,4) by (simp add: 1(7) typed_protos_def typed_proto_def typed_intros)
  qed
next
  case (Detach h chain a)
  with assms(6) have "detach og h chain a s = (Ok, t)" by simp
  then show ?thesis by (cases rule: detach_Ok) (use assms(1) in \<open>simp add: typed_protos_def\<close>)
next
  case (Stake h amount)
  with assms(6) have "stake E og h amount s = (Ok, t)" by simp
  then show ?thesis
  proof (cases rule: stake_Ok)
    case (1 caller who account lock used)
    have "sized 32 who" using 1(2) assms(5) by (auto simp: get_locked_frag_account_def)
    then show ?thesis using assms(1,3) Stake by (simp add: 1(8) typed_protos_def typed_intros)
  qed
next
  case (Unstake h)
  with assms(6) have "unstake C og h s = (Ok, t)" by simp
  then show ?thesis by (cases rule: unstake_Ok) (use assms(1) in \<open>simp add: typed_protos_def typed_intros\<close>)
qed

lemma typed_requests_dispatch:
  assumes "typed_requests s" and "typed_protos s" and "protos_dispatch C E og c s = (Ok, t)"
  shows "typed_requests t"
proof (cases c)
  case (Detach h chain a)
  with assms(3) have "detach og h chain a s = (Ok, t)" by simp
  then show ?thesis
    by (cases rule: detach_Ok) (use assms(1,2) in \<open>auto simp: typed_requests_def typed_protos_def dest: typed_mapD\<close>)
qed (use assms in \<open>auto elim!: upload_Ok patch_Ok transfer_Ok set_metadata_Ok stake_Ok unstake_Ok simp: typed_requests_def\<close>)

lemma typed_recover:
  "(\<And>b. sized 32 (keccak_256 E b)) \<Longrightarrow> recover_address E sig m = Some k \<Longrightarrow> sized 20 k"
  by (auto simp: recover_address_def sized_def)

lemma typed_accounts_updates:
  assumes "typed_accounts s"
  shows "typed_map (sized 20) (\<lambda>_. True) (EthLockedFrag s)" "typed_map (sized 32) (sized 20) (EVMLinks s)"
    "typed_map (sized 20) (sized 32) (EVMLinksReverse s)" "typed_map (sized 32) (\<lambda>_. True) (FragUsage s)"
    "typed_map (sized 32) (\<lambda>_. True) (EVMLinkVoting s)" "typed_map (sized 32) (\<lambda>_. True) (EVMLinkVotingClosed s)"
  using assms by (simp_all add: typed_accounts_def)

lemma typed_unlink_account:
  "typed_accounts s \<Longrightarrow> sized 32 a \<Longrightarrow> typed_accounts (snd (unlink_account a k s))"
  by (simp add: unlink_account_def typed_accounts_def typed_intros split: option.split)

lemma typed_apply_lock:
  assumes "typed_accounts s" shows "typed_accounts (apply_lock k amount s)"
proof (cases "EVMLinksReverse s k")
  case (Some a)
  then have "sized 32 a" using typed_accounts_updates(3) [OF assms] by (auto dest: typed_mapD)
  then show ?thesis
    using assms by (simp add: apply_lock_def Let_def Some typed_accounts_def typed_intros split: option.split)
qed (use assms in \<open>simp add: apply_lock_def typed_accounts_def\<close>)

lemma typed_apply_unlock:
  assumes "typed_accounts s" shows "typed_accounts (snd (apply_unlock k amount s))"
proof (cases "EVMLinksReverse s k")
  case (Some a)
  then have "sized 32 a" using typed_accounts_updates(3) [OF assms] by (auto dest: typed_mapD)
  then have "typed_accounts (snd (unlink_account a k s))" by (rule typed_unlink_account [OF assms])
  moreover obtain r u where "unlink_account a k s = (r, u)" by fastforce
  ultimately show ?thesis by (simp add: apply_unlock_def Some typed_accounts_def split: outcome.split)
qed (use assms in \<open>simp add: apply_unlock_def typed_accounts_def\<close>)

lemma typed_settle_lock:
  assumes "typed_accounts s" and "sized 20 (elu_sender d)" and "sized 32 h"
  shows "typed_accounts (snd (settle_lock d h amount s))"
proof -
  obtain r u where r: "(if elu_lock d then (Ok, apply_lock (elu_sender d) amount s)
    else apply_unlock (elu_sender d) amount s) = (r, u)" by fastforce
  moreover have "typed_accounts (snd (if elu_lock d then (Ok, apply_lock (elu_sender d) amount s)
    else apply_unlock (elu_sender d) amount s))" 
    using typed_apply_lock [OF assms(1)] typed_apply_unlock [OF assms(1)] by simp
  ultimately have "typed_accounts u" by (simp only: snd_conv)
  then show ?thesis using assms(2,3)
    by (simp add: settle_lock_def r typed_accounts_def typed_intros split: outcome.split)
qed

lemma typed_count_vote:
  "typed_accounts s \<Longrightarrow> sized 32 h \<Longrightarrow> count_vote n h s = (b, t) \<Longrightarrow> typed_accounts t"
  by (auto simp: count_vote_def typed_accounts_def intro: typed_intros split: option.splits if_splits)

lemma typed_accounts_dispatch:
  assumes s: "typed_accounts s" and og: "typed_origin og" and c: "typed_accounts_call c"
    and E: "\<And>b. sized 32 (blake2_256 E b)" "\<And>b. sized 32 (keccak_256 E b)" "\<And>b a. decode_account E b = Some a \<Longrightarrow> sized 32 a"
  shows "typed_accounts (snd (accounts_dispatch C E og c s))"
proof (cases c)
  case (Internal_lock_update d sig)
  have h: "sized 32 (lock_data_hash E d)" by (simp add: lock_data_hash_def E)
  obtain b u where u: "count_vote (Threshold C) (lock_data_hash E d) s = (b, u)" by fastforce
  have "typed_accounts u" by (rule typed_count_vote [OF s h u])
  then show ?thesis
    using typed_settle_lock [of u d] s c h
    by (simp add: Internal_lock_update internal_lock_update_def Let_def u split: option.split bool.split)
next
  case (Link sig)
  then show ?thesis
    using s og typed_recover [OF E(2)] by (auto simp: link_def typed_accounts_def intro: typed_intros split: option.split)
next
  case (Unlink k)
  then show ?thesis using s og typed_unlink_account by (auto simp: unlink_def split: option.split)
next
  case (Sponsor_account x)
  then show ?thesis
    using s E(3) by (auto simp: sponsor_account_def sponsored_account_of_def Let_def typed_accounts_def
        intro: typed_intros split: option.split)
qed (use s c in \<open>auto simp: accounts_add_key_def accounts_del_key_def typed_accounts_def\<close>)

lemma typed_mint_all:
  assumes "typed_fragments s" and "sized 32 who" and "sized 16 f" and "pred_option (sized 32) h"
  shows "typed_fragments (fold (mint_one who f p n h ex a) is s)"
  using assms(1)
proof (induction "is" arbitrary: s)
  case (Cons i "is")
  have "typed_fragments (mint_one who f p n h ex a i s)"
    using Cons.prems assms(2-4)
    by (auto simp: mint_one_def Let_def typed_fragments_def typed_instance_def intro: typed_intros split: option.split)
  then show ?case by (simp add: Cons.IH)
qed simp

lemma typed_mint:
  assumes "typed_fragments s" and "sized 32 who" and "sized 16 f" and "\<And>b. sized 32 (blake2_256 E b)"
    and "mint_fragments E who f sale opt q n ex a s = (Ok, t)"
  shows "typed_fragments t"
  using assms(5)
proof (cases rule: mint_fragments_Ok)
  case (1 d ei data p)
  have data: "pred_option (\<lambda>(h, l). sized 32 h) data"
    using 1(3) assms(4) by (auto simp: check_options_def split: fragment_buy_options.splits if_splits)
  then have h: "pred_option (sized 32) (map_option fst data)" by (cases data) auto
  have "typed_map (sized 16) (\<lambda>_. True) p"
    using assms(1) take_units_Publishing [OF 1(4)] by (fastforce simp: typed_fragments_def typed_map_def)
  then have "typed_fragments (s\<lparr>Publishing := p\<rparr>)" using assms(1) by (simp add: typed_fragments_def)
  note all = typed_mint_all [OF this assms(2,3) h, of "fd_permissions d" n ex a "edition_range (editions_count s f) q"]
  have "typed_map (\<lambda>(f, h). sized 16 f \<and> sized 32 h) (\<lambda>_. True)
      (case data of None \<Rightarrow> UniqueData2Edition s | Some (h, l) \<Rightarrow> (UniqueData2Edition s)((f, h) \<mapsto> editions_count s f))"
    using data assms(1,3) by (auto simp: typed_fragments_def intro: typed_intros split: option.split)
  moreover have "typed_map (sized 16) (\<lambda>_. True) ((EditionsCount s)(f \<mapsto> editions_count s f + q))"
    using assms(1,3) by (simp add: typed_fragments_def typed_intros)
  ultimately show ?thesis
    using all by (simp add: 1(6) Let_def typed_fragments_def)
qed

lemma typed_fragments_balances [simp]: "typed_fragments (s\<lparr>balances := b\<rparr>) = typed_fragments s"
  by (simp add: typed_fragments_def)

lemma typed_give:
  assumes "typed_fragments s" and "typed_fragments_call (Give cl e k dest np ex)"
    and lookup: "\<And>s d a. typed_address d \<Longrightarrow> lookup_address E s d = Some a \<Longrightarrow> sized 32 a"
    and "give E og cl e k dest np ex s = (Ok, t)"
  shows "typed_fragments t"
  using assms(4)
proof (cases rule: give_Ok)
  case (copied who item to copies)
  have "sized 32 to" using lookup copied(3) assms(2) by auto
  moreover have "typed_instance item"
    using assms(1) copied(2) by (auto simp: giveable_def typed_fragments_def dest: typed_mapD)
  ultimately show ?thesis
    using assms(1,2)
    by (simp add: copied(7) give_copy_def Let_def typed_fragments_def typed_instance_def typed_intros split: option.split)
next
  case (moved who item to)
  have "sized 32 to" using lookup moved(3) assms(2) by auto
  then show ?thesis
    using assms(1,2)
    by (simp add: moved(5) give_original_def Let_def typed_fragments_def typed_intros)
qed

lemma typed_fragments_dispatch:
  assumes s: "typed_fragments s" and og: "typed_origin og" and typed: "typed_fragments_call c" and E: "typed_ext E"
    and call: "fragments_dispatch E og c s = (r, t)"
  shows "typed_fragments t"
proof (cases "t = s")
  case False
  have hash: "sized 32 (blake2_256 E b)" "sized 16 (blake2_128 E b)" for b using E by (simp_all add: typed_ext_def)
  show ?thesis
  proof (cases c)
    case (Create h md p u m)
    with call False have "create E og h md p u m s = (Ok, t)" by (cases r) (auto dest: create.failure_keeps_state)
    then show ?thesis
      by (cases rule: create_Ok)
        (use s og typed Create hash in \<open>simp add: fragment_id_def typed_fragments_def typed_definition_def typed_intros\<close>)
  next
    case (Publish f price q ex a)
    with call False have "publish og f price q ex a s = (Ok, t)" by (cases r) (auto dest: publish.failure_keeps_state)
    then show ?thesis
      by (cases rule: publish_Ok) (use s typed Publish in \<open>simp add: typed_fragments_def typed_intros\<close>)
  next
    case (Unpublish f)
    with call False have "unpublish og f s = (Ok, t)" by (cases r) (auto dest: unpublish.failure_keeps_state)
    then show ?thesis by (cases rule: unpublish_Ok) (use s in \<open>simp add: typed_fragments_def typed_intros\<close>)
  next
    case (Mint f opt a)
    with call False have "mint E og f opt a s = (Ok, t)" by (cases r) (auto dest: mint.failure_keeps_state)
    then show ?thesis
      by (cases rule: mint_Ok) (rule typed_mint [OF s], use og typed Mint hash in simp_all)
  next
    case (Buy f opt)
    with call have "buy E og f opt s = (r, t)" by simp
    then show ?thesis
    proof (cases rule: buy_cases)
      case (minted who sale d vault s1)
      have "typed_fragments s1" by (rule typed_mint [OF s _ _ _ minted(8)]) (use og typed Buy hash minted(1) in simp_all)
      then show ?thesis using minted(9) by (auto split: option.splits)
    qed (use s in simp)
  next
    case (Give cl e k dest np ex)
    with call False have "give E og cl e k dest np ex s = (Ok, t)" by (cases r) (auto dest: give.failure_keeps_state)
    show ?thesis by (rule typed_give [OF s _ _ \<open>give E og cl e k dest np ex s = (Ok, t)\<close>]) (use typed Give E in \<open>auto simp: typed_ext_def\<close>)
  next
    case (Create_account cl e k)
    with call False have "create_account E og cl e k s = (Ok, t)"
      by (cases r) (auto dest: create_account.failure_keeps_state)
    then show ?thesis by (cases rule: create_account_Ok) (simp add: s)
  qed
qed (use s in simp)

section \<open>The runtime keeps the types\<close>

lemma typed_same:
  "typed_detach s \<Longrightarrow> same_detach s t \<Longrightarrow> typed_detach t"
  "typed_requests s \<Longrightarrow> DetachRequests t = DetachRequests s \<Longrightarrow> typed_requests t"
  "typed_accounts s \<Longrightarrow> same_accounts s t \<Longrightarrow> typed_accounts t"
  "typed_protos s \<Longrightarrow> same_protos s t \<Longrightarrow> typed_protos t"
  "typed_fragments s \<Longrightarrow> same_fragments s t \<Longrightarrow> typed_fragments t"
  by (simp_all add: same_defs typed_defs)

lemma well_typed_dispatch:
  assumes s: "well_typed s" and og: "typed_origin og" and typed: "typed_call call" and E: "typed_ext E"
    and call: "runtime_dispatch C E og call s = (r, t)"
  shows "well_typed t"
proof -
  have parts: "typed_detach s" "typed_requests s" "typed_accounts s" "typed_protos s" "typed_fragments s"
    using s by (simp_all add: well_typed_def)
  note keep = typed_same(1) [OF parts(1), of t] typed_same(2) [OF parts(2), of t] typed_same(3) [OF parts(3), of t]
    typed_same(4) [OF parts(4), of t] typed_same(5) [OF parts(5), of t]
  from call show ?thesis
  proof (cases rule: runtime_dispatch_cases)
    case (protos c r')
    show ?thesis
    proof (cases "r' = Ok")
      case True
      with protos have c: "protos_dispatch C E og c s = (Ok, t)" by simp
      have "typed_protos t"
        by (rule typed_protos_dispatch [OF parts(4) og _ _ _ c]) (use typed protos(1) E in \<open>auto simp: typed_ext_def\<close>)
      moreover have "typed_requests t" by (rule typed_requests_dispatch [OF parts(2,4) c])
      ultimately show ?thesis
        using keep protos_dispatch_frame [OF c] by (simp add: well_typed_def)
    next
      case False
      then show ?thesis using s protos_dispatch.failure_keeps_state [OF protos(2)] by simp
    qed
  next
    case (fragments c r')
    have "typed_fragments t"
      by (rule typed_fragments_dispatch [OF parts(5) og _ E fragments(2)]) (use typed fragments(1) in simp)
    then show ?thesis using keep beneath_dispatch [OF fragments(2)] by (simp add: well_typed_def beneath_def)
  next
    case (detach c r')
    have "typed_detach t" by (rule typed_detach_dispatch [OF parts(1) _ detach(2)]) (use typed detach(1) in simp)
    then show ?thesis using keep detach_dispatch_frame [OF detach(2)] by (simp add: well_typed_def)
  next
    case (accounts c r')
    have "typed_accounts (snd (accounts_dispatch C E og c s))"
      by (rule typed_accounts_dispatch [OF parts(3) og]) (use typed accounts(1) E in \<open>auto simp: typed_ext_def\<close>)
    then show ?thesis
      using keep beside_accounts_dispatch [OF accounts(2)] accounts(2)
      by (simp add: well_typed_def beside_accounts_def)
  qed
qed

lemma well_typed_extrinsic:
  assumes "well_typed s" and "apply_extrinsic C E tr x s = Some (r, t)" and "typed_extrinsic x" and "typed_ext E"
  shows "well_typed t"
  using assms(2)
proof (cases rule: apply_extrinsic_Some)
  case (1 og call u)
  have "well_typed u"
    by (rule well_typed_dispatch [OF assms(1) _ _ assms(4) 1(2)]) (use assms(3) 1(1) in \<open>simp_all add: typed_extrinsic_def\<close>)
  then show ?thesis using assms(1) 1(5) by simp
qed

lemma typed_drop_stakes: "typed_protos s \<Longrightarrow> typed_protos (drop_stakes a s)"
  by (simp add: drop_stakes_def Let_def typed_protos_def typed_intros split: option.split)

lemma typed_expire_one: "typed_fragments s \<Longrightarrow> typed_fragments (expire_one E x s)"
  by (cases x) (simp add: expire_one_def Let_def typed_fragments_def typed_intros split: option.split)

lemma well_typed_on_finalize:
  assumes "well_typed s" shows "well_typed (runtime_on_finalize E s)"
proof -
  let ?s1 = "protos_on_finalize s" let ?s2 = "fragments_on_finalize E (block_number s) ?s1"
  have parts: "typed_detach s" "typed_requests s" "typed_accounts s" "typed_protos s" "typed_fragments s"
    using assms by (simp_all add: well_typed_def)
  have "typed_protos t \<Longrightarrow> typed_protos (fold drop_stakes as t)" for as and t :: "('a, 'b, 'c, 'd) fragments_state_scheme"
    by (induction as arbitrary: t) (simp_all add: typed_drop_stakes)
  then have "typed_protos ?s1" using parts(4) by (simp add: protos_on_finalize_def typed_protos_def)
  moreover obtain ps as where s1: "?s1 = s\<lparr>PendingUnlinks := [], ProtoStakes := ps, AccountStakes := as\<rparr>"
    using protos_on_finalize_frame by blast
  ultimately have 1: "well_typed ?s1" using parts by (simp add: well_typed_def typed_defs)
  have "typed_fragments t \<Longrightarrow> typed_fragments (fold (expire_one E) xs t)" for xs and t :: "('a, 'b, 'c, 'd) fragments_state_scheme"
    by (induction xs arbitrary: t) (simp_all add: typed_expire_one)
  moreover have "typed_fragments (?s1\<lparr>Expirations := (Expirations ?s1)(n := None)\<rparr>)" for n
    using 1 by (simp add: well_typed_def typed_fragments_def typed_intros)
  ultimately have "typed_fragments ?s2" by (simp add: fragments_on_finalize_eq)
  moreover have "beneath ?s1 ?s2" by simp
  ultimately have 2: "well_typed ?s2"
    using 1 typed_same [of ?s1 ?s2] unfolding well_typed_def beneath_def by blast
  then show ?thesis by (simp add: runtime_on_finalize_def detach_on_finalize_def Let_def well_typed_def typed_defs)
qed

section \<open>The chain keeps the types\<close>

text \<open>The chain in steps: typed extrinsics, what FRAME does, and the end of one block with the start of the next.\<close>

inductive typed_step :: "'z protos_config_scheme \<Rightarrow> ('b, 'p, 'y) fragments_ext_scheme \<Rightarrow> bool
    \<Rightarrow> ('b, 'c, 'p, 'x) fragments_state_scheme \<Rightarrow> ('b, 'c, 'p, 'x) fragments_state_scheme \<Rightarrow> bool"
  for C E transactional where
  extrinsic: "apply_extrinsic C E transactional x s = Some (r, t) \<Longrightarrow> typed_extrinsic x
    \<Longrightarrow> typed_step C E transactional s t"
| frame: "foreign_change s t \<Longrightarrow> typed_step C E transactional s t"
| next_block: "t = runtime_on_finalize E s \<Longrightarrow> typed_step C E transactional s (t\<lparr>block_number := block_number t + 1\<rparr>)"

inductive_cases typed_stepE: "typed_step C E transactional s t"

lemma well_typed_start: "well_typed (s\<lparr>block_number := n\<rparr>) = well_typed s"
  by (simp add: well_typed_def typed_defs)

lemma well_typed_step:
  assumes "typed_step C E tr s t" and "well_typed s" and "typed_ext E" shows "well_typed t"
  using assms(1)
proof cases
  case (extrinsic x r)
  then show ?thesis by (intro well_typed_extrinsic [OF assms(2) _ _ assms(3)])
next
  case frame
  then show ?thesis using assms(2) typed_same [of s t] unfolding foreign_change_def well_typed_def by blast
next
  case (next_block u)
  show ?thesis unfolding next_block well_typed_start by (rule well_typed_on_finalize [OF assms(2)])
qed

lemma well_typed_steps: "(typed_step C E tr)\<^sup>*\<^sup>* s t \<Longrightarrow> well_typed s \<Longrightarrow> typed_ext E \<Longrightarrow> well_typed t"
  by (induction rule: rtranclp_induct) (auto intro: well_typed_step)

definition typed_genesis :: "genesis_config \<Rightarrow> bool" where
  "typed_genesis G \<longleftrightarrow> list_all (sized 33) (detach_eth_authorities G) \<and> list_all (sized 32) (detach_keys G) \<and>
     list_all (sized 32) (accounts_keys G)"

text \<open>
  C10. From a genesis configuration with keys of their types, whatever well-typed extrinsics
  come, the storage of the four pallets holds only values of the types that the code declares:
  hashes and accounts of 32 bytes, definitions of 16, Ethereum accounts of 20, authority keys
  of 33 and so on, as keys and as values, also in the queues and in the lists.
\<close>

theorem storage_well_typed:
  assumes "genesis_build G (blank_state b) = (Ok, s)" and "typed_genesis G" and "typed_ext E"
    and "(typed_step C E tr)\<^sup>*\<^sup>* s t"
  shows "well_typed t"
proof -
  have "s = genesis_state G b" using assms(1) by (simp add: genesis_build_ok)
  then have "well_typed s"
    using assms(2) by (simp add: genesis_state_def blank_state_def well_typed_def typed_defs typed_genesis_def list_all_iff)
  then show ?thesis using well_typed_steps [OF assms(4)] assms(3) by blast
qed

definition fit :: "nat \<Rightarrow> bytes \<Rightarrow> bytes" where "fit n b = take n (b @ replicate n 0)"

definition sized_ext :: "(unit, u8) fragments_ext" where
  "sized_ext = sample_fragments_ext\<lparr>blake2_256 := fit 32, blake2_128 := fit 16, keccak_256 := fit 32,
     decode_account := (\<lambda>b. if sized 32 b then Some b else None)\<rparr>"

lemma sized_ext_typed: "typed_ext sized_ext"
proof -
  have "lookup_address sized_ext s d = (case d of Id who \<Rightarrow> Some who | _ \<Rightarrow> None)" for s d
    by (simp add: sized_ext_def sample_fragments_ext_def accounts_ext.defs)
  then show ?thesis
    by (auto simp: typed_ext_def sized_ext_def sized_def fit_def split: if_splits multi_address.splits)
qed

definition sized_genesis :: genesis_config where
  "sized_genesis = testnet_genesis [] [\<lparr>aura_id = fit 32 [1], grandpa_id = fit 32 [1], upload_id = fit 33 [1],
     eth_id = fit 33 [3], detach_id = fit 32 [7]\<rparr>] (fit 32 [1]) [fit 32 [1]]"

theorem storage_well_typed_witness:
  "\<exists>t p. (typed_step runtime_config sized_ext True)\<^sup>*\<^sup>* (genesis_state sized_genesis ()) t \<and>
     Protos t (fit 32 [7]) = Some p \<and> proto_creator p = fit 32 [1] \<and> well_typed (t :: (unit, nat, u8) fragments_state)"
proof -
  let ?s = "genesis_state sized_genesis () :: (unit, nat, u8) fragments_state" let ?s1 = "?s\<lparr>extrinsic_index := Some 0\<rparr>"
  let ?x = "Signed_Extrinsic (fit 32 [1]) (Protos_Call (Upload [] 3 [] None None [7])) :: (nat, u8) extrinsic"
  obtain r t where up: "upload sized_ext (Signed (fit 32 [1])) [] 3 [] None None [7] ?s1 = (r, t)" by fastforce
  moreover have hash: "blake2_256 sized_ext = fit 32" by (simp add: sized_ext_def)
  ultimately have t: "r = Ok" "\<exists>p. Protos t (fit 32 [7]) = Some p \<and> proto_creator p = fit 32 [1]"
    by (auto simp: upload_def Let_def genesis_state_def blank_state_def index_data_def)
  have "apply_extrinsic runtime_config sized_ext True ?x ?s1 = Some (Ok, t)"
    using up t(1) by (simp add: apply_extrinsic_def dispatch_def in_pallet_def)
  moreover have "typed_extrinsic ?x" by (simp add: typed_extrinsic_def sized_def fit_def)
  ultimately have "typed_step runtime_config sized_ext True ?s1 t" by (rule typed_step.extrinsic)
  moreover have "typed_step runtime_config sized_ext True ?s ?s1"
    by (rule typed_step.frame) (simp add: foreign_change_def same_defs)
  ultimately have steps: "(typed_step runtime_config sized_ext True)\<^sup>*\<^sup>* ?s t" by simp
  have "typed_genesis sized_genesis"
    by (simp add: typed_genesis_def sized_genesis_def testnet_genesis_def sized_def fit_def)
  from storage_well_typed [OF genesis_build_ok this sized_ext_typed steps] show ?thesis using steps t(2) by blast
qed

end
