(* ===== verification/Client_Properties.thy ===== *)
theory Client_Properties
  imports Test_Runtime Runtime_Types
begin

text \<open>
  The signatures of a client and the pallet that checks them, put together: linking, locking
  and unlocking with one pair of Ethereum keys.
\<close>

section \<open>Link, lock and unlock\<close>

lemma link_with_client:
  assumes "recoverable E W" and "EthChainId C = get_ethereum_chain_id"
    and "EVMLinks s who = None" and "EVMLinksReverse s (ethereum_account E W pair) = None"
  shows "link C E (Signed who) (create_link_signature E W who pair) s =
    (Ok, s\<lparr>EVMLinks := (EVMLinks s)(who \<mapsto> ethereum_account E W pair),
       EVMLinksReverse := (EVMLinksReverse s)(ethereum_account E W pair \<mapsto> who),
       FragUsage := (FragUsage s)(who \<mapsto> 0),
       accounts_events := accounts_events s @ [Linked who (ethereum_account E W pair)]\<rparr>)"
  by (simp add: link_def link_signature_recovered [OF assms(1,2)] assms(3,4))

text \<open>With a threshold of one a valid event is settled at once.\<close>

lemma lock_update_settles:
  assumes "lock_event_valid C E d" and "EVMLinkVotingClosed s (lock_data_hash E d) = None" and "Threshold C \<le> 1"
  shows "internal_lock_update C E NoOrigin d sig s = settle_lock d (lock_data_hash E d) (ucast (elu_amount d)) s"
proof -
  have "\<not> 1 < Threshold C" using assms(3) by simp
  then show ?thesis by (simp add: internal_lock_update_valid [OF assms(1,2)] count_vote_def)
qed

text \<open>An event that the client has signed for.\<close>

definition client_event :: "('b, 'y) ext_scheme \<Rightarrow> ('q, 'w) wallet_scheme \<Rightarrow> 'q \<Rightarrow> bool \<Rightarrow> u256 \<Rightarrow> eth_lock_update \<Rightarrow> bool" where
  "client_event E W pair lock amount d \<longleftrightarrow>
     elu_lock d = lock \<and> elu_amount d = amount \<and> Some (elu_sender d) =
       get_ethereum_account_id_from_ecdsa_public_struct E W (compressed_public W pair) \<and>
     Some (elu_signature d) = (if lock then create_lock_signature E W pair amount else create_unlock_signature E W pair amount)"

lemma client_event_valid:
  assumes "recoverable E W" and "EthChainId C = get_ethereum_chain_id" and "client_event E W pair lock amount d"
    and "unat amount < 2 ^ 128" and "lock \<longleftrightarrow> (ucast amount :: balance) \<noteq> 0"
  shows "lock_event_valid C E d" and "elu_sender d = ethereum_account E W pair"
proof -
  have d: "elu_sender d = ethereum_account E W pair" "elu_amount d = amount" "elu_lock d = lock"
    "(if elu_lock d then create_lock_signature E W pair amount else create_unlock_signature E W pair amount)
      = Some (elu_signature d)"
    using assms(3) by (auto simp: client_event_def ethereum_account_eq [OF assms(1)])
  show "lock_event_valid C E d"
    using frag_signature_recovered [OF assms(1,2) d(1,2,4)] assms(4,5) by (simp add: lock_event_valid_def d)
  show "elu_sender d = ethereum_account E W pair" by (fact d)
qed

section \<open>Property\<close>

text \<open>
  C12. What a client signs, the pallet accepts, for all three kinds of signature: the account that
  presents the link signature is linked to the Ethereum account of the keys, the lock event
  books the amount for that Ethereum account, and the unlock event takes the link back and
  books zero. The links are then those from before.
\<close>

theorem client_round_trip:
  assumes "recoverable E W" and "EthChainId C = get_ethereum_chain_id" and "Threshold C \<le> 1"
    and "EVMLinks s who = None" and "EVMLinksReverse s (ethereum_account E W pair) = None"
    and "client_event E W pair True amount d" and "amount \<noteq> 0" and "unat amount < 2 ^ 128"
    and "client_event E W pair False 0 d'" and "lock_data_hash E d \<noteq> lock_data_hash E d'"
    and "EVMLinkVotingClosed s (lock_data_hash E d) = None" and "EVMLinkVotingClosed s (lock_data_hash E d') = None"
  shows "\<exists>linked locked unlocked.
    link C E (Signed who) (create_link_signature E W who pair) s = (Ok, linked) \<and>
    internal_lock_update C E NoOrigin d sig linked = (Ok, locked) \<and>
    internal_lock_update C E NoOrigin d' sig' locked = (Ok, unlocked) \<and>
    EVMLinks locked who = Some (ethereum_account E W pair) \<and> FragUsage locked who = Some 0 \<and>
    map_option (\<lambda>k. unat (lock_amount k)) (EthLockedFrag locked (ethereum_account E W pair)) = Some (unat amount) \<and>
    EVMLinks unlocked = EVMLinks s \<and> EVMLinksReverse unlocked = EVMLinksReverse s \<and>
    map_option (\<lambda>k. unat (lock_amount k)) (EthLockedFrag unlocked (ethereum_account E W pair)) = Some 0 \<and>
    PendingUnlinks unlocked = PendingUnlinks s @ [who]"
proof -
  let ?k = "ethereum_account E W pair"
  let ?linked = "s\<lparr>EVMLinks := (EVMLinks s)(who \<mapsto> ?k), EVMLinksReverse := (EVMLinksReverse s)(?k \<mapsto> who),
     FragUsage := (FragUsage s)(who \<mapsto> 0), accounts_events := accounts_events s @ [Linked who ?k]\<rparr>"
  have amount: "unat (ucast amount :: balance) = unat amount"
    using assms(8) by (simp add: unsigned_ucast_eq take_bit_nat_eq_self)
  then have nonzero: "(ucast amount :: balance) \<noteq> 0" using assms(7) by (metis unat_0 unat_eq_zero)
  note d = client_event_valid [OF assms(1,2,6,8)] and d' = client_event_valid [OF assms(1,2,9)]
  have valid: "lock_event_valid C E d" "elu_sender d = ?k" "elu_lock d" "elu_amount d = amount"
    using d nonzero assms(6) by (simp_all add: client_event_def)
  have valid': "lock_event_valid C E d'" "elu_sender d' = ?k" "\<not> elu_lock d'" "elu_amount d' = 0"
    using d' assms(9) by (simp_all add: client_event_def)
  let ?locked = "?linked\<lparr>accounts_events := accounts_events ?linked @ [Locked ?k (ucast amount)],
     EthLockedFrag := (EthLockedFrag s)(?k \<mapsto> \<lparr>lock_amount = ucast amount, lock_block_number = block_number s\<rparr>),
     EVMLinkVotingClosed := (EVMLinkVotingClosed s)(lock_data_hash E d \<mapsto> block_number s)\<rparr>"
  have lock: "internal_lock_update C E NoOrigin d sig ?linked = (Ok, ?locked)"
    using lock_update_settles [OF valid(1) _ assms(3), of ?linked sig] assms(11)
    by (simp add: settle_lock_def apply_lock_def valid(2-4) Let_def)
  have "internal_lock_update C E NoOrigin d' sig' ?locked = settle_lock d' (lock_data_hash E d') 0 ?locked"
    using lock_update_settles [OF valid'(1) _ assms(3), of ?locked sig'] assms(10,12) by (simp add: valid'(4))
  then obtain u where unlock: "internal_lock_update C E NoOrigin d' sig' ?locked = (Ok, u)"
    and u: "EVMLinks u = EVMLinks s" "EVMLinksReverse u = EVMLinksReverse s" "PendingUnlinks u = PendingUnlinks s @ [who]"
      "EthLockedFrag u ?k = Some \<lparr>lock_amount = 0, lock_block_number = block_number s\<rparr>"
    using assms(4,5) by (simp add: settle_lock_def apply_unlock_def unlink_account_def valid'(2,3) fun_upd_idem)
  show ?thesis
    by (rule exI [of _ ?linked], rule exI [of _ ?locked], rule exI [of _ u])
      (use link_with_client [OF assms(1,2,4,5)] lock unlock u amount in simp)
qed

text \<open>A pair is its seed; a signature is the seed and the hash.\<close>

definition sample_wallet :: "bytes wallet" where
  "sample_wallet = \<lparr>pair_from_seed = (\<lambda>b. b), compressed_public = (\<lambda>p. 2 # p), sign_prehashed = (\<lambda>p h. p @ h),
     parse_compressed = (\<lambda>b. Some (4 # drop 1 b))\<rparr>"

definition client_ext :: "unit accounts_ext" where
  "client_ext = sample_ext\<lparr>keccak_256 := fit 32, ecdsa_recover := (\<lambda>sig h.
     if drop (length sig - 32) sig = h then Some (take (length sig - 32) sig) else None)\<rparr>"

lemma sample_recoverable: "recoverable client_ext sample_wallet"
  by (simp add: recoverable_def client_ext_def sample_wallet_def fit_def min_def)

lemma new_lock_update_client:
  assumes "new_lock_update E W n amount lock n' = Some d"
  shows "client_event E W (pair_from_seed W (replicate 32 n)) lock amount d"
  using assms by (auto simp: new_lock_update_def client_event_def Let_def split: option.splits if_splits)

theorem client_round_trip_witness:
  "\<exists>D linked locked. new_dummy_data client_ext sample_wallet = Some D \<and>
     (let u = dummy_unlock D; l = unlocked_lock u in
      link (sample_config 1) client_ext (Signed (clamor_account_id (lock_link l))) (link_signature (lock_link l)) empty_accounts
        = (Ok, linked) \<and>
      internal_lock_update (sample_config 1) client_ext NoOrigin (lock_update_data l) [] linked = (Ok, locked) \<and>
      EVMLinks locked (replicate 32 4) \<noteq> None \<and>
      fst (internal_lock_update (sample_config 1) client_ext NoOrigin (unlock_update_data u) [] locked) = Ok)"
proof -
  let ?E = client_ext and ?W = sample_wallet and ?s = empty_accounts
  let ?p = "pair_from_seed ?W (replicate 32 4)"
  obtain d3 d4 d4' where d: "new_lock_update ?E ?W 3 69 True 69 = Some d3" "new_lock_update ?E ?W 4 69 True 69 = Some d4"
    "new_lock_update ?E ?W 4 0 False (69 + 69) = Some d4'"
    using new_lock_update_some [OF sample_recoverable] by metis
  then have D: "new_dummy_data ?E ?W = Some \<lparr>dummy_link = new_link ?E ?W 1, dummy_link_second = new_link ?E ?W 2,
      dummy_lock = \<lparr>lock_update_data = d3, lock_link = new_link ?E ?W 3, ethereum_account_pair = pair_from_seed ?W (replicate 32 3)\<rparr>,
      dummy_unlock = \<lparr>unlocked_lock = \<lparr>lock_update_data = d4, lock_link = new_link ?E ?W 4, ethereum_account_pair = ?p\<rparr>,
        unlock_update_data = d4'\<rparr>,
      dummy_account_id = replicate 32 111, dummy_account_id_second = replicate 32 222,
      dummy_pair = pair_from_seed ?W (replicate 32 111),
      dummy_link_signature = replicate 65 111, dummy_lock_signature = replicate 65 111\<rparr>"
    by (simp add: new_dummy_data_def new_lock_def)
  note c = new_lock_update_client [OF d(2)] and c' = new_lock_update_client [OF d(3)]
  have "be_bytes 32 (69 :: u256) \<noteq> be_bytes 32 (0 :: u256)" by (simp add: be_bytes_eq_iff)
  then have ne: "lock_data_hash ?E d4 \<noteq> lock_data_hash ?E d4'"
    using c c' by (auto simp: client_event_def lock_data_hash_def client_ext_def sample_ext_def dest!: arg_cong [of _ _ "take 32"])
  have chain: "EthChainId (sample_config 1) = get_ethereum_chain_id" "Threshold (sample_config 1) \<le> 1"
    by (simp_all add: sample_config_def get_ethereum_chain_id_def)
  have s: "EVMLinks ?s (replicate 32 4) = None" "EVMLinksReverse ?s (ethereum_account ?E ?W ?p) = None"
    "EVMLinkVotingClosed ?s h = None" for h by (simp_all add: empty_accounts_def)
  obtain linked locked unlocked where
    "link (sample_config 1) ?E (Signed (replicate 32 4)) (create_link_signature ?E ?W (replicate 32 4) ?p) ?s = (Ok, linked)"
    "internal_lock_update (sample_config 1) ?E NoOrigin d4 [] linked = (Ok, locked)"
    "internal_lock_update (sample_config 1) ?E NoOrigin d4' [] locked = (Ok, unlocked)"
    "EVMLinks locked (replicate 32 4) \<noteq> None"
    using client_round_trip [OF sample_recoverable chain s(1,2) c _ _ c' ne s(3) s(3), of "[]" "[]"] by auto
  with D show ?thesis
    by (intro exI [of _ "the (new_dummy_data ?E ?W)"] exI [of _ linked] exI [of _ locked]) (simp add: new_link_def Let_def)
qed

end
