(* ===== verification/Clamor_Network.thy ===== *)
theory Clamor_Network
  imports Runtime_History Accounts_Sync Chain_Spec
begin

text \<open>
  The chain and its nodes as one system. Every node runs the two off-chain workers on its own
  keystore, its own local database and its own Ethereum node, against the state of the chain;
  their transactions, and those of everybody else, reach the chain in any order, any number of
  times. The steps compose \<open>apply_extrinsic\<close>, \<open>runtime_on_finalize\<close>, \<open>process_detach_requests\<close>
  and \<open>accounts_offchain_worker\<close>.
\<close>

section \<open>Nodes\<close>

text \<open>
  What the operators set up: the configuration and environment of the runtime, the host
  functions of every node, the contracts they watch, and the Ed25519 keys the nodes hold.
\<close>

record ('b, 'p, 'k, 'w) deployment =
  dep_config :: protos_config
  dep_ext :: "('b, 'p) fragments_ext"
  dep_transactional :: bool
  detach_host :: "nat \<Rightarrow> 'k offchain_ext"
  lock_host :: "nat \<Rightarrow> 'w sync_ext"
  dep_contracts :: "bytes list"
  node_keys :: "bytes set"

text \<open>
  The state: the chain, the workers of the nodes with their local databases, and, for the
  statements only, the detach requests made so far, each with its signer and the
  Proto-Fragment as it was stored then.
\<close>

record ('b, 'c, 'p, 'k, 'w) network =
  chain_state :: "('b, 'c, 'p) fragments_state"
  detach_workers :: "nat \<Rightarrow> 'k worker"
  detach_queues :: "nat \<Rightarrow> detach_request list option"
  lock_workers :: "nat \<Rightarrow> 'w sync_world"
  requests_made :: "(account_id \<times> detach_request \<times> 'c proto) list"

fun new_requests :: "account_id \<Rightarrow> ('c, 'p) runtime_call \<Rightarrow> 'e outcome
    \<Rightarrow> ('b, 'c, 'x) protos_state_scheme \<Rightarrow> (account_id \<times> detach_request \<times> 'c proto) list" where
  "new_requests who (Protos_Call (Detach h chain target)) Ok s =
     (case Protos s h of None \<Rightarrow> []
      | Some p \<Rightarrow> [(who, \<lparr>req_hash = h, req_target_chain = chain, req_target_account = target\<rparr>, p)])"
| "new_requests who _ _ s = []"

text \<open>
  Signatures cannot be forged: a valid payload under a key of the nodes was sent by one of
  their workers. It may be sent to the chain again by anybody at any time.
\<close>

definition not_forged :: "('b, 'p, 'k, 'w) deployment \<Rightarrow> ('b, 'c, 'p, 'k, 'w) network
    \<Rightarrow> ('c, 'p) runtime_call \<Rightarrow> bool" where
  "not_forged D n call \<longleftrightarrow>
     (\<forall>d sig key. call = Detach_Call (Internal_finalize_detach d sig) \<longrightarrow> key \<in> node_keys D \<longrightarrow>
        decode_multi_signer (dep_ext D) (encode_public (dep_ext D) (det_public d)) = Some (Ed25519 key) \<longrightarrow>
        verify_detach (dep_ext D) d sig \<longrightarrow> (\<exists>i. (d, sig) \<in> set (submitted (detach_workers n i)))) \<and>
     (\<forall>d sig key. call = Accounts_Call (Internal_lock_update d sig) \<longrightarrow> key \<in> node_keys D \<longrightarrow>
        decode_multi_signer (dep_ext D) (encode_public (dep_ext D) (elu_public d)) = Some (Ed25519 key) \<longrightarrow>
        verify_lock (dep_ext D) d sig \<longrightarrow> (\<exists>i. (d, sig) \<in> set (submitted_locks (lock_workers n i))))"

text \<open>Root registers keys of the nodes only.\<close>

definition registers_nodes :: "('b, 'p, 'k, 'w) deployment \<Rightarrow> ('c, 'p) runtime_call \<Rightarrow> bool" where
  "registers_nodes D call \<longleftrightarrow> (\<forall>key. call = Detach_Call (Detach_Add_key key) \<or>
     call = Accounts_Call (Accounts_Add_key key) \<longrightarrow> key \<in> node_keys D)"

abbreviation "dep_apply D \<equiv> apply_extrinsic (dep_config D) (dep_ext D) (dep_transactional D)"

inductive network_step :: "('b, 'p, 'k, 'w) deployment \<Rightarrow> ('b, 'c, 'p, 'k, 'w) network
    \<Rightarrow> ('b, 'c, 'p, 'k, 'w) network \<Rightarrow> bool" for D where
  signed: "dep_apply D (Signed_Extrinsic who call) (chain_state n) = Some (r, t) \<Longrightarrow>
    network_step D n (n\<lparr>chain_state := t,
      requests_made := requests_made n @ new_requests who call r (chain_state n)\<rparr>)"
| sudo: "dep_apply D (Sudo_Extrinsic call) (chain_state n) = Some (r, t) \<Longrightarrow> registers_nodes D call \<Longrightarrow>
    network_step D n (n\<lparr>chain_state := t\<rparr>)"
| unsigned: "dep_apply D (Unsigned_Extrinsic call) (chain_state n) = Some (r, t) \<Longrightarrow> not_forged D n call \<Longrightarrow>
    network_step D n (n\<lparr>chain_state := t\<rparr>)"
| frame: "foreign_change (chain_state n) t \<Longrightarrow> network_step D n (n\<lparr>chain_state := t\<rparr>)"
| block_end: "t = runtime_on_finalize (dep_ext D) (chain_state n) \<Longrightarrow>
    network_step D n (n\<lparr>chain_state := t\<lparr>block_number := block_number t + 1\<rparr>,
      detach_queues := (\<lambda>i. if i \<in> importing \<and> DetachRequests (chain_state n) \<noteq> [] then offchain_requests t
                            else detach_queues n i)\<rparr>)"
| sign_requests: "process_detach_requests (dep_ext D) (detach_host D i)
      ((chain_state n)\<lparr>offchain_requests := detach_queues n i\<rparr>) (detach_workers n i) = (s, w) \<Longrightarrow>
    network_step D n (n\<lparr>detach_workers := (detach_workers n)(i := w),
      detach_queues := (detach_queues n)(i := offchain_requests s)\<rparr>)"
| fetch_locks: "accounts_offchain_worker (dep_config D) (lock_host D i) (dep_contracts D) (lock_workers n i) = Some (r, w) \<Longrightarrow>
    network_step D n (n\<lparr>lock_workers := (lock_workers n)(i := w)\<rparr>)"
| ethereum: "network_step D n (n\<lparr>lock_workers := (lock_workers n)(i := (lock_workers n i)\<lparr>outside := w\<rparr>)\<rparr>)"

text \<open>A chain that starts: the genesis with keys of the nodes, and workers that have sent nothing.\<close>

definition network_start :: "('b, 'p, 'k, 'w) deployment \<Rightarrow> ('b, 'c, 'p, 'k, 'w) network \<Rightarrow> bool" where
  "network_start D n \<longleftrightarrow>
     (\<exists>G b. chain_state n = genesis_state G b \<and> set (detach_keys G) \<subseteq> node_keys D \<and> set (accounts_keys G) \<subseteq> node_keys D) \<and>
     (\<forall>i. submitted (detach_workers n i) = [] \<and> detach_queues n i = None \<and> submitted_locks (lock_workers n i) = []) \<and>
     requests_made n = []"

text \<open>
  The signer sends the payload it is given, for one of its public keys.
\<close>

definition sends_payload :: "('b, 'p, 'k, 'w) deployment \<Rightarrow> bool" where
  "sends_payload D \<longleftrightarrow>
     (\<forall>i k f d sig. send_unsigned (detach_host D i) k f = Some (d, sig) \<longrightarrow> (\<exists>public. d = f public)) \<and>
     (\<forall>i w f d sig. send_unsigned_lock (lock_host D i) w f = Some (Some (d, sig)) \<longrightarrow> (\<exists>public. d = f public))"

section \<open>Where detachments come from\<close>

definition requested :: "('b, 'c, 'p, 'k, 'w) network \<Rightarrow> detach_request set" where
  "requested n = {r. \<exists>who p. (who, r, p) \<in> set (requests_made n)}"

definition export_of :: "export_data \<Rightarrow> detach_request \<Rightarrow> bool" where
  "export_of x r \<longleftrightarrow> exp_chain x = req_target_chain r \<and> exp_owner x = req_target_account r \<and>
     length (req_target_account r) = 20"

text \<open>
  The invariant follows a request on its way: made by the owner, in the queue of the block, in
  the database of a node, in a transaction, and among the detached hashes.
\<close>

definition detach_flow :: "('b, 'p, 'k, 'w) deployment \<Rightarrow> ('b, 'c, 'p, 'k, 'w) network \<Rightarrow> bool" where
  "detach_flow D n \<longleftrightarrow>
     detach_FragKeys (chain_state n) \<subseteq> node_keys D \<and>
     (\<forall>(who, r, p) \<in> set (requests_made n). proto_owned_by p = User who \<and>
        (\<exists>q. Protos (chain_state n) (req_hash r) = Some q \<and> evolves p q)) \<and>
     set (DetachRequests (chain_state n)) \<subseteq> requested n \<and>
     (\<forall>i rs. detach_queues n i = Some rs \<longrightarrow> set rs \<subseteq> requested n) \<and>
     (\<forall>i d sig. (d, sig) \<in> set (submitted (detach_workers n i)) \<longrightarrow> (\<exists>r \<in> requested n. det_hash d = req_hash r \<and>
        det_target_chain d = req_target_chain r \<and> det_target_account d = req_target_account r \<and>
        length (req_target_account r) = 20)) \<and>
     (\<forall>h x. DetachedHashes (chain_state n) h = Some x \<longrightarrow> (\<exists>r \<in> requested n. req_hash r = h \<and> export_of x r))"

lemma detach_flowI:
  assumes "detach_FragKeys (chain_state n) \<subseteq> node_keys D"
    and "\<And>who r p. (who, r, p) \<in> set (requests_made n) \<Longrightarrow> proto_owned_by p = User who \<and>
        (\<exists>q. Protos (chain_state n) (req_hash r) = Some q \<and> evolves p q)"
    and "set (DetachRequests (chain_state n)) \<subseteq> requested n"
    and "\<And>i rs. detach_queues n i = Some rs \<Longrightarrow> set rs \<subseteq> requested n"
    and "\<And>i d sig. (d, sig) \<in> set (submitted (detach_workers n i)) \<Longrightarrow> \<exists>r \<in> requested n. det_hash d = req_hash r \<and>
        det_target_chain d = req_target_chain r \<and> det_target_account d = req_target_account r \<and>
        length (req_target_account r) = 20"
    and "\<And>h x. DetachedHashes (chain_state n) h = Some x \<Longrightarrow> \<exists>r \<in> requested n. req_hash r = h \<and> export_of x r"
  shows "detach_flow D n"
  using assms by (auto simp: detach_flow_def)

lemma detach_flowD:
  assumes "detach_flow D n"
  shows "detach_FragKeys (chain_state n) \<subseteq> node_keys D"
    and "\<And>who r p. (who, r, p) \<in> set (requests_made n) \<Longrightarrow> proto_owned_by p = User who \<and>
        (\<exists>q. Protos (chain_state n) (req_hash r) = Some q \<and> evolves p q)"
    and "set (DetachRequests (chain_state n)) \<subseteq> requested n"
    and "\<And>i rs. detach_queues n i = Some rs \<Longrightarrow> set rs \<subseteq> requested n"
    and "\<And>i d sig. (d, sig) \<in> set (submitted (detach_workers n i)) \<Longrightarrow> \<exists>r \<in> requested n. det_hash d = req_hash r \<and>
        det_target_chain d = req_target_chain r \<and> det_target_account d = req_target_account r \<and>
        length (req_target_account r) = 20"
    and "\<And>h x. DetachedHashes (chain_state n) h = Some x \<Longrightarrow> \<exists>r \<in> requested n. req_hash r = h \<and> export_of x r"
  using assms unfolding detach_flow_def by blast+

text \<open>A step of the chain that queues only what is requested, and detaches only what was submitted.\<close>

lemma detach_flow_chain:
  assumes flow: "detach_flow D n"
    and keys: "detach_FragKeys t \<subseteq> node_keys D"
    and kept: "history_kept (chain_state n) t"
    and new: "\<And>who r p. (who, r, p) \<in> set new \<Longrightarrow> proto_owned_by p = User who \<and> Protos t (req_hash r) = Some p"
    and queued: "set (DetachRequests t) \<subseteq> set (DetachRequests (chain_state n)) \<union> {r. \<exists>who p. (who, r, p) \<in> set new}"
    and detached: "DetachedHashes t = DetachedHashes (chain_state n) \<or> (\<exists>i d sig.
        (d, sig) \<in> set (submitted (detach_workers n i)) \<and>
        DetachedHashes t = (DetachedHashes (chain_state n))(det_hash d \<mapsto>
          \<lparr>exp_chain = det_target_chain d, exp_owner = det_target_account d, exp_nonce = det_nonce d\<rparr>))"
  shows "detach_flow D (n\<lparr>chain_state := t, requests_made := requests_made n @ new\<rparr>)" (is "detach_flow D ?n")
proof (rule detach_flowI)
  have more: "requested n \<subseteq> requested ?n" by (auto simp: requested_def)
  show "detach_FragKeys (chain_state ?n) \<subseteq> node_keys D" using keys by simp
  show "proto_owned_by p = User who \<and> (\<exists>q. Protos (chain_state ?n) (req_hash r) = Some q \<and> evolves p q)"
    if made: "(who, r, p) \<in> set (requests_made ?n)" for who r p
  proof (cases "(who, r, p) \<in> set new")
    case False
    then have "(who, r, p) \<in> set (requests_made n)" using made by simp
    from detach_flowD(2) [OF flow this] obtain q where q: "proto_owned_by p = User who"
      "Protos (chain_state n) (req_hash r) = Some q" "evolves p q" by blast
    from kept q(2) obtain q' where "Protos t (req_hash r) = Some q'" "evolves q q'"
      unfolding history_kept_def by blast
    then show ?thesis using q(1) evolves_trans [OF q(3)] by auto
  qed (use new in \<open>auto intro: evolves_refl\<close>)
  show "set (DetachRequests (chain_state ?n)) \<subseteq> requested ?n"
    using queued detach_flowD(3) [OF flow] by (simp add: requested_def) blast
  show "set rs \<subseteq> requested ?n" if "detach_queues ?n i = Some rs" for i rs
    using detach_flowD(4) [OF flow, of i rs] that more by simp
  show "\<exists>r \<in> requested ?n. det_hash d = req_hash r \<and> det_target_chain d = req_target_chain r \<and>
      det_target_account d = req_target_account r \<and> length (req_target_account r) = 20"
    if "(d, sig) \<in> set (submitted (detach_workers ?n i))" for i d sig
    using detach_flowD(5) [OF flow, of d sig i] that more by (simp, blast)
  show "\<exists>r \<in> requested ?n. req_hash r = h \<and> export_of x r" if "DetachedHashes (chain_state ?n) h = Some x" for h x
  proof (cases "DetachedHashes (chain_state n) h = Some x")
    case True
    then show ?thesis using detach_flowD(6) [OF flow True] more by blast
  next
    case False
    with detached that obtain i d sig where "(d, sig) \<in> set (submitted (detach_workers n i))" and "h = det_hash d"
      and "x = \<lparr>exp_chain = det_target_chain d, exp_owner = det_target_account d, exp_nonce = det_nonce d\<rparr>"
      by (auto split: if_splits)
    moreover from detach_flowD(5) [OF flow this(1)] obtain r where "r \<in> requested n" and "det_hash d = req_hash r"
      and "det_target_chain d = req_target_chain r" and "det_target_account d = req_target_account r"
      and "length (req_target_account r) = 20" by blast
    ultimately show ?thesis using more by (intro bexI [of _ r]) (auto simp: export_of_def)
  qed
qed

lemma detach_flow_same:
  assumes "detach_flow D n" and "chain_state n' = chain_state n" and "requests_made n' = requests_made n"
    and "\<And>i rs. detach_queues n' i = Some rs \<Longrightarrow> set rs \<subseteq> requested n"
    and "\<And>i d sig. (d, sig) \<in> set (submitted (detach_workers n' i)) \<Longrightarrow> \<exists>r \<in> requested n. det_hash d = req_hash r \<and>
        det_target_chain d = req_target_chain r \<and> det_target_account d = req_target_account r \<and>
        length (req_target_account r) = 20"
  shows "detach_flow D n'"
proof -
  have "requested n' = requested n" by (simp add: requested_def assms(3))
  then show ?thesis using assms detach_flowD [OF assms(1)] by (intro detach_flowI) simp_all
qed

lemma new_requests_cases:
  assumes "(who', r', p) \<in> set (new_requests who call r s)"
  obtains h chain target where "call = Protos_Call (Detach h chain target)" and "r = Ok" and "who' = who"
    and "r' = \<lparr>req_hash = h, req_target_chain = chain, req_target_account = target\<rparr>" and "Protos s h = Some p"
  using assms by (cases "(who, call, r, s)" rule: new_requests.cases) (auto split: option.splits)

lemma new_requests_owned:
  assumes "apply_extrinsic C E tr (Signed_Extrinsic who call) s = Some (r, t)"
    and "(who', r', p) \<in> set (new_requests who call r s)"
  shows "proto_owned_by p = User who' \<and> Protos t (req_hash r') = Some p"
  using assms(2)
proof (cases rule: new_requests_cases)
  case (1 h chain target)
  with assms(1) have "apply_extrinsic C E tr (Signed_Extrinsic who (Protos_Call (Detach h chain target))) s = Some (Ok, t)"
    by simp
  then have "detach (Signed who) h chain target s = (Ok, t)"
    by (cases rule: apply_extrinsic_Some) (auto simp: in_pallet_def prod_eq_iff)
  then show ?thesis by (cases rule: detach_Ok) (use 1 in auto)
qed

lemma detach_flow_start: "network_start D n \<Longrightarrow> detach_flow D n"
  by (auto simp: network_start_def genesis_state_def blank_state_def detach_flow_def)

lemma detach_flow_step:
  assumes "network_step D n n'" and flow: "detach_flow D n" and sends: "sends_payload D"
  shows "detach_flow D n'"
  using assms(1)
proof cases
  case (signed who call r t)
  note kept = history_kept_extrinsic [OF signed(2)]
  have "set (DetachRequests t) \<subseteq> set (DetachRequests (chain_state n)) \<union>
      {r'. \<exists>who' p. (who', r', p) \<in> set (new_requests who call r (chain_state n))}"
    using signed(2) by (cases rule: extrinsic_requests) auto
  moreover note new_requests_owned [OF signed(2)]
  moreover have "detach_FragKeys t \<subseteq> node_keys D"
    using extrinsic_keys(1) [OF signed(2)] detach_flowD(1) [OF flow] by blast
  moreover have "DetachedHashes t = DetachedHashes (chain_state n)"
    using signed(2) by (cases rule: extrinsic_detached) auto
  ultimately show ?thesis
    unfolding signed(1) by (intro detach_flow_chain [OF flow _ kept]) auto
next
  case (sudo call r t)
  have "detach_FragKeys t \<subseteq> node_keys D"
    using extrinsic_keys(1) [OF sudo(2)] sudo(3) detach_flowD(1) [OF flow] unfolding registers_nodes_def by blast
  moreover have "DetachRequests t = DetachRequests (chain_state n)"
    using sudo(2) by (cases rule: extrinsic_requests) auto
  moreover have "DetachedHashes t = DetachedHashes (chain_state n)"
    using sudo(2) by (cases rule: extrinsic_detached) auto
  ultimately show ?thesis
    using detach_flow_chain [OF flow _ history_kept_extrinsic [OF sudo(2)], of "[]"] by (simp add: sudo(1))
next
  case (unsigned call r t)
  have "detach_FragKeys t \<subseteq> node_keys D"
    using extrinsic_keys(1) [OF unsigned(2)] detach_flowD(1) [OF flow] by blast
  moreover have "DetachRequests t = DetachRequests (chain_state n)"
    using unsigned(2) by (cases rule: extrinsic_requests) auto
  moreover have "DetachedHashes t = DetachedHashes (chain_state n) \<or> (\<exists>i d sig.
        (d, sig) \<in> set (submitted (detach_workers n i)) \<and>
        DetachedHashes t = (DetachedHashes (chain_state n))(det_hash d \<mapsto>
          \<lparr>exp_chain = det_target_chain d, exp_owner = det_target_account d, exp_nonce = det_nonce d\<rparr>))"
    using unsigned(2)
  proof (cases rule: extrinsic_detached)
    case (finalized d sig)
    then have call: "call = Detach_Call (Internal_finalize_detach d sig)" by simp
    from unsigned_signed(1) [OF unsigned(2) call] detach_flowD(1) [OF flow] unsigned(3) call
    have "\<exists>i. (d, sig) \<in> set (submitted (detach_workers n i))"
      unfolding detach_signed_def not_forged_def by blast
    then show ?thesis using finalized(2) by blast
  qed simp
  ultimately show ?thesis
    using detach_flow_chain [OF flow _ history_kept_extrinsic [OF unsigned(2)], of "[]"] by (simp add: unsigned(1))
next
  case (frame t)
  then have "same_detach (chain_state n) t" "DetachRequests t = DetachRequests (chain_state n)"
    by (simp_all add: foreign_change_def)
  then show ?thesis
    using detach_flow_chain [OF flow _ history_kept_foreign [OF frame(2)], of "[]"] detach_flowD(1) [OF flow]
    by (simp add: frame(1) same_detach_def)
next
  case (block_end t importing)
  let ?t = "t\<lparr>block_number := block_number t + 1\<rparr>"
  have flow1: "detach_flow D (n\<lparr>chain_state := ?t\<rparr>)"
    using detach_flow_chain [OF flow, of ?t "[]"] history_kept_end [of "chain_state n" _ "dep_ext D"] detach_flowD(1) [OF flow]
    by (simp add: block_end(2) runtime_on_finalize_keeps runtime_on_finalize_more)
  have "set rs \<subseteq> requested n" if "detach_queues n' i = Some rs" for i rs
    using that detach_flowD(3,4) [OF flow] by (auto simp: block_end runtime_on_finalize_keeps split: if_splits)
  then show ?thesis
    using detach_flow_same [OF flow1, of n'] detach_flowD(5) [OF flow] by (simp add: block_end(1) requested_def)
next
  case (sign_requests i s w)
  have queues: "set rs \<subseteq> requested n" if "detach_queues n' j = Some rs" for j rs
  proof -
    have "detach_queues n j = Some rs \<or> rs = []"
      using that process_detach_requests_queue [OF sign_requests(2)] by (auto simp: sign_requests(1) split: if_splits)
    then show ?thesis using detach_flowD(4) [OF flow, of j rs] by auto
  qed
  have "\<exists>r \<in> requested n. det_hash d = req_hash r \<and> det_target_chain d = req_target_chain r \<and>
      det_target_account d = req_target_account r \<and> length (req_target_account r) = 20"
    if "(d, sig) \<in> set (submitted (detach_workers n' j))" for j d sig
  proof (cases "(d, sig) \<in> set (submitted (detach_workers n j))")
    case True
    then show ?thesis by (rule detach_flowD(5) [OF flow])
  next
    case False
    then have "j = i" "(d, sig) \<in> set (submitted w)" "(d, sig) \<notin> set (submitted (detach_workers n i))"
      using that by (auto simp: sign_requests(1) split: if_splits)
    with process_detach_requests_submitted [OF sign_requests(2) this(2)] obtain rs r where
      rs: "detach_queues n i = Some rs" "r \<in> set rs"
      and r: "signs_request (dep_ext D) (detach_host D i) ((chain_state n)\<lparr>offchain_requests := detach_queues n i\<rparr>) r (d, sig)"
      by auto
    have "r \<in> requested n" using detach_flowD(4) [OF flow rs(1)] rs(2) by blast
    moreover note signs_request_fields [OF r]
    moreover have "\<exists>public. d = f public" if "send_unsigned (detach_host D i) k f = Some (d, sig)" for k f d sig
      using sends that unfolding sends_payload_def by blast
    ultimately show ?thesis by blast
  qed
  with queues show ?thesis by (intro detach_flow_same [OF flow]) (simp_all add: sign_requests(1))
next
  case (fetch_locks i r w)
  show ?thesis
    by (rule detach_flow_same [OF flow]) (use detach_flowD(4,5) [OF flow] in \<open>simp_all add: fetch_locks(1)\<close>)
next
  case (ethereum i w)
  show ?thesis
    by (rule detach_flow_same [OF flow]) (use detach_flowD(4,5) [OF flow] in \<open>simp_all add: ethereum\<close>)
qed


lemma detach_flow_reachable:
  "(network_step D)\<^sup>*\<^sup>* n n' \<Longrightarrow> network_start D n \<Longrightarrow> sends_payload D \<Longrightarrow> detach_flow D n'"
  by (induction rule: rtranclp_induct) (auto intro: detach_flow_start detach_flow_step)

section \<open>Where locked amounts come from\<close>

text \<open>
  A report: an event of the FRAG contract that the Ethereum node of some node answered with,
  as a payload for some key.
\<close>

definition reported :: "('b, 'p, 'k, 'w) deployment \<Rightarrow> eth_lock_update \<Rightarrow> bool" where
  "reported D d \<longleftrightarrow> (\<exists>i l public. answered (lock_host D i) (dep_contracts D) l \<and> d = lock_update l public)"

definition lock_flow :: "('b, 'p, 'k, 'w) deployment \<Rightarrow> ('b, 'c, 'p, 'k, 'w) network \<Rightarrow> bool" where
  "lock_flow D n \<longleftrightarrow>
     accounts_FragKeys (chain_state n) \<subseteq> node_keys D \<and>
     (\<forall>i d sig. (d, sig) \<in> set (submitted_locks (lock_workers n i)) \<longrightarrow> reported D d) \<and>
     (\<forall>a k. EthLockedFrag (chain_state n) a = Some k \<longrightarrow> (\<exists>d. reported D d \<and> elu_sender d = a \<and>
        lock_event_valid (dep_config D) (dep_ext D) d \<and> lock_amount k = ucast (elu_amount d)))"

lemma lock_flow_chain:
  assumes flow: "lock_flow D n"
    and "accounts_FragKeys t \<subseteq> node_keys D"
    and "EthLockedFrag t = EthLockedFrag (chain_state n) \<or> (\<exists>d m. reported D d \<and>
        lock_event_valid (dep_config D) (dep_ext D) d \<and> EthLockedFrag t = (EthLockedFrag (chain_state n))(elu_sender d \<mapsto>
          \<lparr>lock_amount = ucast (elu_amount d), lock_block_number = m\<rparr>))"
    and "chain_state n' = t" and "lock_workers n' = lock_workers n"
  shows "lock_flow D n'"
  using assms unfolding lock_flow_def by (auto split: if_splits; blast)

lemma lock_flow_start: "network_start D n \<Longrightarrow> lock_flow D n"
  by (auto simp: network_start_def genesis_state_def blank_state_def lock_flow_def)

lemma lock_flow_step:
  assumes "network_step D n n'" and flow: "lock_flow D n" and sends: "sends_payload D"
  shows "lock_flow D n'"
  using assms(1)
proof cases
  case (signed who call r t)
  have "EthLockedFrag t = EthLockedFrag (chain_state n)"
    using signed(2) by (cases rule: extrinsic_locks) auto
  then show ?thesis
    using extrinsic_keys(2) [OF signed(2)] flow
    by (intro lock_flow_chain [OF flow, of t]) (auto simp: signed(1) lock_flow_def)
next
  case (sudo call r t)
  have "EthLockedFrag t = EthLockedFrag (chain_state n)"
    using sudo(2) by (cases rule: extrinsic_locks) auto
  moreover have "accounts_FragKeys t \<subseteq> node_keys D"
    using extrinsic_keys(2) [OF sudo(2)] sudo(3) flow unfolding registers_nodes_def lock_flow_def by blast
  ultimately show ?thesis by (intro lock_flow_chain [OF flow, of t]) (simp_all add: sudo(1))
next
  case (unsigned call r t)
  have "EthLockedFrag t = EthLockedFrag (chain_state n) \<or> (\<exists>d m. reported D d \<and>
      lock_event_valid (dep_config D) (dep_ext D) d \<and> EthLockedFrag t = (EthLockedFrag (chain_state n))(elu_sender d \<mapsto>
        \<lparr>lock_amount = ucast (elu_amount d), lock_block_number = m\<rparr>))"
    using unsigned(2)
  proof (cases rule: extrinsic_locks)
    case (settled d sig)
    then have call: "call = Accounts_Call (Internal_lock_update d sig)" by simp
    from unsigned_signed(2) [OF unsigned(2) call] flow unsigned(3) call
    have "\<exists>i. (d, sig) \<in> set (submitted_locks (lock_workers n i))"
      unfolding lock_signed_def not_forged_def lock_flow_def by blast
    then have "reported D d" using flow unfolding lock_flow_def by blast
    then show ?thesis using settled(2,3) by blast
  qed simp
  moreover have "accounts_FragKeys t \<subseteq> node_keys D"
    using extrinsic_keys(2) [OF unsigned(2)] flow unfolding lock_flow_def by blast
  ultimately show ?thesis by (intro lock_flow_chain [OF flow, of t]) (simp_all add: unsigned(1))
next
  case (frame t)
  then have "same_accounts (chain_state n) t" by (simp add: foreign_change_def)
  then show ?thesis
    using flow by (intro lock_flow_chain [OF flow, of t]) (simp_all add: frame(1) same_accounts_def lock_flow_def)
next
  case (block_end t importing)
  show ?thesis
    using flow by (intro lock_flow_chain [OF flow, of "chain_state n'"])
      (simp_all add: block_end runtime_on_finalize_more lock_flow_def)
next
  case (sign_requests i s w)
  then show ?thesis using flow by (simp add: lock_flow_def)
next
  case (fetch_locks i r w)
  have "reported D d" if "(d, sig) \<in> set (submitted_locks (lock_workers n' j))" for j d sig
  proof (cases "(d, sig) \<in> set (submitted_locks (lock_workers n j))")
    case True
    then show ?thesis using flow unfolding lock_flow_def by blast
  next
    case False
    then have "j = i" "(d, sig) \<in> set (submitted_locks w)" "(d, sig) \<notin> set (submitted_locks (lock_workers n i))"
      using that by (auto simp: fetch_locks(1) split: if_splits)
    with accounts_offchain_worker_submitted [OF fetch_locks(2) this(2)] obtain l host where
      "answered (lock_host D i) (dep_contracts D) l"
      and "send_unsigned_lock (lock_host D i) host (lock_update l) = Some (Some (d, sig))" by blast
    then show ?thesis using sends unfolding sends_payload_def reported_def by blast
  qed
  then show ?thesis using flow by (simp add: lock_flow_def fetch_locks(1))
next
  case (ethereum i w)
  then show ?thesis using flow by (simp add: lock_flow_def)
qed

lemma lock_flow_reachable:
  "(network_step D)\<^sup>*\<^sup>* n n' \<Longrightarrow> network_start D n \<Longrightarrow> sends_payload D \<Longrightarrow> lock_flow D n'"
  by (induction rule: rtranclp_induct) (auto intro: lock_flow_start lock_flow_step)

end
