(* ===== verification/Sync_Properties.thy ===== *)
theory Sync_Properties
  imports Accounts_Sync Accounts_Properties
begin

text \<open>
  Properties of the off-chain worker of the pallet \<open>accounts\<close> and of the HTTP client under
  it, and of what its transactions do on the chain.
\<close>

section \<open>A concrete node\<close>

text \<open>
  A node of the Ethereum network that answers with prepared responses, each a list of
  pieces, in a world that is the list of the responses to come. The JSON texts \<open>[1]\<close> and
  \<open>[2]\<close> stand for a block number and a list with one lock event.
\<close>

fun next_piece :: "bytes list list \<Rightarrow> bytes option \<times> bytes list list" where
  "next_piece [] = (Some [], [])"
| "next_piece ([] # rs) = (Some [], rs)"
| "next_piece ((c # cs) # rs) = (Some c, cs # rs)"

definition sample_event :: json where
  "sample_event = JObject [(ascii ''blockNumber'', JString (ascii ''0x4'')),
     (ascii ''data'', JString (ascii ''0x'' @ replicate 97 0)),
     (ascii ''topics'', JArray [JString LOCK_EVENT, JString (ascii ''0x'' @ replicate 32 0)])]"

definition sample_sync :: "bytes list list sync_ext" where
  "sample_sync = \<lparr>http_request_start = (\<lambda>_ _ w. (Some 0, w)),
     http_request_add_header = (\<lambda>_ _ _ w. (True, w)), http_request_write_body = (\<lambda>_ _ w. (True, w)),
     http_response_wait = (\<lambda>_ w. ([Finished 200], w)), http_response_read_body = (\<lambda>_ _. next_piece),
     json_to_string = (\<lambda>_. Some []),
     json_from_str = (\<lambda>b. if b = [1] then Some (JObject [(ascii ''result'', JString (ascii ''0x5''))])
        else if b = [2] then Some (JObject [(ascii ''result'', JArray [sample_event])]) else None),
     sync_hex_decode = Some, abi_decode_lock = (\<lambda>b. Some [Token_Bytes (take 65 b), Token_Uint 100]),
     send_unsigned_lock = (\<lambda>_ f. Some (Some (f (Ed25519 [7]), [1])))\<rparr>"

definition sample_node :: "bytes list list \<Rightarrow> bytes list list sync_world" where
  "sample_node rs = \<lparr>outside = rs, GETH_URL = Some [104], frag_sync_last_block = None, submitted_locks = []\<rparr>"

lemma sample_finite: "finite_responses sample_sync (\<lambda>rs. sum_list (map length rs))"
proof -
  have "next_piece rs = (Some c, rs') \<Longrightarrow> c \<noteq> [] \<Longrightarrow> sum_list (map length rs') < sum_list (map length rs)" for rs c rs'
    by (cases rs rule: next_piece.cases) auto
  then show ?thesis by (simp add: finite_responses_def sample_sync_def)
qed

lemma sample_post:
  "http_json_post sample_sync uri body ([c] # rs) =
   (if c = [] then Some (Value [], [] # rs) else if length c > 1024 then Some (Crash, [] # rs) else Some (Value c, rs))"
  by (simp add: http_json_post_def sample_sync_def read_response.simps)

lemma sample_request:
  "geth_request sample_sync uri req ([[1]] # rs) = Some (Value (JObject [(ascii ''result'', JString (ascii ''0x5''))]), rs)"
  "geth_request sample_sync uri req ([[2]] # rs) = Some (Value (JObject [(ascii ''result'', JArray [sample_event])]), rs)"
proof -
  have "json_to_string sample_sync req = Some []" "json_from_str sample_sync [1] = Some (JObject [(ascii ''result'', JString (ascii ''0x5''))])"
    "json_from_str sample_sync [2] = Some (JObject [(ascii ''result'', JArray [sample_event])])"
    by (simp_all add: sample_sync_def)
  then show "geth_request sample_sync uri req ([[1]] # rs) = Some (Value (JObject [(ascii ''result'', JString (ascii ''0x5''))]), rs)"
    "geth_request sample_sync uri req ([[2]] # rs) = Some (Value (JObject [(ascii ''result'', JArray [sample_event])]), rs)"
    by (simp_all add: geth_request_def sample_post)
qed

definition sample_log :: lock_log where
  "sample_log = \<lparr>log_block_number = 4, log_locked = True, log_sender = replicate 20 0,
     log_signature = replicate 65 0, log_amount = 100\<rparr>"

lemma ascii_hex_fields:
  "str_from 2 (ascii ''0x4'') = Some (ascii ''4'')" "str_from 2 (ascii ''0x5'') = Some (ascii ''5'')"
  "u64_from_hex (ascii ''4'') = Some 4" "u64_from_hex (ascii ''5'') = Some 5"
  by (simp_all add: str_from_def ascii_def utf8_cont_def u64_from_hex_def to_digit16_def)

lemma sample_bytes_field:
  "0 < n \<Longrightarrow> bytes_field sample_sync e (ascii ''0x'' @ replicate n 0) = Value (replicate n 0)"
  by (simp add: bytes_field_def str_from_def ascii_def nth_append utf8_cont_def sample_sync_def)

lemma read_sample_event: "read_log sample_sync sample_event = Value sample_log"
proof -
  have keys: "json_get sample_event (ascii ''blockNumber'') = JString (ascii ''0x4'')"
    "json_get sample_event (ascii ''topics'') = JArray [JString LOCK_EVENT, JString (ascii ''0x'' @ replicate 32 0)]"
    "json_get sample_event (ascii ''data'') = JString (ascii ''0x'' @ replicate 97 0)"
    by (simp_all add: json_get_def sample_event_def ascii_def)
  have "abi_decode_lock sample_sync b = Some [Token_Bytes (take 65 b), Token_Uint 100]" for b
    by (simp add: sample_sync_def)
  then show ?thesis
    by (simp add: read_log_def keys json_as_str_def json_as_array_def hex_field_def ascii_hex_fields
        log_data_def sample_bytes_field log_sender_of_def log_payload_def sample_log_def)
qed

lemma sample_confirmations [simp]: "EthConfirmations (sample_config n) = 1"
  by (simp add: sample_config_def)

lemma sample_sync_run:
  assumes "frag_sync_last_block w = None \<or> frag_sync_last_block w = Some (ascii ''0x4'')"
    and "outside w = [[1]] # [[2]] # rs" and "EthConfirmations C = 1"
  shows "sync_partner_contract C sample_sync contract uri w =
    Some (Value (), w\<lparr>outside := rs, submitted_locks := submitted_locks w @ [(lock_update sample_log (Ed25519 [7]), [1])],
      frag_sync_last_block := Some (ascii ''0x4'')\<rparr>)"
proof -
  have get: "json_get (JObject [(ascii ''result'', x)]) (ascii ''result'') = x" for x
    by (simp add: json_get_def)
  have block: "to_block C 5 = ascii ''0x4''"
    by (simp add: to_block_def assms(3) sat_sub_def lower_hex_def lower_hex_nat.simps hex_digit_def ascii_def)
  have "utf8 (ascii ''0x4'')" by (simp add: ascii_def)
  then have start: "\<exists>b. last_block w = Value b" using assms(1) by (auto simp: last_block_def)
  have send: "send_unsigned_lock sample_sync o1 f = Some (Some (f (Ed25519 [7]), [1]))" for o1 f
    by (simp add: sample_sync_def)
  show ?thesis
    using start by (auto simp: sync_partner_contract_def assms(2) sample_request get json_as_str_def hex_field_def
      ascii_hex_fields json_as_array_def read_sample_event send_log_def send block)
qed

section \<open>Properties\<close>

text \<open>
  A response with status 200 is returned whole: the pieces the host delivers up to the
  end, whatever their sizes; and a host with finite responses never keeps the client waiting
  in its loop.
\<close>

theorem http_response_whole:
  assumes "finite_responses H left"
  shows "\<exists>r w'. http_json_post H url body w = Some (r, w') \<and>
    (\<forall>b. r = Value b \<longrightarrow> (\<exists>request v w1 st cs. http_response_wait H [request] v = (Finished 200 # st, w1) \<and>
       delivers H request w1 cs w' \<and> b = concat cs))"
  using http_json_post_total [OF assms, of url body w] by (metis (no_types, lifting))

theorem http_response_whole_witness:
  "\<exists>request v w1 st cs w'. http_response_wait sample_sync [request] v = (Finished 200 # st, w1) \<and>
     delivers sample_sync request w1 cs w' \<and> [1, 2, 3] = concat cs"
proof -
  have "http_json_post sample_sync [] [] [[[1], [2, 3]]] = Some (Value [1, 2, 3], [])"
    by (simp add: http_json_post_def sample_sync_def read_response.simps)
  then show ?thesis
    using http_response_whole [OF sample_finite, of "[]" "[]" "[[[1], [2, 3]]]"] by simp blast
qed

text \<open>
  C29. The off-chain worker returns after every block when the responses of the Ethereum node
  are finite: no request and no contract keeps it forever.
\<close>

theorem offchain_worker_returns:
  assumes "finite_responses W left"
  shows "\<exists>r w'. accounts_offchain_worker C W contracts w = Some (r, w')"
  using sync_contracts_total [OF assms, of C _ contracts w]
  by (cases "get_geth_url w") (auto simp: accounts_offchain_worker_def sync_partner_contracts_def)

theorem offchain_worker_returns_witness:
  "\<exists>r w'. accounts_offchain_worker (sample_config 1) sample_sync [[1], [2]] (sample_node [[[1]], [[2]]]) = Some (r, w')"
  by (rule offchain_worker_returns [OF sample_finite])

text \<open>
  C36. The block number the worker records is read back as the number that was written, by
  the worker's own parser.
\<close>

theorem to_block_reads_back:
  "hex_field e (to_block C n) = Value (sat_sub n (EthConfirmations C)) \<and> utf8 (to_block C n)"
proof
  let ?m = "sat_sub n (EthConfirmations C)"
  have ne: "lower_hex ?m \<noteq> []" using lower_hex_nat_hd by (simp add: lower_hex_def)
  have "\<not> utf8_cont (lower_hex ?m ! 0)"
    using utf8_lower_hex [of "lower_hex ?m ! 0" ?m] ne by (simp add: utf8_cont_def word_le_nat_alt)
  then have "str_from 2 (to_block C n) = Some (lower_hex ?m)"
    by (simp add: str_from_def to_block_def nth_append)
  then show "hex_field e (to_block C n) = Value ?m" by (simp add: hex_field_def hex_u64.parse_print)
  show "utf8 (to_block C n)" by (rule utf8_to_block)
qed

text \<open>
  C18. A run either ends with an error and leaves the recorded block, so that the same events
  are asked for again, or it has sent one transaction for each event between the recorded
  block and the new one, and records the new one.
\<close>

theorem sync_cursor:
  assumes "sync_partner_contract C W contract uri w = Some (r, w')"
  shows "if r = Value ()
    then \<exists>a b txs. last_block w = Value a \<and> synced C W contract uri a b txs \<and>
       submitted_locks w' = submitted_locks w @ txs \<and> last_block w' = Value b
    else frag_sync_last_block w' = frag_sync_last_block w \<and> (\<exists>txs. submitted_locks w' = submitted_locks w @ txs)"
  using assms by (cases rule: sync_partner_contract_cases) auto

theorem sync_cursor_witness:
  "\<exists>b txs. synced (sample_config 1) sample_sync [9] [104] (ascii ''0x0'') b txs \<and>
    [(lock_update sample_log (Ed25519 [7]), [1])] = txs"
  using sync_cursor [OF sample_sync_run [of "sample_node [[[1]], [[2]]]", where C = "sample_config 1" and contract = "[9]" and uri = "[104]"]]
  by (auto simp: sample_node_def last_block_def)

text \<open>
  Consecutive runs overlap: the second asks for the events from the very block the first
  one asked up to, and both bounds are inclusive, so the events of that block are sent twice
  by every node.
\<close>

theorem sync_overlap:
  assumes "sync_partner_contract C W contract uri w = Some (Value (), w1)"
    and "frag_sync_last_block w2 = frag_sync_last_block w1"
    and "sync_partner_contract C W contract uri w2 = Some (Value (), w3)"
  shows "\<exists>a b c txs txs'. synced C W contract uri a b txs \<and> synced C W contract uri b c txs' \<and>
    submitted_locks w1 = submitted_locks w @ txs \<and> submitted_locks w3 = submitted_locks w2 @ txs'"
  using assms(1)
proof (cases rule: sync_partner_contract_cases)
  case (synced a b txs)
  note first = this
  from assms(3) show ?thesis
  proof (cases rule: sync_partner_contract_cases)
    case (synced b' c txs')
    have "last_block w2 = last_block w1" using assms(2) by (simp add: last_block_def)
    then have "b' = b" using synced(2) first(7) by simp
    then show ?thesis using first(3,4) synced(3,4) by blast
  qed simp
qed simp

theorem sync_overlap_witness:
  "\<exists>a b c txs txs'. synced (sample_config 1) sample_sync [9] [104] a b txs \<and>
    synced (sample_config 1) sample_sync [9] [104] b c txs'"
proof -
  note run = sample_sync_run [where C = "sample_config 1" and contract = "[9]" and uri = "[104]"]
  have one: "sync_partner_contract (sample_config 1) sample_sync [9] [104] (sample_node [[[1]], [[2]], [[1]], [[2]]]) =
    Some (Value (), sample_node [[[1]], [[2]]]\<lparr>frag_sync_last_block := Some (ascii ''0x4''),
      submitted_locks := [(lock_update sample_log (Ed25519 [7]), [1])]\<rparr>)"
    by (simp add: run sample_node_def)
  have two: "\<exists>w3. sync_partner_contract (sample_config 1) sample_sync [9] [104]
      (sample_node [[[1]], [[2]]]\<lparr>frag_sync_last_block := Some (ascii ''0x4''),
         submitted_locks := [(lock_update sample_log (Ed25519 [7]), [1])]\<rparr>) = Some (Value (), w3)"
    by (simp add: run sample_node_def)
  then show ?thesis using sync_overlap [OF one refl] by blast
qed

text \<open>An environment of the chain in which the signature of the sample event is valid.\<close>

definition lock_ext :: "unit accounts_ext" where
  "lock_ext = sample_ext\<lparr>ecdsa_recover := (\<lambda>sig msg. Some (take 32 sig))\<rparr>"

text \<open>
  With a threshold of two votes, one node is enough: two runs of its worker over the same
  boundary block submit the same event twice, the chain accepts both transactions as votes,
  and the second one settles the lock.
\<close>

theorem one_node_settles_lock:
  "\<exists>w1 w2 d. accounts_offchain_worker (sample_config 2) sample_sync [[9]] (sample_node [[[1]], [[2]], [[1]], [[2]]]) = Some (Value (), w1) \<and>
    accounts_offchain_worker (sample_config 2) sample_sync [[9]] w1 = Some (Value (), w2) \<and>
    submitted_locks w2 = [(d, [1]), (d, [1])] \<and>
    (let s1 = snd (internal_lock_update (sample_config 2) lock_ext NoOrigin d [1] empty_accounts);
         s2 = snd (internal_lock_update (sample_config 2) lock_ext NoOrigin d [1] s1)
     in EthLockedFrag s1 (replicate 20 0) = None \<and>
        EthLockedFrag s2 (replicate 20 0) = Some \<lparr>lock_amount = 100, lock_block_number = 1\<rparr>)"
proof -
  let ?d = "lock_update sample_log (Ed25519 [7])"
  let ?w = "\<lambda>rs txs. (sample_node rs)\<lparr>frag_sync_last_block := Some (ascii ''0x4''), submitted_locks := txs\<rparr>"
  note run = sample_sync_run [where C = "sample_config 2" and contract = "[9]" and uri = "[104]"]
  have one: "accounts_offchain_worker (sample_config 2) sample_sync [[9]] (sample_node [[[1]], [[2]], [[1]], [[2]]]) =
      Some (Value (), ?w [[[1]], [[2]]] [(?d, [1])])"
    and two: "accounts_offchain_worker (sample_config 2) sample_sync [[9]] (?w [[[1]], [[2]]] [(?d, [1])]) =
      Some (Value (), ?w [] [(?d, [1]), (?d, [1])])"
    by (simp_all add: accounts_offchain_worker_def sync_partner_contracts_def get_geth_url_def run sample_node_def)
  have valid: "lock_event_valid (sample_config 2) lock_ext ?d"
    by (simp add: lock_event_valid_def recover_address_def lock_ext_def sample_ext_def lock_update_def sample_log_def)
  let ?h = "lock_data_hash lock_ext ?d"
  let ?s1 = "empty_accounts\<lparr>EVMLinkVoting := [?h \<mapsto> 1]\<rparr>"
  have s1: "internal_lock_update (sample_config 2) lock_ext NoOrigin ?d [1] empty_accounts = (Ok, ?s1)"
    using internal_lock_update_valid [OF valid, of empty_accounts "[1]"] by (simp add: count_vote_def)
  have s2: "internal_lock_update (sample_config 2) lock_ext NoOrigin ?d [1] ?s1 =
      settle_lock ?d ?h 100 (?s1\<lparr>EVMLinkVoting := Map.empty\<rparr>)"
    using internal_lock_update_valid [OF valid, of ?s1 "[1]"]
    by (simp add: count_vote_def lock_update_def sample_log_def)
  have "EthLockedFrag (snd (settle_lock ?d ?h 100 (?s1\<lparr>EVMLinkVoting := Map.empty\<rparr>))) (replicate 20 0) =
      Some \<lparr>lock_amount = 100, lock_block_number = 1\<rparr>"
    by (simp add: settle_lock_def apply_lock_def Let_def lock_update_def sample_log_def empty_accounts_def)
  moreover have "EthLockedFrag ?s1 (replicate 20 0) = None" by (simp add: empty_accounts_def)
  ultimately have chain: "let s1 = snd (internal_lock_update (sample_config 2) lock_ext NoOrigin ?d [1] empty_accounts);
         s2 = snd (internal_lock_update (sample_config 2) lock_ext NoOrigin ?d [1] s1)
     in EthLockedFrag s1 (replicate 20 0) = None \<and>
        EthLockedFrag s2 (replicate 20 0) = Some \<lparr>lock_amount = 100, lock_block_number = 1\<rparr>"
    by (simp add: Let_def s1 s2)
  show ?thesis
    by (intro exI conjI) (rule one, rule two, simp, rule chain)
qed

end
