(* ===== verification/Network_Properties.thy ===== *)
theory Network_Properties
  imports Clamor_Network Runtime_Properties Sync_Properties
begin

text \<open>
  Properties of the chain together with its nodes: where detachments and locked amounts come
  from, what a transaction that is sent again does, and a chain that nobody administers.
\<close>

section \<open>A concrete network\<close>

definition sample_deployment :: "(unit, u8) fragments_ext \<Rightarrow> (unit, u8, unit, bytes list list) deployment" where
  "sample_deployment E = \<lparr>dep_config = runtime_config, dep_ext = E, dep_transactional = True,
     detach_host = (\<lambda>_. sample_offchain), lock_host = (\<lambda>_. sample_sync), dep_contracts = [[9]], node_keys = {[7]}\<rparr>"

lemma sample_deployment_simps [simp]:
  "dep_config (sample_deployment E) = runtime_config" "dep_ext (sample_deployment E) = E"
  "dep_transactional (sample_deployment E)" "detach_host (sample_deployment E) i = sample_offchain"
  "lock_host (sample_deployment E) i = sample_sync" "dep_contracts (sample_deployment E) = [[9]]"
  "node_keys (sample_deployment E) = {[7]}"
  by (simp_all add: sample_deployment_def)

lemma sample_sends: "sends_payload (sample_deployment E)"
  by (auto simp: sends_payload_def sample_sync_def)

text \<open>A network with only node 0 in it; the steps of such networks.\<close>

definition one_node :: "('b, 'c, 'p) fragments_state \<Rightarrow> detach_request list option \<Rightarrow> unit worker
    \<Rightarrow> bytes list list sync_world \<Rightarrow> (account_id \<times> detach_request \<times> 'c proto) list
    \<Rightarrow> ('b, 'c, 'p, unit, bytes list list) network" where
  "one_node s q w l made = \<lparr>chain_state = s, detach_workers = (\<lambda>_. sample_worker)(0 := w),
     detach_queues = (\<lambda>_. None)(0 := q), lock_workers = (\<lambda>_. sample_node [])(0 := l), requests_made = made\<rparr>"

lemma one_node_simps [simp]:
  "chain_state (one_node s q w l made) = s" "requests_made (one_node s q w l made) = made"
  "submitted (detach_workers (one_node s q w l made) 0) = submitted w"
  "submitted_locks (lock_workers (one_node s q w l made) 0) = submitted_locks l"
  by (simp_all add: one_node_def)

lemma one_node_steps:
  "foreign_change s t \<Longrightarrow> network_step D (one_node s q w l made) (one_node t q w l made)"
  "dep_apply D (Signed_Extrinsic who call) s = Some (r, t) \<Longrightarrow>
    network_step D (one_node s q w l made) (one_node t q w l (made @ new_requests who call r s))"
  "dep_apply D (Unsigned_Extrinsic call) s = Some (r, t) \<Longrightarrow> not_forged D (one_node s q w l made) call \<Longrightarrow>
    network_step D (one_node s q w l made) (one_node t q w l made)"
  "DetachRequests s = [] \<Longrightarrow> t = runtime_on_finalize (dep_ext D) s \<Longrightarrow>
    network_step D (one_node s q w l made) (one_node (t\<lparr>block_number := block_number t + 1\<rparr>) q w l made)"
  "DetachRequests s = rs \<Longrightarrow> rs \<noteq> [] \<Longrightarrow> t = runtime_on_finalize (dep_ext D) s \<Longrightarrow>
    network_step D (one_node s q w l made) (one_node (t\<lparr>block_number := block_number t + 1\<rparr>) (Some rs) w l made)"
  "process_detach_requests (dep_ext D) (detach_host D 0) (s\<lparr>offchain_requests := q\<rparr>) w = (u, w') \<Longrightarrow>
    network_step D (one_node s q w l made) (one_node s (offchain_requests u) w' l made)"
  "accounts_offchain_worker (dep_config D) (lock_host D 0) (dep_contracts D) l = Some (v, l') \<Longrightarrow>
    network_step D (one_node s q w l made) (one_node s q w l' made)"
  using network_step.frame [of "one_node s q w l made" t D]
    network_step.signed [of D who call "one_node s q w l made" r t]
    network_step.unsigned [of D call "one_node s q w l made" r t]
    network_step.block_end [of t D "one_node s q w l made" "{0}"]
    network_step.sign_requests [of D 0 "one_node s q w l made" u w']
    network_step.fetch_locks [of D 0 "one_node s q w l made" v l']
  by (simp_all add: one_node_def runtime_on_finalize_keeps fun_upd_def cong: if_cong)

lemma one_node_start:
  "network_start (sample_deployment E) (one_node sample_chain None sample_worker (sample_node rs) [])"
  unfolding network_start_def
proof (intro conjI)
  show "\<exists>G b. chain_state (one_node sample_chain None sample_worker (sample_node rs) []) = genesis_state G b \<and>
      set (detach_keys G) \<subseteq> node_keys (sample_deployment E) \<and> set (accounts_keys G) \<subseteq> node_keys (sample_deployment E)"
    by (intro exI [of _ sample_genesis] exI [of _ "()"])
      (simp add: sample_chain_def sample_genesis_def testnet_genesis_def)
qed (simp_all add: one_node_def sample_node_def)

lemma sample_chain_simps [simp]:
  "DetachRequests sample_chain = []" "block_number sample_chain = 0" "accounts_FragKeys sample_chain = {[7]}"
  "EVMLinkVotingClosed sample_chain = Map.empty" "EVMLinksReverse sample_chain = Map.empty"
  by (simp_all add: sample_chain_def genesis_state_def blank_state_def sample_genesis_def testnet_genesis_def)

abbreviation "exported \<equiv> (sample_request 0 20)\<lparr>req_hash := seven\<rparr>"

definition signed_export :: detach_internal_data where
  "signed_export = \<lparr>det_public = Ed25519 [7], det_hash = seven, det_target_chain = EthereumGoerli,
     det_target_account = replicate 20 1, det_remote_signature = fix_signature (take 65
       (keccak_256 chain_ext (0x19 # ascii ''Ethereum Signed Message:'' @ [0x0a] @ ascii ''32''
          @ keccak_256 chain_ext (detach_message exported 1)))), det_nonce = 1\<rparr>"

lemma exported_signed:
  assumes "EthereumAuthorities s = {[3]}" and "DetachNonces s = Map.empty"
  shows "process_detach_requests chain_ext sample_offchain (s\<lparr>offchain_requests := Some [exported]\<rparr>) sample_worker =
    (s\<lparr>offchain_requests := Some []\<rparr>, sample_worker\<lparr>submitted := [(signed_export, [1])]\<rparr>)"
proof -
  have "sign_request chain_ext sample_offchain (s\<lparr>offchain_requests := Some [exported]\<rparr>) () exported =
      Done (det_remote_signature signed_export, 1)"
    by (simp add: assms sign_request_def sample_request_def add_target_account_to_payload_def add_nonce_to_payload_def
        sign_payload_def add_chainid_to_payload_def detach_message_def signed_export_def Let_def)
      (simp add: sample_offchain_def)
  then show ?thesis
    by (simp add: process_detach_requests_def update_keys_recorded [OF sample_keys_recorded] submit_detach_def
        signed_export_def sample_request_def)
qed

lemma exported_applied:
  assumes "detach_FragKeys s = {[7]}"
  shows "apply_extrinsic runtime_config chain_ext True
    (Unsigned_Extrinsic (Detach_Call (Internal_finalize_detach signed_export [1]))) s =
    Some (Ok, snd (internal_finalize_detach NoOrigin signed_export [1] s))"
proof -
  have "decode_multi_signer chain_ext (encode_public chain_ext (Ed25519 [7])) = Some (Ed25519 [7])"
    and "verify_detach chain_ext signed_export [1]"
    by (simp_all add: chain_ext_def sample_fragments_ext_def sample_ext_def accounts_ext.defs)
  then have "runtime_validate_unsigned chain_ext InBlock (Detach_Call (Internal_finalize_detach signed_export [1])) s"
    by (simp add: validated assms signed_export_def)
  then show ?thesis
    by (simp add: apply_extrinsic_def dispatch_def in_pallet_def internal_finalize_detach_def Let_def)
qed

lemma sample_detached_run:
  "\<exists>n' x. (network_step (sample_deployment chain_ext))\<^sup>*\<^sup>* (one_node sample_chain None sample_worker (sample_node []) []) n' \<and>
     DetachedHashes (chain_state n') seven = Some x"
proof -
  let ?D = "sample_deployment chain_ext" let ?l = "sample_node []" let ?w = sample_worker
  let ?w1 = "?w\<lparr>submitted := [(signed_export, [1])]\<rparr>"
  let ?s1 = "sample_chain\<lparr>block_number := 1, extrinsic_index := Some 0\<rparr>"
  let ?s3 = "after_upload\<lparr>DetachRequests := [exported]\<rparr>"
  let ?t = "runtime_on_finalize chain_ext ?s3" let ?s4 = "?t\<lparr>block_number := block_number ?t + 1\<rparr>"
  let ?s5 = "snd (internal_finalize_detach NoOrigin signed_export [1] ?s4)"
  let ?made = "[([1], exported, sample_proto)]"
  have "network_step ?D (one_node sample_chain None ?w ?l []) (one_node (sample_chain\<lparr>block_number := 1\<rparr>) None ?w ?l [])"
    using one_node_steps(4) [of sample_chain sample_chain ?D] by (simp add: sample_chain_finalize)
  moreover have "network_step ?D (one_node (sample_chain\<lparr>block_number := 1\<rparr>) None ?w ?l []) (one_node ?s1 None ?w ?l [])"
    by (rule one_node_steps(1)) (simp add: foreign_change_def same_defs)
  moreover have "network_step ?D (one_node ?s1 None ?w ?l []) (one_node after_upload None ?w ?l [])"
    using one_node_steps(2) [of ?D "[1]" "Protos_Call (Upload [] 3 [[4]] None (Some 9) [7])" ?s1 Ok after_upload None ?w ?l "[]"]
      apply_first_upload by (simp add: first_upload_def)
  moreover have "network_step ?D (one_node after_upload None ?w ?l []) (one_node ?s3 None ?w ?l ?made)"
    using one_node_steps(2) [of ?D "[1]" "Protos_Call (Detach seven EthereumGoerli (replicate 20 1))" after_upload Ok ?s3 None ?w ?l "[]"]
    by (simp add: apply_extrinsic_def dispatch_def in_pallet_def detach_def ensure_owner_def sample_proto_def sample_request_def)
  moreover have "network_step ?D (one_node ?s3 None ?w ?l ?made) (one_node ?s4 (Some [exported]) ?w ?l ?made)"
    by (rule one_node_steps(5)) simp_all
  moreover have "network_step ?D (one_node ?s4 (Some [exported]) ?w ?l ?made) (one_node ?s4 (Some []) ?w1 ?l ?made)"
    using one_node_steps(6) [where D = ?D and s = ?s4 and q = "Some [exported]" and w = ?w and w' = ?w1
        and u = "?s4\<lparr>offchain_requests := Some []\<rparr>"] exported_signed [of ?s4]
    by (simp add: runtime_on_finalize_more)
  moreover have "network_step ?D (one_node ?s4 (Some []) ?w1 ?l ?made) (one_node ?s5 (Some []) ?w1 ?l ?made)"
  proof (rule one_node_steps(3))
    show "dep_apply ?D (Unsigned_Extrinsic (Detach_Call (Internal_finalize_detach signed_export [1]))) ?s4 = Some (Ok, ?s5)"
      by (simp add: exported_applied runtime_on_finalize_keeps)
  qed (auto simp: not_forged_def intro!: exI [of _ 0])
  ultimately have "(network_step ?D)\<^sup>*\<^sup>* (one_node sample_chain None ?w ?l []) (one_node ?s5 (Some []) ?w1 ?l ?made)"
    by (meson converse_rtranclp_into_rtranclp rtranclp.rtrancl_refl)
  then show ?thesis by (intro exI conjI) (assumption, simp add: internal_finalize_detach_def signed_export_def Let_def)
qed

text \<open>A lock event of the sample Ethereum node, under a recovery that finds its sender.\<close>

definition lock_chain_ext :: "(unit, u8) fragments_ext" where
  "lock_chain_ext = chain_ext\<lparr>ecdsa_recover := \<lambda>_ _. Some (replicate 32 0)\<rparr>"

lemma sample_lock_run:
  "\<exists>n' k. (network_step (sample_deployment lock_chain_ext))\<^sup>*\<^sup>*
      (one_node sample_chain None sample_worker (sample_node [[[1]], [[2]]]) []) n' \<and>
     EthLockedFrag (chain_state n') (replicate 20 0) = Some k"
proof -
  let ?D = "sample_deployment lock_chain_ext" let ?d = "lock_update sample_log (Ed25519 [7])"
  let ?l = "sample_node [[[1]], [[2]]]"
  let ?l1 = "(sample_node [])\<lparr>frag_sync_last_block := Some (ascii ''0x4''), submitted_locks := [(?d, [1])]\<rparr>"
  let ?h = "lock_data_hash lock_chain_ext ?d" let ?s = "snd (settle_lock ?d ?h 100 sample_chain)"
  have "accounts_offchain_worker runtime_config sample_sync [[9]] ?l = Some (Value (), ?l1)"
    using sample_sync_run [where C = runtime_config and contract = "[9]" and uri = "[104]" and w = ?l and rs = "[]"]
    by (simp add: accounts_offchain_worker_def sync_partner_contracts_def get_geth_url_def sample_node_def)
  then have "network_step ?D (one_node sample_chain None sample_worker ?l []) (one_node sample_chain None sample_worker ?l1 [])"
    by (intro one_node_steps(7)) simp
  moreover have "network_step ?D (one_node sample_chain None sample_worker ?l1 []) (one_node ?s None sample_worker ?l1 [])"
  proof (rule one_node_steps(3))
    have keys: "decode_multi_signer lock_chain_ext (encode_public lock_chain_ext (Ed25519 [7])) = Some (Ed25519 [7])"
      and "verify_lock lock_chain_ext ?d [1]"
      by (simp_all add: lock_chain_ext_def chain_ext_def sample_fragments_ext_def sample_ext_def accounts_ext.defs)
    then have v: "runtime_validate_unsigned lock_chain_ext InBlock (Accounts_Call (Internal_lock_update ?d [1])) sample_chain"
      by (simp add: validated lock_update_def)
    have "lock_event_valid runtime_config lock_chain_ext ?d"
      by (simp add: lock_event_valid_def recover_address_def lock_chain_ext_def chain_ext_def sample_fragments_ext_def
          sample_ext_def accounts_ext.defs lock_update_def sample_log_def)
    from internal_lock_update_valid [OF this, of sample_chain "[1]"]
    have "internal_lock_update runtime_config lock_chain_ext NoOrigin ?d [1] sample_chain = (Ok, ?s)"
      by (simp add: count_vote_def lock_update_def sample_log_def settle_lock_def)
    then show "dep_apply ?D (Unsigned_Extrinsic (Accounts_Call (Internal_lock_update ?d [1]))) sample_chain = Some (Ok, ?s)"
      by (simp add: apply_extrinsic_def v dispatch_def in_pallet_def)
  qed (auto simp: not_forged_def intro!: exI [of _ 0])
  ultimately have "(network_step ?D)\<^sup>*\<^sup>* (one_node sample_chain None sample_worker ?l []) (one_node ?s None sample_worker ?l1 [])"
    by (meson converse_rtranclp_into_rtranclp rtranclp.rtrancl_refl)
  then show ?thesis
    by (intro exI conjI) (assumption, simp add: settle_lock_def lock_update_def sample_log_def apply_lock_def)
qed

section \<open>A chain without root\<close>

text \<open>
  Only the sudo key passes calls on as root; without it the chain takes signed and unsigned
  extrinsics only.
\<close>

definition rootless_step :: "'z protos_config_scheme \<Rightarrow> ('b, 'p, 'y) fragments_ext_scheme \<Rightarrow> bool
    \<Rightarrow> ('b, 'c, 'p, 'x) fragments_state_scheme \<Rightarrow> ('b, 'c, 'p, 'x) fragments_state_scheme \<Rightarrow> bool" where
  "rootless_step C E tr s t \<longleftrightarrow>
     (\<exists>x r. (\<nexists>call. x = Sudo_Extrinsic call) \<and> apply_extrinsic C E tr x s = Some (r, t)) \<or> foreign_change s t \<or>
     (\<exists>n. t = (runtime_on_finalize E s)\<lparr>block_number := n\<rparr>)"

text \<open>No key, so no event is ever accepted; nothing locked, so nothing is ever staked.\<close>

definition idle :: "('b, 'c, 'x) protos_state_scheme \<Rightarrow> bool" where
  "idle s \<longleftrightarrow> EthereumAuthorities s = {} \<and> detach_FragKeys s = {} \<and> accounts_FragKeys s = {} \<and>
     DetachedHashes s = Map.empty \<and> EthLockedFrag s = Map.empty \<and> ProtoStakes s = Map.empty"

lemma idle_no_stakes:
  assumes "idle s" and "apply_extrinsic C E tr x s = Some (r, t)" shows "ProtoStakes t = Map.empty"
proof -
  have idle: "ProtoStakes s = Map.empty" "EthLockedFrag s = Map.empty" using assms(1) by (simp_all add: idle_def)
  from assms(2) show ?thesis
  proof (cases rule: apply_extrinsic_Some)
    case (1 og call u)
    from 1(2) have "ProtoStakes u = Map.empty"
    proof (cases rule: runtime_dispatch_cases)
      case (protos c r')
      show ?thesis
      proof (cases "r' = Ok")
        case True
        then show ?thesis
          using protos(2) idle
          by (cases c) (auto elim!: upload_Ok patch_Ok transfer_Ok set_metadata_Ok detach_Ok stake_Ok unstake_Ok)
      qed (use protos_dispatch.failure_keeps_state [OF protos(2)] idle in simp)
    next
      case (fragments c r')
      then show ?thesis using beneath_dispatch [OF fragments(2)] idle by (simp add: beneath_def same_protos_def)
    next
      case (detach c r')
      then show ?thesis using detach_dispatch_frame(1) [OF detach(2)] idle by (simp add: same_protos_def)
    next
      case (accounts c r')
      then show ?thesis using beside_accounts_dispatch [OF accounts(2)] idle by (simp add: beside_accounts_def same_protos_def)
    qed
    then show ?thesis using 1(5) idle by simp
  qed
qed

lemma drop_stakes_idle: "ProtoStakes s = Map.empty \<Longrightarrow> ProtoStakes (drop_stakes who s) = Map.empty"
proof -
  have "fold (\<lambda>hash m. m((hash, who) := None)) hs Map.empty = (Map.empty :: hash256 \<times> account_id \<rightharpoonup> balance \<times> block_num)" for hs
    by (induction hs) simp_all
  then show "ProtoStakes s = Map.empty \<Longrightarrow> ProtoStakes (drop_stakes who s) = Map.empty"
    by (simp add: drop_stakes_def Let_def split: option.split)
qed

lemma finalize_idle: "ProtoStakes s = Map.empty \<Longrightarrow> ProtoStakes (runtime_on_finalize E s) = Map.empty"
proof -
  let ?s1 = "protos_on_finalize s" let ?s2 = "fragments_on_finalize E (block_number s) ?s1"
  assume "ProtoStakes s = Map.empty"
  moreover have "ProtoStakes (fold drop_stakes whos t) = Map.empty" if "ProtoStakes t = Map.empty"
    for whos and t :: "('a, 'b, 'c, 'd) fragments_state_scheme"
    using that by (induction whos arbitrary: t) (simp_all add: drop_stakes_idle)
  ultimately have "ProtoStakes ?s1 = Map.empty" by (simp add: protos_on_finalize_def)
  moreover have "beneath ?s1 ?s2" by simp
  ultimately show ?thesis
    using detach_on_finalize_same(1) [of ?s2] by (simp add: runtime_on_finalize_def beneath_def same_protos_def)
qed

lemma idle_step:
  assumes "rootless_step C E tr s t" and "idle s" shows "idle t"
  using assms(1) unfolding rootless_step_def
proof (elim disjE exE conjE)
  fix x r assume x: "\<nexists>call. x = Sudo_Extrinsic call" and step: "apply_extrinsic C E tr x s = Some (r, t)"
  have keys: "detach_FragKeys t = {}" "accounts_FragKeys t = {}" "EthereumAuthorities t = {}"
    using extrinsic_keys [OF step] x assms(2) unfolding idle_def by blast+
  have none: "\<not> detach_signed E s d sig" "\<not> lock_signed E s e sig" for d e sig
    using assms(2) by (simp_all add: idle_def detach_signed_def lock_signed_def)
  from step have "DetachedHashes t = Map.empty"
  proof (cases rule: extrinsic_detached)
    case (finalized d sig)
    then show ?thesis using unsigned_signed(1) step none by blast
  qed (use assms(2) in \<open>simp add: idle_def\<close>)
  moreover from step have "EthLockedFrag t = Map.empty"
  proof (cases rule: extrinsic_locks)
    case (settled d sig)
    then show ?thesis using unsigned_signed(2) step none by blast
  qed (use assms(2) in \<open>simp add: idle_def\<close>)
  ultimately show ?thesis using keys idle_no_stakes [OF assms(2) step] by (simp add: idle_def)
next
  assume "foreign_change s t"
  then show ?thesis using assms(2) by (simp add: foreign_change_def same_defs idle_def)
next
  fix n assume "t = (runtime_on_finalize E s)\<lparr>block_number := n\<rparr>"
  then show ?thesis
    using assms(2) by (simp add: idle_def finalize_idle runtime_on_finalize_keeps runtime_on_finalize_more)
qed

lemma idle_steps: "(rootless_step C E tr)\<^sup>*\<^sup>* s t \<Longrightarrow> idle s \<Longrightarrow> idle t"
  by (induction rule: rtranclp_induct) (auto intro: idle_step)

section \<open>Properties\<close>

text \<open>
  C3. Nothing is exported that its owner did not ask for. In the whole system, with any number
  of nodes whose signatures cannot be forged, in any interleaving of calls, blocks and
  off-chain workers, and with transactions sent any number of times, a detached
  Proto-Fragment was requested by a call that its owner of that moment signed, for the very
  chain and account that are recorded, an account of 20 bytes; and it is still stored.
\<close>

theorem detached_on_request:
  assumes "(network_step D)\<^sup>*\<^sup>* n n'" and "network_start D n" and "sends_payload D"
    and "DetachedHashes (chain_state n') h = Some x"
  shows "\<exists>who r p q. (who, r, p) \<in> set (requests_made n') \<and> proto_owned_by p = User who \<and> req_hash r = h \<and>
    exp_chain x = req_target_chain r \<and> exp_owner x = req_target_account r \<and> length (exp_owner x) = 20 \<and>
    Protos (chain_state n') h = Some q \<and> evolves p q"
proof -
  have flow: "detach_flow D n'" by (rule detach_flow_reachable [OF assms(1-3)])
  from detach_flowD(6) [OF flow assms(4)] obtain r where "r \<in> requested n'" and r: "req_hash r = h" "export_of x r"
    by blast
  then obtain who p where made: "(who, r, p) \<in> set (requests_made n')" by (auto simp: requested_def)
  with detach_flowD(2) [OF flow made] r show ?thesis by (auto simp: export_of_def)
qed

theorem detached_on_request_witness:
  "\<exists>n' who r p. (network_step (sample_deployment chain_ext))\<^sup>*\<^sup>*
      (one_node sample_chain None sample_worker (sample_node []) []) n' \<and>
     (who, r, p) \<in> set (requests_made n') \<and> proto_owned_by p = User who \<and> req_hash r = seven"
proof -
  obtain n' x where run: "(network_step (sample_deployment chain_ext))\<^sup>*\<^sup>*
      (one_node sample_chain None sample_worker (sample_node []) []) n'"
    and x: "DetachedHashes (chain_state n') seven = Some x" using sample_detached_run by blast
  from detached_on_request [OF run one_node_start sample_sends x] run show ?thesis by blast
qed

text \<open>
  C4. Nothing is locked that did not happen on Ethereum. Every locked amount on the chain is
  the amount of an event that the Ethereum node of one of the nodes gave for one of the
  contracts; the event is by the Ethereum account that the amount is booked for, which signed
  it, and an unlock event books zero.
\<close>

theorem locks_reported:
  assumes "(network_step D)\<^sup>*\<^sup>* n n'" and "network_start D n" and "sends_payload D"
    and "EthLockedFrag (chain_state n') a = Some k"
  shows "\<exists>i l public. answered (lock_host D i) (dep_contracts D) l \<and> log_sender l = a \<and>
    unat (lock_amount k) = unat (log_amount l) \<and> (log_locked l \<longleftrightarrow> lock_amount k \<noteq> 0) \<and>
    recover_address (dep_ext D) (log_signature l)
      (lock_message_hash (dep_config D) (dep_ext D) (lock_update l public)) = Some a"
proof -
  have "lock_flow D n'" by (rule lock_flow_reachable [OF assms(1-3)])
  with assms(4) obtain d where "reported D d" and a: "elu_sender d = a"
    and valid: "lock_event_valid (dep_config D) (dep_ext D) d" and k: "lock_amount k = ucast (elu_amount d)"
    unfolding lock_flow_def by blast
  then obtain i l public where l: "answered (lock_host D i) (dep_contracts D) l" "d = lock_update l public"
    unfolding reported_def by blast
  have "unat (lock_amount k) = unat (elu_amount d)"
    using valid by (simp add: k lock_event_valid_def unsigned_ucast_eq take_bit_nat_eq_self)
  moreover have "log_sender l = elu_sender d" "log_amount l = elu_amount d" "log_locked l = elu_lock d"
    "log_signature l = elu_signature d" by (simp_all add: l(2) lock_update_def)
  ultimately show ?thesis
    using l(1) a valid k by (intro exI [of _ i] exI [of _ l] exI [of _ public]) (simp add: l(2) [symmetric] lock_event_valid_def)
qed

theorem locks_reported_witness:
  "\<exists>i l. answered (lock_host (sample_deployment lock_chain_ext) i) [[9]] l \<and> log_sender l = replicate 20 0"
proof -
  obtain n' k where run: "(network_step (sample_deployment lock_chain_ext))\<^sup>*\<^sup>*
      (one_node sample_chain None sample_worker (sample_node [[[1]], [[2]]]) []) n'"
    and k: "EthLockedFrag (chain_state n') (replicate 20 0) = Some k" using sample_lock_run by blast
  from locks_reported [OF run one_node_start sample_sends k] show ?thesis by auto
qed

text \<open>
  C39. A transaction that finalises a detachment can be sent again. As long as the key that
  signed it is registered it is accepted in every state, whatever has been detached since,
  and sets the nonce of its target back to its own; the next request for the same target is
  then signed with a nonce that was used before.
\<close>

theorem detach_replayed:
  assumes "detach_signed E s d sig" and "det_nonce d \<noteq> - 1"
    and "req_target_account r = det_target_account d" and "req_target_chain r = det_target_chain d"
  shows "\<exists>t. apply_extrinsic C E tr (Unsigned_Extrinsic (Detach_Call (Internal_finalize_detach d sig))) s = Some (Ok, t) \<and>
    DetachNonces t (det_target_account d, det_target_chain d) = Some (det_nonce d) \<and>
    (\<forall>p. add_nonce_to_payload t r p = Some (det_nonce d + 1, p @ be_bytes 8 (det_nonce d + 1)))"
proof -
  have "runtime_validate_unsigned E InBlock (Detach_Call (Internal_finalize_detach d sig)) s"
    using assms(1) by (auto simp: validated detach_signed_def)
  then show ?thesis
    using assms(2-4) by (intro exI [of _ "snd (internal_finalize_detach NoOrigin d sig s)"])
      (simp add: apply_extrinsic_def dispatch_def in_pallet_def internal_finalize_detach_def Let_def
        add_nonce_to_payload_def checked_add_one)
qed

theorem detach_replayed_witness:
  "\<exists>t. apply_extrinsic runtime_config chain_ext True
      (Unsigned_Extrinsic (Detach_Call (Internal_finalize_detach signed_export [1])))
      (after_upload\<lparr>DetachNonces := [(replicate 20 1, EthereumGoerli) \<mapsto> 8]\<rparr>) = Some (Ok, t) \<and>
    DetachNonces t (replicate 20 1, EthereumGoerli) = Some 1"
proof -
  let ?s = "after_upload\<lparr>DetachNonces := [(replicate 20 1, EthereumGoerli) \<mapsto> 8]\<rparr>"
  have "detach_signed chain_ext ?s signed_export [1]"
    by (simp add: detach_signed_def signed_export_def chain_ext_def sample_fragments_ext_def sample_ext_def accounts_ext.defs)
  from detach_replayed [OF this, of "sample_request 0 20" runtime_config True] show ?thesis
    by (auto simp: signed_export_def sample_request_def)
qed

text \<open>
  C24. The live network cannot do what it is for. Its genesis has neither a sudo key nor
  authorities nor registered keys, so every state it reaches has none; no Proto-Fragment is
  ever detached, no FRAG is ever locked, no stake is ever accepted, and a Proto-Fragment with
  a price can only be referred to by its owner.
\<close>

theorem live_network_idle:
  assumes "live_config wasm = Inr spec" and "spec_genesis spec = Some G"
    and "(rootless_step C E tr)\<^sup>*\<^sup>* (genesis_state G b) s"
  shows "sudo_key G = None \<and> EthereumAuthorities s = {} \<and> DetachedHashes s = Map.empty \<and> EthLockedFrag s = Map.empty \<and>
    (\<forall>og h amount. fst (stake E og h amount s) \<noteq> Ok) \<and>
    (\<forall>who refs c tags asset cost data. fst (upload E (Signed who) refs c tags asset cost data s) = Ok \<longrightarrow>
       (\<forall>h \<in> set refs. \<exists>p. Protos s h = Some p \<and> (proto_owned_by p = User who \<or> proto_include_cost p = Some 0)))"
proof -
  have "idle (genesis_state G b)" and key: "sudo_key G = None"
    using assms(1,2) by (auto simp: live_config_def genesis_state_def blank_state_def idle_def split: option.splits)
  then have idle: "idle s" using idle_steps [OF assms(3)] by blast
  then have none: "EthLockedFrag s = Map.empty" "ProtoStakes s = Map.empty" by (simp_all add: idle_def)
  have "fst (stake E og h amount s) \<noteq> Ok" for og h amount
    using none(1) by (cases "stake E og h amount s") (auto elim!: stake_Ok)
  moreover have "\<forall>h \<in> set refs. \<exists>p. Protos s h = Some p \<and> (proto_owned_by p = User who \<or> proto_include_cost p = Some 0)"
    if "fst (upload E (Signed who) refs c tags asset cost data s) = Ok" for who refs c tags asset cost data
    using that none(2) by (auto simp: upload_succeeds_iff includable_def)
  ultimately show ?thesis using idle key by (simp add: idle_def)
qed

theorem live_network_idle_witness:
  "\<exists>spec G. live_config (Some []) = Inr spec \<and> spec_genesis spec = Some G \<and> sudo_key G = None \<and>
    DetachedHashes (genesis_state G () :: (unit, nat, u8) fragments_state) = Map.empty"
proof -
  obtain spec G where spec: "live_config (Some []) = Inr spec" "spec_genesis spec = Some G"
    by (simp add: live_config_def)
  have "(rootless_step runtime_config chain_ext True)\<^sup>*\<^sup>* (genesis_state G () :: (unit, nat, u8) fragments_state) (genesis_state G ())"
    by simp
  from live_network_idle [OF spec this] show ?thesis using spec by blast
qed

end
