(* ===== verification/Lost_Requests.thy ===== *)
theory Lost_Requests
  imports Network_Properties
begin

text \<open>
  What becomes of detach requests that no node has handled when the next ones come: the hook
  at the end of a block overwrites the list in the node's database.
\<close>

section \<open>Requests on their way\<close>

text \<open>A request for a Proto-Fragment is in a queue, in a transaction, or already finalised.\<close>

definition in_flight :: "hash256 \<Rightarrow> ('b, 'c, 'p, 'k, 'w) network \<Rightarrow> bool" where
  "in_flight h n \<longleftrightarrow>
     (\<exists>r \<in> set (DetachRequests (chain_state n)). req_hash r = h) \<or>
     (\<exists>i rs. detach_queues n i = Some rs \<and> (\<exists>r \<in> set rs. req_hash r = h)) \<or>
     (\<exists>i d sig. (d, sig) \<in> set (submitted (detach_workers n i)) \<and> det_hash d = h) \<or>
     DetachedHashes (chain_state n) h \<noteq> None"

lemma not_in_flightI:
  assumes "\<And>r. r \<in> set (DetachRequests (chain_state n)) \<Longrightarrow> req_hash r \<noteq> h"
    and "\<And>i rs r. detach_queues n i = Some rs \<Longrightarrow> r \<in> set rs \<Longrightarrow> req_hash r \<noteq> h"
    and "\<And>i d sig. (d, sig) \<in> set (submitted (detach_workers n i)) \<Longrightarrow> det_hash d \<noteq> h"
    and "DetachedHashes (chain_state n) h = None"
  shows "\<not> in_flight h n"
  using assms unfolding in_flight_def by blast

lemma not_in_flightD:
  assumes "\<not> in_flight h n"
  shows "\<And>r. r \<in> set (DetachRequests (chain_state n)) \<Longrightarrow> req_hash r \<noteq> h"
    and "\<And>i rs r. detach_queues n i = Some rs \<Longrightarrow> r \<in> set rs \<Longrightarrow> req_hash r \<noteq> h"
    and "\<And>i d sig. (d, sig) \<in> set (submitted (detach_workers n i)) \<Longrightarrow> det_hash d \<noteq> h"
    and "DetachedHashes (chain_state n) h = None"
  using assms unfolding in_flight_def by blast+

text \<open>A step of the network in which nobody asks for the Proto-Fragment.\<close>

definition quiet_step :: "('b, 'p, 'k, 'w) deployment \<Rightarrow> hash256 \<Rightarrow> ('b, 'c, 'p, 'k, 'w) network
    \<Rightarrow> ('b, 'c, 'p, 'k, 'w) network \<Rightarrow> bool" where
  "quiet_step D h n n' \<longleftrightarrow> network_step D n n' \<and>
     (\<forall>(who, r, p) \<in> set (drop (length (requests_made n)) (requests_made n')). req_hash r \<noteq> h)"

text \<open>The keys registered on the chain are keys of the nodes, and nothing is on its way.\<close>

definition at_rest :: "('b, 'p, 'k, 'w) deployment \<Rightarrow> hash256 \<Rightarrow> ('b, 'c, 'p, 'k, 'w) network \<Rightarrow> bool" where
  "at_rest D h n \<longleftrightarrow> detach_FragKeys (chain_state n) \<subseteq> node_keys D \<and> \<not> in_flight h n"

lemma at_rest_chain:
  assumes "at_rest D h n" and "detach_FragKeys t \<subseteq> node_keys D"
    and "\<And>r. r \<in> set (DetachRequests t) \<Longrightarrow> r \<in> set (DetachRequests (chain_state n)) \<or> req_hash r \<noteq> h"
    and "DetachedHashes t h = DetachedHashes (chain_state n) h"
  shows "at_rest D h (n\<lparr>chain_state := t, requests_made := made\<rparr>)"
proof -
  note rest = not_in_flightD [of h n]
  have "\<not> in_flight h (n\<lparr>chain_state := t, requests_made := made\<rparr>)"
    by (rule not_in_flightI) (use assms rest in \<open>auto simp: at_rest_def\<close>)
  then show ?thesis using assms(2) by (simp add: at_rest_def)
qed

lemma at_rest_step:
  assumes "quiet_step D h n n'" and rest: "at_rest D h n" and sends: "sends_payload D"
  shows "at_rest D h n'"
proof -
  have step: "network_step D n n'" and quiet: "\<And>who r p. (who, r, p) \<in> set (drop (length (requests_made n)) (requests_made n'))
      \<Longrightarrow> req_hash r \<noteq> h"
    using assms(1) unfolding quiet_step_def by blast+
  have keys: "detach_FragKeys (chain_state n) \<subseteq> node_keys D" and idle: "\<not> in_flight h n"
    using rest by (simp_all add: at_rest_def)
  note flight = not_in_flightD [OF idle]
  from step show ?thesis
  proof cases
    case (signed who call r t)
    have "req_hash r' \<noteq> h \<or> r' \<in> set (DetachRequests (chain_state n))" if "r' \<in> set (DetachRequests t)" for r'
      using signed(2)
    proof (cases rule: extrinsic_requests)
      case (requested who' h' chain target p)
      then have "new_requests who call r (chain_state n) =
          [(who, \<lparr>req_hash = h', req_target_chain = chain, req_target_account = target\<rparr>, p)]" by simp
      then have "h' \<noteq> h" using quiet [of who "\<lparr>req_hash = h', req_target_chain = chain, req_target_account = target\<rparr>" p]
        by (simp add: signed(1))
      then show ?thesis using that requested(5) by auto
    qed (use that in simp)
    moreover have "DetachedHashes t = DetachedHashes (chain_state n)" using signed(2) by (cases rule: extrinsic_detached) auto
    moreover have "detach_FragKeys t \<subseteq> node_keys D" using extrinsic_keys(1) [OF signed(2)] keys by blast
    ultimately show ?thesis unfolding signed(1) by (intro at_rest_chain [OF rest]) auto
  next
    case (sudo call r t)
    have "detach_FragKeys t \<subseteq> node_keys D"
      using extrinsic_keys(1) [OF sudo(2)] sudo(3) keys unfolding registers_nodes_def by blast
    moreover have "DetachRequests t = DetachRequests (chain_state n)" using sudo(2) by (cases rule: extrinsic_requests) auto
    moreover have "DetachedHashes t = DetachedHashes (chain_state n)" using sudo(2) by (cases rule: extrinsic_detached) auto
    ultimately show ?thesis using at_rest_chain [OF rest, of t "requests_made n"] by (simp add: sudo(1))
  next
    case (unsigned call r t)
    have "detach_FragKeys t \<subseteq> node_keys D" using extrinsic_keys(1) [OF unsigned(2)] keys by blast
    moreover have "DetachRequests t = DetachRequests (chain_state n)" using unsigned(2) by (cases rule: extrinsic_requests) auto
    moreover have "DetachedHashes t h = DetachedHashes (chain_state n) h"
      using unsigned(2)
    proof (cases rule: extrinsic_detached)
      case (finalized d sig)
      then have call: "call = Detach_Call (Internal_finalize_detach d sig)" by simp
      from unsigned_signed(1) [OF unsigned(2) call] keys unsigned(3) call
      have "\<exists>i. (d, sig) \<in> set (submitted (detach_workers n i))" unfolding detach_signed_def not_forged_def by blast
      then have "det_hash d \<noteq> h" using flight(3) by blast
      then show ?thesis using finalized(2) by simp
    qed simp
    ultimately show ?thesis using at_rest_chain [OF rest, of t "requests_made n"] by (simp add: unsigned(1))
  next
    case (frame t)
    then show ?thesis
      using at_rest_chain [OF rest, of t "requests_made n"] keys by (simp add: foreign_change_def same_detach_def)
  next
    case (block_end t importing)
    have "\<not> in_flight h n'"
      by (rule not_in_flightI)
        (use flight in \<open>auto simp: block_end runtime_on_finalize_keeps runtime_on_finalize_more split: if_splits\<close>)
    then show ?thesis using keys by (simp add: at_rest_def block_end runtime_on_finalize_keeps)
  next
    case (sign_requests i s w)
    have "\<not> in_flight h n'"
    proof (rule not_in_flightI)
      show "req_hash r \<noteq> h" if "detach_queues n' j = Some rs" "r \<in> set rs" for j rs r
      proof -
        have "detach_queues n j = Some rs \<or> rs = []"
          using that(1) process_detach_requests_queue [OF sign_requests(2)] by (auto simp: sign_requests(1) split: if_splits)
        then show ?thesis using flight(2) that(2) by auto
      qed
      show "det_hash d \<noteq> h" if "(d, sig) \<in> set (submitted (detach_workers n' j))" for j d sig
      proof (cases "(d, sig) \<in> set (submitted (detach_workers n j))")
        case False
        then have "j = i" "(d, sig) \<in> set (submitted w)" "(d, sig) \<notin> set (submitted (detach_workers n i))"
          using that by (auto simp: sign_requests(1) split: if_splits)
        with process_detach_requests_submitted [OF sign_requests(2) this(2)] obtain rs r where
          rs: "detach_queues n i = Some rs" "r \<in> set rs"
          and r: "signs_request (dep_ext D) (detach_host D i) ((chain_state n)\<lparr>offchain_requests := detach_queues n i\<rparr>) r (d, sig)"
          by auto
        have "\<exists>public. d = f public" if "send_unsigned (detach_host D i) k f = Some (d, sig)" for k f d sig
          using sends that unfolding sends_payload_def by blast
        with signs_request_fields [OF r] have "det_hash d = req_hash r" by blast
        then show ?thesis using flight(2) [OF rs] by simp
      qed (rule flight(3))
    qed (use flight in \<open>simp_all add: sign_requests(1)\<close>)
    then show ?thesis using keys by (simp add: at_rest_def sign_requests(1))
  next
    case (fetch_locks i r w)
    then show ?thesis using rest by (simp add: at_rest_def in_flight_def)
  next
    case (ethereum i w)
    then show ?thesis using rest by (simp add: at_rest_def in_flight_def)
  qed
qed

lemma at_rest_steps:
  "(quiet_step D h)\<^sup>*\<^sup>* n n' \<Longrightarrow> sends_payload D \<Longrightarrow> at_rest D h n \<Longrightarrow> at_rest D h n'"
  by (induction rule: rtranclp_induct) (auto intro: at_rest_step)

section \<open>Property\<close>

text \<open>
  C23. Requests that are overtaken are lost. When a block with detach requests is imported, what
  the nodes had in their databases is overwritten: a Proto-Fragment that was requested
  before, for which no transaction has been sent yet, is in no queue any more, and whatever the
  network does, no node ever signs for it and it is never detached unless its owner asks again.
\<close>

theorem overtaken_request_lost:
  assumes "detach_FragKeys (chain_state n) \<subseteq> node_keys D" and "sends_payload D"
    and "DetachRequests (chain_state n) \<noteq> []" and "\<forall>r \<in> set (DetachRequests (chain_state n)). req_hash r \<noteq> h"
    and "\<forall>i. \<forall>(d, sig) \<in> set (submitted (detach_workers n i)). det_hash d \<noteq> h"
    and "DetachedHashes (chain_state n) h = None"
    and "t = runtime_on_finalize (dep_ext D) (chain_state n)"
    and "(quiet_step D h)\<^sup>*\<^sup>* (n\<lparr>chain_state := t\<lparr>block_number := block_number t + 1\<rparr>,
           detach_queues := (\<lambda>i. offchain_requests t)\<rparr>) n'"
  shows "DetachedHashes (chain_state n') h = None \<and>
    (\<forall>i. \<forall>(d, sig) \<in> set (submitted (detach_workers n' i)). det_hash d \<noteq> h) \<and>
    (\<forall>i rs. detach_queues n' i = Some rs \<longrightarrow> (\<forall>r \<in> set rs. req_hash r \<noteq> h))"
proof -
  let ?n = "n\<lparr>chain_state := t\<lparr>block_number := block_number t + 1\<rparr>, detach_queues := (\<lambda>i. offchain_requests t)\<rparr>"
  have "\<not> in_flight h ?n"
    by (rule not_in_flightI) (use assms(3-6) in \<open>auto simp: assms(7) runtime_on_finalize_keeps runtime_on_finalize_more\<close>)
  then have "at_rest D h ?n" using assms(1) by (simp add: at_rest_def assms(7) runtime_on_finalize_keeps)
  from at_rest_steps [OF assms(8,2) this] have "\<not> in_flight h n'" by (simp add: at_rest_def)
  then show ?thesis unfolding in_flight_def by blast
qed

text \<open>Node 0 has not handled the request for one Proto-Fragment when another one is requested.\<close>

theorem overtaken_request_lost_witness:
  "\<exists>n :: (unit, nat, u8, unit, bytes list list) network. detach_queues n 0 = Some [exported] \<and>
     (let t = runtime_on_finalize chain_ext (chain_state n);
          n1 = n\<lparr>chain_state := t\<lparr>block_number := block_number t + 1\<rparr>, detach_queues := (\<lambda>i. offchain_requests t)\<rparr>
      in network_step (sample_deployment chain_ext) n n1 \<and> \<not> (\<exists>rs. detach_queues n1 0 = Some rs \<and> exported \<in> set rs))"
proof -
  let ?other = "(sample_request 0 20)\<lparr>req_hash := 8 # replicate 31 0\<rparr>"
  let ?s = "after_upload\<lparr>DetachRequests := [?other]\<rparr>" let ?D = "sample_deployment chain_ext"
  let ?n = "one_node ?s (Some [exported]) sample_worker (sample_node []) [] :: (unit, nat, u8, unit, bytes list list) network"
  let ?t = "runtime_on_finalize chain_ext ?s"
  let ?n1 = "?n\<lparr>chain_state := ?t\<lparr>block_number := block_number ?t + 1\<rparr>, detach_queues := (\<lambda>i. offchain_requests ?t)\<rparr>"
  have h: "DetachRequests (chain_state ?n) \<noteq> []" "\<forall>r \<in> set (DetachRequests (chain_state ?n)). req_hash r \<noteq> seven"
    "\<forall>i. \<forall>(d, sig) \<in> set (submitted (detach_workers ?n i)). det_hash d \<noteq> seven"
    "detach_FragKeys (chain_state ?n) \<subseteq> node_keys ?D" "DetachedHashes (chain_state ?n) seven = None"
    by (auto simp: one_node_def)
  have "network_step ?D ?n ?n1"
    using network_step.block_end [of ?t ?D ?n UNIV] by (simp add: cong: if_cong)
  moreover have "\<not> (\<exists>rs. detach_queues ?n1 0 = Some rs \<and> exported \<in> set rs)"
    using overtaken_request_lost [OF h(4) sample_sends h(1-3,5) refl, of ?n1] by (auto dest!: bspec [of _ _ exported])
  ultimately show ?thesis by (intro exI [of _ ?n]) (simp add: one_node_def Let_def)
qed

end
